(* ===== verification/Prelude.thy ===== *)
theory Prelude
  imports Main
begin

text \<open>
  What the components share: Python exceptions as values, SQL statements on tables (lists of
  rows), an inductive notion of reachable state, and the three interfaces that several components
  implement: a status machine whose transitions never go back, an invariant of a step relation,
  and a text form that can be read back.

  Nothing here models a particular file of the repository: it is the part of the language, of
  SQL and of the proof technique the component theories are written in.
\<close>

named_theorems sql_simps \<open>rewriting of SELECT, UPDATE and INSERT on tables\<close>

section \<open>Python exceptions\<close>

text \<open>
  Built-in exceptions the code can raise without meaning to, and the three ways a use case can
  fail: a \<open>DomainError\<close> of the service, a violated database constraint (carrying the
  constraint's name, as psycopg's diagnostics do), or a built-in exception.
\<close>

datatype py_error =
  KeyError | ValueError | TypeError | AttributeError | OverflowError | NoResultFound | DataError | FileNotFoundError

datatype 'd exn = Domain 'd | IntegrityError string | Python py_error

text \<open>A call that may raise, followed by the rest of the function.\<close>

definition try_bind :: "'e + 'a \<Rightarrow> ('a \<Rightarrow> 'e + 'b) \<Rightarrow> 'e + 'b" where
  "try_bind r k = (case r of Inl e \<Rightarrow> Inl e | Inr x \<Rightarrow> k x)"

lemma try_bind_simps [simp]:
  "try_bind (Inl e) k = Inl e"
  "try_bind (Inr x) k = k x"
  by (simp_all add: try_bind_def)

lemma try_bind_Inr_iff:
  "try_bind r k = Inr y \<longleftrightarrow> (\<exists>x. r = Inr x \<and> k x = Inr y)"
  by (cases r) simp_all

section \<open>Tables\<close>

text \<open>\<open>UPDATE t SET f WHERE P\<close>: every row that matches is replaced, in place.\<close>

definition update_where :: "('a \<Rightarrow> bool) \<Rightarrow> ('a \<Rightarrow> 'a) \<Rightarrow> 'a list \<Rightarrow> 'a list" where
  "update_where P f xs = map (\<lambda>x. if P x then f x else x) xs"

lemma update_where_simps [sql_simps]:
  "update_where P f [] = []"
  "update_where P f (x # xs) = (if P x then f x else x) # update_where P f xs"
  "update_where P f (xs @ ys) = update_where P f xs @ update_where P f ys"
  by (simp_all add: update_where_def)

lemma length_update_where [simp, sql_simps]: "length (update_where P f xs) = length xs"
  by (simp add: update_where_def)

lemma set_update_where [sql_simps]:
  "set (update_where P f xs) = (\<lambda>x. if P x then f x else x) ` set xs"
  by (simp add: update_where_def)

lemma map_update_where [sql_simps]:
  "(\<And>x. g (f x) = g x) \<Longrightarrow> map g (update_where P f xs) = map g xs"
  by (simp add: update_where_def)

lemma update_where_none:
  "(\<And>x. x \<in> set xs \<Longrightarrow> \<not> P x) \<Longrightarrow> update_where P f xs = xs"
  by (induction xs) (simp_all add: update_where_def)

lemma filter_update_where:
  "filter Q (update_where P f xs) =
   map (\<lambda>x. if P x then f x else x) (filter (\<lambda>x. Q (if P x then f x else x)) xs)"
  by (induction xs) (simp_all add: update_where_def)

lemma map_filter_update_where:
  "(\<And>x. key (f x) = key x) \<Longrightarrow> (\<And>x. Q (f x) = Q x) \<Longrightarrow>
     map key (filter Q (update_where P f xs)) = map key (filter Q xs)"
  by (induction xs) (simp_all add: update_where_simps(1,2))

lemma filter_update_away:
  "(\<And>x. \<not> Q (f x)) \<Longrightarrow> filter Q (update_where P f xs) = filter (\<lambda>x. \<not> P x) (filter Q xs)"
  by (induction xs) (simp_all add: update_where_simps(1,2))

text \<open>A key lookup (\<open>session.get\<close>) and what it says of a table with distinct keys.\<close>

definition get_by :: "('a \<Rightarrow> 'k) \<Rightarrow> 'k \<Rightarrow> 'a list \<Rightarrow> 'a option" where
  "get_by key k xs = find (\<lambda>x. key x = k) xs"

lemma get_by_simps [simp]:
  "get_by key k [] = None"
  "get_by key k (x # xs) = (if key x = k then Some x else get_by key k xs)"
  by (simp_all add: get_by_def)

lemma get_by_SomeD: "get_by key k xs = Some x \<Longrightarrow> x \<in> set xs \<and> key x = k"
  by (induction xs) (auto split: if_splits)

lemma get_by_None_iff: "get_by key k xs = None \<longleftrightarrow> k \<notin> key ` set xs"
  by (induction xs) auto

lemma get_by_append:
  "get_by key k (xs @ ys) =
   (case get_by key k xs of Some x \<Rightarrow> Some x | None \<Rightarrow> get_by key k ys)"
  by (induction xs) simp_all

lemma get_by_eq_Some:
  "distinct (map key xs) \<Longrightarrow> x \<in> set xs \<Longrightarrow> get_by key (key x) xs = Some x"
  by (induction xs) (auto simp: rev_image_eqI)

lemma get_by_iff:
  "distinct (map key xs) \<Longrightarrow> get_by key k xs = Some x \<longleftrightarrow> x \<in> set xs \<and> key x = k"
  using get_by_SomeD get_by_eq_Some by metis

lemma get_by_update_where:
  assumes "\<And>x. key (f x) = key x"
  shows "get_by key k (update_where P f xs) =
    map_option (\<lambda>x. if P x then f x else x) (get_by key k xs)"
  by (induction xs) (simp_all add: update_where_def assms)

lemma distinct_key_eq:
  "distinct (map key xs) \<Longrightarrow> x \<in> set xs \<Longrightarrow> y \<in> set xs \<Longrightarrow> key x = key y \<Longrightarrow> x = y"
  by (meson distinct_map inj_onD)

lemma filter_unique_key:
  assumes "distinct (map key xs)" "r \<in> set xs" "P r" "\<And>x. P x \<Longrightarrow> key x = key r"
  shows "filter P xs = [r]"
  using assms(1,2)
proof (induction xs)
  case (Cons a xs)
  show ?case
  proof (cases "a = r")
    case True
    with Cons.prems assms(4) have "\<not> P x" if "x \<in> set xs" for x
      using that by (metis distinct.simps(2) image_eqI list.simps(9) list.set_map)
    with True assms(3) show ?thesis by (simp add: filter_empty_conv)
  next
    case False
    with Cons.prems have "r \<in> set xs" "key a \<noteq> key r" by (auto simp: rev_image_eqI)
    with Cons assms(4) show ?thesis by fastforce
  qed
qed simp

text \<open>A (partial) unique index: the rows that satisfy \<open>P\<close> have different keys.\<close>

definition unique_index :: "('a \<Rightarrow> 'k) \<Rightarrow> ('a \<Rightarrow> bool) \<Rightarrow> 'a list \<Rightarrow> bool" where
  "unique_index key P xs = distinct (map key (filter P xs))"

lemma unique_index_simps [simp]:
  "unique_index key P []"
  "unique_index key P (x # xs) \<longleftrightarrow>
     (P x \<longrightarrow> key x \<notin> key ` {y \<in> set xs. P y}) \<and> unique_index key P xs"
  by (auto simp: unique_index_def)

lemma unique_index_append1:
  "unique_index key P (xs @ [x]) \<longleftrightarrow>
     unique_index key P xs \<and> (P x \<longrightarrow> key x \<notin> key ` {y \<in> set xs. P y})"
  by (auto simp: unique_index_def)

lemma unique_index_update_where:
  assumes "unique_index key P xs"
    and "\<And>x. key (f x) = key x"
    and "\<And>x. x \<in> set xs \<Longrightarrow> Q x \<Longrightarrow> P (f x) \<Longrightarrow> P x"
  shows "unique_index key P (update_where Q f xs)"
  using assms(1,3)
proof (induction xs)
  case Nil
  then show ?case by (simp add: update_where_def)
next
  case (Cons x xs)
  then have "unique_index key P (update_where Q f xs)" by simp
  moreover have "key ` {y \<in> set (update_where Q f xs). P y} \<subseteq> key ` {y \<in> set xs. P y}"
    using Cons.prems(2) assms(2) by (fastforce simp: set_update_where)
  ultimately show ?case
    using Cons.prems assms(2) by (auto simp: update_where_simps)
qed

lemma unique_index_filter_le1:
  "unique_index key P xs \<Longrightarrow> length (filter (\<lambda>x. P x \<and> key x = k) xs) \<le> 1"
proof (induction xs)
  case (Cons x xs)
  show ?case
  proof (cases "P x \<and> key x = k")
    case True
    with Cons.prems have "key y \<noteq> k" if "y \<in> set xs" "P y" for y
      using that by (auto simp: image_iff)
    then have "filter (\<lambda>x. P x \<and> key x = k) xs = []"
      by (auto simp: filter_empty_conv)
    with True show ?thesis by simp
  next
    case False
    with Cons show ?thesis by auto
  qed
qed simp

text \<open>\<open>ORDER BY\<close> a key, seen through the keys.\<close>

lemma map_sort_key: "map f (sort_key f xs) = sort (map f xs)"
proof (induction xs)
  case (Cons x xs)
  have "map f (insort_key f x ys) = insort (f x) (map f ys)" for ys
    by (induction ys) simp_all
  with Cons show ?case by simp
qed simp

section \<open>Reachable states\<close>

inductive reachable_from :: "('s \<Rightarrow> bool) \<Rightarrow> ('s \<Rightarrow> 's \<Rightarrow> bool) \<Rightarrow> 's \<Rightarrow> bool"
  for start :: "'s \<Rightarrow> bool" and move :: "'s \<Rightarrow> 's \<Rightarrow> bool" where
  reach_start: "start s \<Longrightarrow> reachable_from start move s"
| reach_step: "reachable_from start move s \<Longrightarrow> move s t \<Longrightarrow> reachable_from start move t"

text \<open>
  The contract of a step invariant: it holds in the start states and every step keeps it.
  The interleaving models of the services are its instances.
\<close>

locale invariant_system =
  fixes start :: "'s \<Rightarrow> bool"
    and move :: "'s \<Rightarrow> 's \<Rightarrow> bool"
    and inv :: "'s \<Rightarrow> bool"
  assumes start_inv: "start s \<Longrightarrow> inv s"
    and move_inv: "inv s \<Longrightarrow> move s t \<Longrightarrow> inv t"
begin

lemma reachable_inv: "reachable_from start move s \<Longrightarrow> inv s"
  by (induction rule: reachable_from.induct) (auto intro: start_inv move_inv)

lemma moves_inv: "move\<^sup>*\<^sup>* s t \<Longrightarrow> inv s \<Longrightarrow> inv t"
  by (induction rule: rtranclp_induct) (auto intro: move_inv)

end

section \<open>Status machines\<close>

text \<open>
  Both booking and payments keep a status column and a table of allowed transitions. The
  contract: a transition strictly raises a rank below a bound. Then no status is ever left and
  entered again, and a life is at most \<open>bound\<close> transitions long.
\<close>

fun status_path :: "('st \<Rightarrow> 'st \<Rightarrow> bool) \<Rightarrow> 'st list \<Rightarrow> bool" where
  "status_path allowed [] = True"
| "status_path allowed [a] = True"
| "status_path allowed (a # b # rest) = (allowed a b \<and> status_path allowed (b # rest))"

locale status_machine =
  fixes allowed :: "'st \<Rightarrow> 'st \<Rightarrow> bool"
    and rank :: "'st \<Rightarrow> nat"
    and bound :: nat
  assumes allowed_rank: "allowed a b \<Longrightarrow> rank a < rank b"
    and rank_bound: "rank a \<le> bound"
begin

lemma no_self_transition: "\<not> allowed a a"
  using allowed_rank by blast

lemma path_rank: "status_path allowed (a # xs) \<Longrightarrow> b \<in> set xs \<Longrightarrow> rank a < rank b"
proof (induction xs arbitrary: a)
  case (Cons c xs)
  then have "rank a < rank c" "status_path allowed (c # xs)"
    by (auto dest: allowed_rank)
  with Cons show ?case by (metis less_trans set_ConsD)
qed simp

lemma path_distinct: "status_path allowed xs \<Longrightarrow> distinct xs"
proof (induction xs)
  case (Cons a xs)
  then have "a \<notin> set xs" using path_rank by blast
  moreover have "status_path allowed xs" using Cons.prems by (cases xs) simp_all
  ultimately show ?case using Cons.IH by simp
qed simp

lemma path_rank_length:
  "status_path allowed (a # xs) \<Longrightarrow> rank a + length xs \<le> bound"
proof (induction xs arbitrary: a)
  case Nil
  show ?case using rank_bound by simp
next
  case (Cons b xs)
  then have "rank a < rank b" "rank b + length xs \<le> bound"
    by (auto dest: allowed_rank)
  then show ?case by simp
qed

lemma path_length: "status_path allowed xs \<Longrightarrow> length xs \<le> Suc bound"
proof (cases xs)
  case (Cons a ys)
  assume "status_path allowed xs"
  with Cons have "rank a + length ys \<le> bound" using path_rank_length by blast
  with Cons show ?thesis by simp
qed simp

end

section \<open>Text forms\<close>

text \<open>
  The services hand values to each other as text: a UUID in a payload, a timestamp, a JSON
  body. The contract: a reader gets back what the writer wrote. Then the texts of different
  values differ, so comparing the texts compares the values.
\<close>

locale codec =
  fixes encode :: "'a \<Rightarrow> 'b"
    and decode :: "'b \<Rightarrow> 'a option"
    and valid :: "'a \<Rightarrow> bool"
  assumes decode_encode: "valid x \<Longrightarrow> decode (encode x) = Some x"
begin

lemma encode_eq_iff: "valid x \<Longrightarrow> valid y \<Longrightarrow> encode x = encode y \<longleftrightarrow> x = y"
  by (metis decode_encode option.inject)

end

end
