(* ===== verification/Pyvalue.thy ===== *)
theory Pyvalue
  imports Prelude
begin

text \<open>
  Python values the services exchange: decimal and hexadecimal text, string methods, JSON values
  and UUIDs. Strings are lists of one-byte characters, read as the code points 0 to 255.
\<close>

section \<open>Digits\<close>

definition digit_char :: "nat \<Rightarrow> char" where
  "digit_char d = ''0123456789abcdefghijklmnopqrstuvwxyz'' ! d"

definition digit_of :: "char \<Rightarrow> nat option" where
  "digit_of c =
     (let n = of_char c :: nat
      in if 48 \<le> n \<and> n \<le> 57 then Some (n - 48)
         else if 97 \<le> n \<and> n \<le> 122 then Some (n - 87)
         else if 65 \<le> n \<and> n \<le> 90 then Some (n - 55) else None)"

definition digit_value :: "nat \<Rightarrow> char \<Rightarrow> nat option" where
  "digit_value base c =
     (case digit_of c of None \<Rightarrow> None | Some d \<Rightarrow> if d < base then Some d else None)"

fun fixed_digits :: "nat \<Rightarrow> nat \<Rightarrow> nat \<Rightarrow> string" where
  "fixed_digits base 0 n = []"
| "fixed_digits base (Suc w) n = fixed_digits base w (n div base) @ [digit_char (n mod base)]"

definition parse_digits :: "nat \<Rightarrow> string \<Rightarrow> nat option" where
  "parse_digits base s =
     fold (\<lambda>c acc. Option.bind acc (\<lambda>n. map_option (\<lambda>d. n * base + d) (digit_value base c))) s (Some 0)"

lemma digit_of_digit_char: "d < 36 \<Longrightarrow> digit_of (digit_char d) = Some d"
proof -
  have "list_all (\<lambda>d. digit_of (digit_char d) = Some d) [0..<36]"
    by (simp add: upt_rec digit_char_def digit_of_def)
  then show "d < 36 \<Longrightarrow> digit_of (digit_char d) = Some d"
    by (simp add: list_all_iff)
qed

lemma digit_value_digit_char:
  "base \<le> 36 \<Longrightarrow> d < base \<Longrightarrow> digit_value base (digit_char d) = Some d"
  by (simp add: digit_value_def digit_of_digit_char)

lemma length_fixed_digits [simp]: "length (fixed_digits base w n) = w"
  by (induction w arbitrary: n) simp_all

lemma parse_digits_append1:
  "parse_digits base (s @ [c]) =
   Option.bind (parse_digits base s) (\<lambda>n. map_option (\<lambda>d. n * base + d) (digit_value base c))"
  by (simp add: parse_digits_def)

lemma parse_fixed_digits:
  assumes "0 < base" "base \<le> 36"
  shows "parse_digits base (fixed_digits base w n) = Some (n mod base ^ w)"
proof (induction w arbitrary: n)
  case 0
  show ?case by (simp add: parse_digits_def)
next
  case (Suc w)
  have "n mod base ^ Suc w = n div base mod base ^ w * base + n mod base"
    by (simp add: mod_mult2_eq mult.commute)
  with Suc assms show ?case
    by (simp add: parse_digits_append1 digit_value_digit_char)
qed

lemma digit_chars:
  "0 < base \<Longrightarrow> set (fixed_digits base w n) \<subseteq> digit_char ` {..<base}"
  by (induction w arbitrary: n) auto

lemma digit_chars_in:
  assumes "0 < base" "base \<le> 36"
  shows "set (fixed_digits base w n) \<subseteq> set (take base ''0123456789abcdefghijklmnopqrstuvwxyz'')"
proof -
  have "digit_char d \<in> set (take base ''0123456789abcdefghijklmnopqrstuvwxyz'')" if "d < base" for d
  proof -
    have "take base ''0123456789abcdefghijklmnopqrstuvwxyz'' ! d = digit_char d"
      using that assms by (simp add: digit_char_def nth_take del: take_Cons nth_Cons)
    moreover have "d < length (take base ''0123456789abcdefghijklmnopqrstuvwxyz'')"
      using that assms by (simp del: take_Cons)
    ultimately show ?thesis by (metis nth_mem)
  qed
  with digit_chars [OF assms(1)] show ?thesis by fast
qed

text \<open>The decimal text of a number, without leading zeros.\<close>

fun show_nat :: "nat \<Rightarrow> string" where
  "show_nat n = (if n < 10 then [digit_char n] else show_nat (n div 10) @ [digit_char (n mod 10)])"

declare show_nat.simps [simp del]

definition show_int :: "int \<Rightarrow> string" where
  "show_int i = (if i < 0 then CHR ''-'' # show_nat (nat (- i)) else show_nat (nat i))"

lemma parse_show_nat: "parse_digits 10 (show_nat n) = Some n"
proof (induction n rule: show_nat.induct)
  case (1 n)
  have d: "digit_value 10 (digit_char (n mod 10)) = Some (n mod 10)"
    by (simp add: digit_value_digit_char)
  show ?case
  proof (cases "n < 10")
    case True
    then show ?thesis
      by (simp add: show_nat.simps [of n] parse_digits_def digit_value_digit_char)
  next
    case False
    with 1 d show ?thesis
      by (simp add: show_nat.simps [of n] parse_digits_append1)
  qed
qed

lemma show_nat_nonempty [simp]: "show_nat n \<noteq> []"
  by (subst show_nat.simps) simp

lemma show_nat_inj: "show_nat m = show_nat n \<Longrightarrow> m = n"
  by (metis option.inject parse_show_nat)

section \<open>String methods\<close>

definition startswith :: "string \<Rightarrow> string \<Rightarrow> bool" where
  "startswith s p \<longleftrightarrow> take (length p) s = p"

lemma startswith_iff: "startswith s p \<longleftrightarrow> (\<exists>r. s = p @ r)"
  by (metis append_take_drop_id append_eq_conv_conj startswith_def)

text \<open>\<open>s.split(c)\<close> for a separator of one character.\<close>

fun split_on :: "char \<Rightarrow> string \<Rightarrow> string list" where
  "split_on sep [] = [[]]"
| "split_on sep (c # cs) =
     (if c = sep then [] # split_on sep cs
      else case split_on sep cs of [] \<Rightarrow> [[c]] | p # ps \<Rightarrow> (c # p) # ps)"

fun join :: "string \<Rightarrow> string list \<Rightarrow> string" where
  "join sep [] = []"
| "join sep [p] = p"
| "join sep (p # q # ps) = p @ sep @ join sep (q # ps)"

lemma split_on_nonempty [simp]: "split_on sep s \<noteq> []"
  by (cases s) (auto split: list.split)

lemma split_on_no_sep: "sep \<notin> set s \<Longrightarrow> split_on sep s = [s]"
  by (induction s) auto

lemma split_on_append:
  "sep \<notin> set s \<Longrightarrow> split_on sep (s @ sep # t) = s # split_on sep t"
  by (induction s) auto

lemma join_split_on: "join [sep] (split_on sep s) = s"
proof (induction s)
  case (Cons c cs)
  then show ?case
    by (cases "split_on sep cs"; cases "tl (split_on sep cs)") (auto split: list.splits)
qed simp

lemma split_on_parts_no_sep: "p \<in> set (split_on sep s) \<Longrightarrow> sep \<notin> set p"
proof (induction s arbitrary: p)
  case (Cons c cs)
  then show ?case
    by (cases "split_on sep cs") (auto split: if_splits)
qed simp

text \<open>\<open>s.replace(pat, '')\<close>.\<close>

function remove_all :: "string \<Rightarrow> string \<Rightarrow> string" where
  "remove_all pat [] = []"
| "remove_all pat (c # cs) =
     (if pat \<noteq> [] \<and> startswith (c # cs) pat then remove_all pat (drop (length pat - 1) cs)
      else c # remove_all pat cs)"
  by pat_completeness auto
termination
  by (relation "measure (\<lambda>(pat, s). length s)") auto

lemma remove_all_id:
  assumes "x \<in> set pat" "x \<notin> set s"
  shows "remove_all pat s = s"
  using assms(2)
proof (induction s)
  case (Cons c cs)
  have "\<not> startswith (c # cs) pat"
    using Cons.prems assms(1) unfolding startswith_iff by (metis Un_iff set_append)
  with Cons show ?case by simp
qed simp

lemma remove_all_single: "remove_all [x] s = filter (\<lambda>c. c \<noteq> x) s"
  by (induction s) (auto simp: startswith_def)

text \<open>\<open>s.strip(chars)\<close>.\<close>

definition strip :: "char set \<Rightarrow> string \<Rightarrow> string" where
  "strip cs s = rev (dropWhile (\<lambda>c. c \<in> cs) (rev (dropWhile (\<lambda>c. c \<in> cs) s)))"

lemma strip_id: "set s \<inter> cs = {} \<Longrightarrow> strip cs s = s"
proof -
  assume a: "set s \<inter> cs = {}"
  have d: "dropWhile (\<lambda>c. c \<in> cs) t = t" if "set t \<inter> cs = {}" for t
    using that by (cases t) auto
  from a show ?thesis by (simp add: strip_def d)
qed

text \<open>What \<open>str.strip()\<close> and \<open>int()\<close> take for whitespace, among the code points up to 255.\<close>

definition py_space :: "char set" where
  "py_space = {CHR 0x09, CHR 0x0A, CHR 0x0B, CHR 0x0C, CHR 0x0D, CHR 0x1C, CHR 0x1D, CHR 0x1E,
     CHR 0x1F, CHR 0x20, CHR 0x85, CHR 0xA0}"

section \<open>JSON values\<close>

text \<open>
  What \<open>json.loads\<close> returns. A float is kept as the text Python prints for it, which identifies
  it; an object is its items in insertion order.
\<close>

datatype json =
  JNull | JBool bool | JInt int | JFloat string | JStr string
  | JArr "json list" | JObj "(string \<times> json) list"

text \<open>\<open>d.get(key)\<close> on a dict, with None for a missing key.\<close>

definition dict_get :: "(string \<times> json) list \<Rightarrow> string \<Rightarrow> json" where
  "dict_get kvs k = (case map_of kvs k of None \<Rightarrow> JNull | Some v \<Rightarrow> v)"

text \<open>\<open>bool(v)\<close>.\<close>

fun truthy :: "json \<Rightarrow> bool" where
  "truthy JNull = False"
| "truthy (JBool b) = b"
| "truthy (JInt i) = (i \<noteq> 0)"
| "truthy (JFloat t) = (t \<noteq> ''0.0'' \<and> t \<noteq> ''-0.0'')"
| "truthy (JStr s) = (s \<noteq> [])"
| "truthy (JArr xs) = (xs \<noteq> [])"
| "truthy (JObj kvs) = (kvs \<noteq> [])"

text \<open>\<open>repr(s)\<close> of a string: quotes, escapes, and hexadecimal for what is not printable.\<close>

definition repr_char :: "char \<Rightarrow> char \<Rightarrow> string" where
  "repr_char quote c =
     (let n = of_char c :: nat; bs = CHR 0x5C in
      if c = quote \<or> c = bs then [bs, c]
      else if n = 10 then bs # ''n'' else if n = 13 then bs # ''r'' else if n = 9 then bs # ''t''
      else if n < 32 \<or> (127 \<le> n \<and> n \<le> 160) \<or> n = 173 then bs # CHR ''x'' # fixed_digits 16 2 n
      else [c])"

definition repr_str :: "string \<Rightarrow> string" where
  "repr_str s =
     (let single = CHR 0x27; double = CHR 0x22;
          quote = (if single \<in> set s \<and> double \<notin> set s then double else single)
      in quote # concat (map (repr_char quote) s) @ [quote])"

fun py_repr :: "json \<Rightarrow> string" where
  "py_repr JNull = ''None''"
| "py_repr (JBool b) = (if b then ''True'' else ''False'')"
| "py_repr (JInt i) = show_int i"
| "py_repr (JFloat t) = t"
| "py_repr (JStr s) = repr_str s"
| "py_repr (JArr xs) = ''['' @ join '', '' (map py_repr xs) @ '']''"
| "py_repr (JObj kvs) =
     ''{'' @ join '', '' (map (\<lambda>(k, v). repr_str k @ '': '' @ py_repr v) kvs) @ ''}''"

text \<open>\<open>str(v)\<close>: the text itself for a string, \<open>repr\<close> for everything else.\<close>

definition py_str :: "json \<Rightarrow> string" where
  "py_str v = (case v of JStr s \<Rightarrow> s | _ \<Rightarrow> py_repr v)"

lemma py_str_JStr [simp]: "py_str (JStr s) = s"
  by (simp add: py_str_def)

section \<open>UUIDs\<close>

text \<open>
  A UUID is its 128-bit integer. \<open>str(u)\<close> prints 32 hexadecimal digits in groups of 8, 4, 4, 4
  and 12; \<open>UUID(s)\<close> drops the \<open>urn:\<close> and \<open>uuid:\<close> markers, braces and hyphens and gives
  the 32 characters that are left to \<open>int(hex, 16)\<close>.
\<close>

type_synonym uuid = nat

definition uuid_str :: "uuid \<Rightarrow> string" where
  "uuid_str u =
     (let h = fixed_digits 16 32 u in
      take 8 h @ ''-'' @ take 4 (drop 8 h) @ ''-'' @ take 4 (drop 12 h) @ ''-'' @
      take 4 (drop 16 h) @ ''-'' @ drop 20 h)"

lemma length_uuid_str [simp]: "length (uuid_str u) = 36"
  by (simp add: uuid_str_def Let_def)

fun hex_underscored :: "bool \<Rightarrow> nat \<Rightarrow> string \<Rightarrow> nat option" where
  "hex_underscored prev acc [] = (if prev then Some acc else None)"
| "hex_underscored prev acc (c # cs) =
     (if c = CHR ''_'' then (if prev then hex_underscored False acc cs else None)
      else case digit_value 16 c of
        None \<Rightarrow> None
      | Some d \<Rightarrow> hex_underscored True (acc * 16 + d) cs)"

definition int_hex :: "string \<Rightarrow> int option" where
  "int_hex s =
     (let t = strip py_space s;
          neg = (take 1 t = ''-'');
          u = (if neg \<or> take 1 t = ''+'' then drop 1 t else t);
          v = (if take 2 u = ''0x'' \<or> take 2 u = ''0X''
               then (let r = drop 2 u in if take 1 r = ''_'' then drop 1 r else r) else u)
      in map_option (\<lambda>n. if neg then - int n else int n) (hex_underscored False 0 v))"

definition uuid_of_string :: "string \<Rightarrow> uuid option" where
  "uuid_of_string s =
     (let h = remove_all ''-'' (strip {CHR ''{'', CHR ''}''} (remove_all ''uuid:'' (remove_all ''urn:'' s)))
      in if length h \<noteq> 32 then None
         else case int_hex h of
           None \<Rightarrow> None
         | Some i \<Rightarrow> if 0 \<le> i \<and> i < 2 ^ 128 then Some (nat i) else None)"

lemma hex_underscored_digits:
  assumes "\<forall>c \<in> set s. c \<noteq> CHR ''_''" "s \<noteq> [] \<or> prev"
  shows "hex_underscored prev acc s =
    fold (\<lambda>c a. Option.bind a (\<lambda>n. map_option (\<lambda>d. n * 16 + d) (digit_value 16 c))) s (Some acc)"
proof -
  have none: "fold (\<lambda>c a. Option.bind a (\<lambda>n. map_option (\<lambda>d. n * 16 + d) (digit_value 16 c))) t None
    = None" for t
    by (induction t) simp_all
  from assms show ?thesis
    by (induction s arbitrary: prev acc) (auto simp: none split: option.split)
qed

lemma hex_chars: "set (fixed_digits 16 w n) \<subseteq> set ''0123456789abcdef''"
  using digit_chars_in [of 16 w n] by simp

text \<open>The characters between the groups are hyphens and nothing else is lost by the slicing.\<close>

lemma uuid_groups:
  "take 8 h @ take 4 (drop 8 h) @ take 4 (drop 12 h) @ take 4 (drop 16 h) @ drop 20 h = h"
proof -
  have "take 8 h @ take 4 (drop 8 h) = take 12 h"
    using take_add [of 8 4 h] by simp
  moreover have "take 12 h @ take 4 (drop 12 h) = take 16 h"
    using take_add [of 12 4 h] by simp
  moreover have "take 16 h @ take 4 (drop 16 h) = take 20 h"
    using take_add [of 16 4 h] by simp
  moreover have "take 20 h @ drop 20 h = h" by simp
  ultimately show ?thesis by (metis append.assoc)
qed

lemma uuid_str_mem:
  "c \<in> set (uuid_str u) \<Longrightarrow> c = CHR ''-'' \<or> c \<in> set (fixed_digits 16 32 u)"
  unfolding uuid_str_def Let_def
  by (auto simp del: fixed_digits.simps dest: in_set_takeD in_set_dropD)

lemma filter_hyphen_uuid_str:
  "filter (\<lambda>c. c \<noteq> CHR ''-'') (uuid_str u) = fixed_digits 16 32 u"
proof -
  define h where "h = fixed_digits 16 32 u"
  have no: "c \<noteq> CHR ''-''" if "c \<in> set h" for c
    using that hex_chars [of 32 u] unfolding h_def by fastforce
  have keep: "filter (\<lambda>c. c \<noteq> CHR ''-'') (take n (drop m h)) = take n (drop m h)"
    "filter (\<lambda>c. c \<noteq> CHR ''-'') (drop m h) = drop m h" for n m
    by (auto simp: filter_id_conv dest!: in_set_takeD in_set_dropD no)
  from keep(1) [of 8 0] have "filter (\<lambda>c. c \<noteq> CHR ''-'') (take 8 h) = take 8 h" by simp
  then show ?thesis
    using uuid_groups [of h] by (simp add: uuid_str_def Let_def keep flip: h_def)
qed

lemma uuid_str_chars: "set (uuid_str u) \<subseteq> insert (CHR ''-'') (set ''0123456789abcdef'')"
  using uuid_str_mem hex_chars [of 32 u] by blast

lemma int_hex_fixed_digits:
  "0 < w \<Longrightarrow> int_hex (fixed_digits 16 w n) = Some (int (n mod 16 ^ w))"
proof -
  assume "0 < w"
  let ?s = "fixed_digits 16 w n"
  have hx: "set ?s \<subseteq> set ''0123456789abcdef''" by (rule hex_chars)
  have sp: "strip py_space ?s = ?s"
    using hx by (intro strip_id) (auto simp: py_space_def)
  have "?s \<noteq> []"
    using \<open>0 < w\<close> by (metis length_0_conv length_fixed_digits less_not_refl)
  then obtain c cs where s: "?s = c # cs" by (cases ?s) auto
  with hx have "c \<noteq> CHR ''-''" "c \<noteq> CHR ''+''" "take 1 cs \<noteq> ''x''" "take 1 cs \<noteq> ''X''"
    by (auto simp: take_Cons split: nat.splits list.splits) (cases cs; auto)+
  then have hd: "take 1 ?s \<noteq> ''-''" "take 1 ?s \<noteq> ''+''" "take 2 ?s \<noteq> ''0x''" "take 2 ?s \<noteq> ''0X''"
    by (auto simp: s numeral_2_eq_2)
  have "hex_underscored False 0 ?s = parse_digits 16 ?s"
    using hx \<open>?s \<noteq> []\<close> unfolding parse_digits_def by (subst hex_underscored_digits) auto
  then show ?thesis
    using hd by (simp add: int_hex_def sp Let_def parse_fixed_digits)
qed

lemma uuid_roundtrip: "u < 2 ^ 128 \<Longrightarrow> uuid_of_string (uuid_str u) = Some u"
proof -
  assume "u < 2 ^ 128"
  then have u: "u mod 16 ^ 32 = u" by simp
  have ch: "CHR '':'' \<notin> set (uuid_str u)" "set (uuid_str u) \<inter> {CHR ''{'', CHR ''}''} = {}"
    using uuid_str_chars [of u] by auto
  have "remove_all ''uuid:'' (remove_all ''urn:'' (uuid_str u)) = uuid_str u"
    using ch(1) by (simp add: remove_all_id [where x = "CHR '':''"] del: remove_all.simps)
  then show ?thesis
    using \<open>u < 2 ^ 128\<close> u
    by (simp add: uuid_of_string_def strip_id [OF ch(2)] remove_all_single filter_hyphen_uuid_str
        int_hex_fixed_digits Let_def del: fixed_digits.simps)
qed

interpretation uuid_text: codec uuid_str uuid_of_string "\<lambda>u. u < 2 ^ 128"
  by unfold_locales (rule uuid_roundtrip)

end
