(* ===== verification/Pytime.thy ===== *)
theory Pytime
  imports Pyvalue
begin

text \<open>
  The part of Python's \<open>datetime\<close> the services use. A moment is an \<open>int\<close>: microseconds since
  1970-01-01T00:00:00Z, the value of an aware datetime under comparison and subtraction. A
  \<open>datetime\<close> record holds the calendar fields and the offset; \<open>utc_datetime\<close> is what the
  database driver hands back for a \<open>timestamptz\<close> and what \<open>datetime.now(UTC)\<close> is.
\<close>

type_synonym moment = int

definition seconds :: "int \<Rightarrow> int" where
  "seconds n = n * 1000000"

definition minutes :: "int \<Rightarrow> int" where
  "minutes n = seconds (60 * n)"

definition days :: "int \<Rightarrow> int" where
  "days n = seconds (86400 * n)"

record datetime =
  dt_year :: nat
  dt_month :: nat
  dt_day :: nat
  dt_hour :: nat
  dt_minute :: nat
  dt_second :: nat
  dt_micro :: nat
  dt_offset :: "int option"

section \<open>The proleptic calendar\<close>

text \<open>\<open>_ymd2ord\<close> and \<open>_ord2ymd\<close> of the standard library's \<open>datetime\<close>.\<close>

definition is_leap :: "int \<Rightarrow> bool" where
  "is_leap y \<longleftrightarrow> y mod 4 = 0 \<and> (y mod 100 \<noteq> 0 \<or> y mod 400 = 0)"

definition days_before_year :: "int \<Rightarrow> int" where
  "days_before_year y = (y - 1) * 365 + (y - 1) div 4 - (y - 1) div 100 + (y - 1) div 400"

definition days_before_month :: "bool \<Rightarrow> int \<Rightarrow> int" where
  "days_before_month leap m =
     [0, 0, 31, 59, 90, 120, 151, 181, 212, 243, 273, 304, 334] ! nat m
     + (if m > 2 \<and> leap then 1 else 0)"

definition days_in_month :: "bool \<Rightarrow> int \<Rightarrow> int" where
  "days_in_month leap m =
     [0, 31, 28, 31, 30, 31, 30, 31, 31, 30, 31, 30, 31] ! nat m
     + (if m = 2 \<and> leap then 1 else 0)"

definition ymd2ord :: "int \<Rightarrow> int \<Rightarrow> int \<Rightarrow> int" where
  "ymd2ord y m d = days_before_year y + days_before_month (is_leap y) m + d"

text \<open>The month and day of a zero-based day of the year.\<close>

definition month_day :: "bool \<Rightarrow> int \<Rightarrow> int \<times> int" where
  "month_day leap n =
     (let m = (n + 50) div 32; before = days_before_month leap m
      in if before > n
         then (m - 1, n - (before - days_in_month leap (m - 1)) + 1)
         else (m, n - before + 1))"

definition ord2ymd :: "int \<Rightarrow> int \<times> int \<times> int" where
  "ord2ymd n =
     (let n0 = n - 1;
          n400 = n0 div 146097; r400 = n0 mod 146097;
          n100 = r400 div 36524; r100 = r400 mod 36524;
          n4 = r100 div 1461; r4 = r100 mod 1461;
          n1 = r4 div 365; r1 = r4 mod 365;
          y = n400 * 400 + 1 + n100 * 100 + n4 * 4 + n1
      in if n1 = 4 \<or> n100 = 4 then (y - 1, 12, 31)
         else (y, month_day (n1 = 3 \<and> (n4 \<noteq> 24 \<or> n100 = 3)) r1))"

lemma month_day_ok:
  assumes "0 \<le> n" "n < (if leap then 366 else 365)"
  shows "case month_day leap n of (m, d) \<Rightarrow>
    1 \<le> m \<and> m \<le> 12 \<and> 1 \<le> d \<and> d \<le> days_in_month leap m \<and> days_before_month leap m + d = n + 1"
proof -
  define k where "k = (n + 50) div 32"
  have b: "32 * k \<le> n + 50" "n + 50 < 32 * k + 32" by (simp_all add: k_def)
  have "k = 1 \<or> k = 2 \<or> k = 3 \<or> k = 4 \<or> k = 5 \<or> k = 6 \<or> k = 7 \<or> k = 8 \<or> k = 9 \<or> k = 10 \<or> k = 11 \<or> k = 12"
  proof -
    have "1 \<le> k" "k \<le> 12" using assms b by (cases leap; simp)+
    then show ?thesis by arith
  qed
  then show ?thesis
    using assms b unfolding month_day_def k_def [symmetric]
    by (elim disjE) (cases leap; simp add: days_before_month_def days_in_month_def Let_def)+
qed

text \<open>The year step: 400-, 100-, 4- and 1-year cycles.\<close>

lemma days_before_year_cycles:
  assumes "0 \<le> b" "b \<le> 3" "0 \<le> c" "c \<le> 24" "0 \<le> d" "d \<le> 3"
  shows "days_before_year (a * 400 + 1 + b * 100 + c * 4 + d)
    = 146097 * a + 36524 * b + 1461 * c + 365 * d"
proof -
  let ?q = "a * 400 + b * 100 + c * 4 + d"
  have "?q div 4 = 100 * a + 25 * b + c"
    by (rule int_div_pos_eq [where r = d]) (use assms in simp_all)
  moreover have "?q div 100 = 4 * a + b"
    by (rule int_div_pos_eq [where r = "4 * c + d"]) (use assms in simp_all)
  moreover have "?q div 400 = a"
    by (rule int_div_pos_eq [where r = "100 * b + 4 * c + d"]) (use assms in simp_all)
  ultimately have "?q div 4 = 100 * a + 25 * b + c" "?q div 100 = 4 * a + b" "?q div 400 = a"
    by simp_all
  then show ?thesis by (simp add: days_before_year_def algebra_simps)
qed

lemma is_leap_cycles:
  assumes "0 \<le> b" "b \<le> 3" "0 \<le> c" "c \<le> 24" "0 \<le> d" "d \<le> 3"
  shows "is_leap (a * 400 + 1 + b * 100 + c * 4 + d) \<longleftrightarrow> d = 3 \<and> (c \<noteq> 24 \<or> b = 3)"
proof -
  let ?y = "a * 400 + 1 + b * 100 + c * 4 + d"
  have m4: "?y mod 4 = (if d = 3 then 0 else d + 1)"
  proof (cases "d = 3")
    case True
    then show ?thesis
      by (intro int_mod_pos_eq [where q = "100 * a + 25 * b + c + 1"]) (use assms in simp_all)
  next
    case False
    then show ?thesis
      by (intro int_mod_pos_eq [where q = "100 * a + 25 * b + c"]) (use assms in simp_all)
  qed
  have m100: "?y mod 100 = (if c = 24 then 0 else 4 * c + 4)" if "d = 3"
  proof (cases "c = 24")
    case True
    with that show ?thesis
      by (intro int_mod_pos_eq [where q = "4 * a + b + 1"]) (use assms in simp_all)
  next
    case False
    with that show ?thesis
      by (intro int_mod_pos_eq [where q = "4 * a + b"]) (use assms in simp_all)
  qed
  have m400: "?y mod 400 = (if b = 3 then 0 else 100 * b + 100)" if "d = 3" "c = 24"
  proof (cases "b = 3")
    case True
    with that show ?thesis
      by (intro int_mod_pos_eq [where q = "a + 1"]) (use assms in simp_all)
  next
    case False
    with that show ?thesis
      by (intro int_mod_pos_eq [where q = a]) (use assms in simp_all)
  qed
  show ?thesis
  proof (cases "d = 3")
    case True
    with m4 have "?y mod 4 = 0" by simp
    moreover have "?y mod 100 \<noteq> 0 \<longleftrightarrow> c \<noteq> 24" using m100 True assms by simp
    moreover have "?y mod 400 = 0 \<longleftrightarrow> b = 3" if "c = 24" using m400 True that assms by simp
    ultimately show ?thesis using True by (auto simp: is_leap_def)
  next
    case False
    then have "?y mod 4 \<noteq> 0" using m4 assms by simp
    with False show ?thesis by (simp add: is_leap_def)
  qed
qed

lemma ord2ymd_inverse:
  "case ord2ymd n of (y, m, d) \<Rightarrow>
     1 \<le> m \<and> m \<le> 12 \<and> 1 \<le> d \<and> d \<le> days_in_month (is_leap y) m \<and> ymd2ord y m d = n"
proof -
  define a r400 where "a = (n - 1) div 146097" and "r400 = (n - 1) mod 146097"
  define b r100 where "b = r400 div 36524" and "r100 = r400 mod 36524"
  define c r4 where "c = r100 div 1461" and "r4 = r100 mod 1461"
  define d r1 where "d = r4 div 365" and "r1 = r4 mod 365"
  note defs = a_def r400_def b_def r100_def c_def r4_def d_def r1_def
  have n: "n - 1 = 146097 * a + r400" "0 \<le> r400" "r400 < 146097"
    by (simp_all add: a_def r400_def)
  have r400: "r400 = 36524 * b + r100" "0 \<le> r100" "r100 < 36524" "0 \<le> b" "b \<le> 4"
    using n by (simp_all add: b_def r100_def)
  have r100: "r100 = 1461 * c + r4" "0 \<le> r4" "r4 < 1461" "0 \<le> c" "c \<le> 24"
    using r400 by (simp_all add: c_def r4_def)
  have r4: "r4 = 365 * d + r1" "0 \<le> r1" "r1 < 365" "0 \<le> d" "d \<le> 4"
    using r100 by (simp_all add: d_def r1_def)
  have b4: "b = 4 \<Longrightarrow> r100 = 0" using n r400 by simp
  have d4: "d = 4 \<Longrightarrow> r1 = 0" using r100 r4 by simp
  let ?y = "a * 400 + 1 + b * 100 + c * 4 + d"
  have o: "ord2ymd n = (if d = 4 \<or> b = 4 then (?y - 1, 12, 31)
      else (?y, month_day (d = 3 \<and> (c \<noteq> 24 \<or> b = 3)) r1))"
    unfolding ord2ymd_def Let_def defs by (rule refl)
  show ?thesis
  proof (cases "b = 4")
    case True
    with b4 r100 r4 have z: "c = 0" "d = 0" "r1 = 0" by simp_all
    have "?y - 1 = a * 400 + 1 + 3 * 100 + 24 * 4 + 3" using True z by simp
    then have y: "days_before_year (?y - 1) = 146097 * a + 36524 * 3 + 1461 * 24 + 365 * 3"
      "is_leap (?y - 1)"
      by (simp_all only: days_before_year_cycles is_leap_cycles) simp_all
    with True o z b4 n r400 show ?thesis
      by (simp add: ymd2ord_def days_before_month_def days_in_month_def)
  next
    case b: False
    then have b3: "b \<le> 3" using r400 by simp
    show ?thesis
    proof (cases "d = 4")
      case True
      with d4 have z: "r1 = 0" by simp
      have "c \<noteq> 24 \<or> b = 3" using True z r4 r100 r400 n b3 by auto
      moreover have "?y - 1 = a * 400 + 1 + b * 100 + c * 4 + 3" using True by simp
      ultimately have y: "days_before_year (?y - 1) = 146097 * a + 36524 * b + 1461 * c + 365 * 3"
        "is_leap (?y - 1)"
        using days_before_year_cycles [of b c 3 a] is_leap_cycles [of b c 3 a] r400 r100 b3 by simp_all
      with True o z n r400 r100 r4 show ?thesis
        by (simp add: ymd2ord_def days_before_month_def days_in_month_def)
    next
      case False
      then have "d \<le> 3" using r4 by simp
      then have y: "days_before_year ?y = 146097 * a + 36524 * b + 1461 * c + 365 * d"
        "is_leap ?y \<longleftrightarrow> d = 3 \<and> (c \<noteq> 24 \<or> b = 3)"
        using days_before_year_cycles [of b c d a] is_leap_cycles [of b c d a] r400 r100 r4 b3
        by simp_all
      have "case month_day (is_leap ?y) r1 of (m, e) \<Rightarrow> 1 \<le> m \<and> m \<le> 12 \<and> 1 \<le> e
          \<and> e \<le> days_in_month (is_leap ?y) m \<and> days_before_month (is_leap ?y) m + e = r1 + 1"
        using r4 by (intro month_day_ok) auto
      then show ?thesis
        using o b False y n r400 r100 r4 by (auto simp: ymd2ord_def split: prod.splits)
    qed
  qed
qed

section \<open>Moments and calendar fields\<close>

definition epoch_ord :: int where
  "epoch_ord = 719163"

definition utc_datetime :: "moment \<Rightarrow> datetime" where
  "utc_datetime t =
     (let day = t div days 1; r = t mod days 1; (y, m, d) = ord2ymd (day + epoch_ord)
      in \<lparr>dt_year = nat y, dt_month = nat m, dt_day = nat d,
          dt_hour = nat (r div minutes 60), dt_minute = nat (r div minutes 1 mod 60),
          dt_second = nat (r div seconds 1 mod 60), dt_micro = nat (r mod seconds 1),
          dt_offset = Some 0\<rparr>)"

text \<open>The moment an aware datetime denotes; a naive one denotes none.\<close>

definition moment_of :: "datetime \<Rightarrow> moment option" where
  "moment_of dt = map_option (\<lambda>off.
     days (ymd2ord (int (dt_year dt)) (int (dt_month dt)) (int (dt_day dt)) - epoch_ord)
     + minutes (60 * int (dt_hour dt) + int (dt_minute dt)) + seconds (int (dt_second dt))
     + int (dt_micro dt) - seconds off) (dt_offset dt)"

lemma moment_of_utc_datetime:
  assumes "1 \<le> fst (ord2ymd (t div days 1 + epoch_ord))"
  shows "moment_of (utc_datetime t) = Some t"
proof -
  obtain y m d where o: "ord2ymd (t div days 1 + epoch_ord) = (y, m, d)" by (metis prod_cases3)
  have v: "1 \<le> m" "1 \<le> d" "ymd2ord y m d = t div days 1 + epoch_ord" "1 \<le> y"
    using ord2ymd_inverse [of "t div days 1 + epoch_ord"] o assms by auto
  define r where "r = t mod days 1"
  define q where "q = t div days 1"
  have t: "t = 86400000000 * q + r"
    by (simp add: r_def q_def days_def seconds_def minutes_def)
  have r0: "0 \<le> r" by (simp add: r_def days_def seconds_def)
  have h: "r div 60000000 = r div 1000000 div 60" "r div 3600000000 = r div 60000000 div 60"
    by (simp_all flip: zdiv_zmult2_eq)
  then have split: "r = r div 3600000000 * 3600000000 + (r div 60000000 mod 60) * 60000000
      + (r div 1000000 mod 60) * 1000000 + r mod 1000000"
    using mult_div_mod_eq [of 1000000 r] mult_div_mod_eq [of 60 "r div 1000000"]
      mult_div_mod_eq [of 60 "r div 60000000"]
    by linarith
  have nn: "0 \<le> r div 3600000000" "0 \<le> r div 60000000 mod 60" "0 \<le> r div 1000000 mod 60"
    "0 \<le> r mod 1000000"
    using r0 by (simp_all add: pos_imp_zdiv_nonneg_iff)
  have total: "86400 * q * 1000000 + 60 * (60 * h + m) * 1000000 + s * 1000000 + u = t"
    if "r = h * 3600000000 + m * 60000000 + s * 1000000 + u" "t = 86400000000 * q + r" for h m s u
    using that by simp
  have "moment_of (utc_datetime t) = Some (days q
      + minutes (60 * (r div 3600000000) + r div 60000000 mod 60) + seconds (r div 1000000 mod 60)
      + r mod 1000000)"
    using v nn unfolding moment_of_def utc_datetime_def Let_def o r_def [symmetric]
    by (simp add: minutes_def seconds_def q_def)
  also have "days q + minutes (60 * (r div 3600000000) + r div 60000000 mod 60)
      + seconds (r div 1000000 mod 60) + r mod 1000000 = t"
    unfolding days_def minutes_def seconds_def by (rule total [OF split t])
  finally show ?thesis .
qed

end
