(* ===== verification/Booking_Domain.thy ===== *)
theory Booking_Domain
  imports Pytime "HOL-Library.List_Lexorder" "HOL-Library.Char_ord"
begin

text \<open>
  \<open>services/booking/src/booking/domain.py\<close>: the statuses of a booking and their transitions, the
  errors of the service, and the checks that need neither database nor HTTP. The authentication
  errors of \<open>auth.py\<close> are subclasses of the same \<open>DomainError\<close> and stand here too.
\<close>

section \<open>Statuses\<close>

datatype booking_status = Pending | Confirmed | Cancelled | Expired

fun status_value :: "booking_status \<Rightarrow> string" where
  "status_value Pending = ''pending''"
| "status_value Confirmed = ''confirmed''"
| "status_value Cancelled = ''cancelled''"
| "status_value Expired = ''expired''"

lemma status_value_inj: "status_value a = status_value b \<Longrightarrow> a = b"
  by (cases a; cases b) simp_all

text \<open>A \<open>StrEnum\<close> is ordered by its values: \<open>sorted(BookingStatus)\<close> is alphabetical.\<close>

instantiation booking_status :: linorder
begin

definition less_eq_booking_status :: "booking_status \<Rightarrow> booking_status \<Rightarrow> bool" where
  "less_eq_booking_status a b \<longleftrightarrow> status_value a \<le> status_value b"

definition less_booking_status :: "booking_status \<Rightarrow> booking_status \<Rightarrow> bool" where
  "less_booking_status a b \<longleftrightarrow> status_value a < status_value b"

instance
  by standard (auto simp: less_eq_booking_status_def less_booking_status_def intro: status_value_inj)

end

definition all_statuses :: "booking_status list" where
  "all_statuses = [Pending, Confirmed, Cancelled, Expired]"

definition ACTIVE_STATUSES :: "booking_status list" where
  "ACTIVE_STATUSES = [Pending, Confirmed]"

fun ALLOWED_TRANSITIONS :: "booking_status \<Rightarrow> booking_status list" where
  "ALLOWED_TRANSITIONS Pending = [Confirmed, Cancelled, Expired]"
| "ALLOWED_TRANSITIONS Confirmed = [Cancelled]"
| "ALLOWED_TRANSITIONS Cancelled = []"
| "ALLOWED_TRANSITIONS Expired = []"

definition DEFAULT_PENDING_TTL :: int where
  "DEFAULT_PENDING_TTL = minutes 15"

section \<open>Errors\<close>

datatype booking_error =
  DomainError | InvalidSlotError | SlotInPastError | SlotAlreadyBookedError
| InvalidTransitionError | SlotNotFoundError | BookingNotFoundError | BookingNotPayableError
| PaymentsUnavailableError | PaymentConflictError
| AuthError | MissingTokenError | InvalidTokenError | ExpiredTokenError | ForbiddenError

fun error_code :: "booking_error \<Rightarrow> string" where
  "error_code DomainError = ''domain_error''"
| "error_code InvalidSlotError = ''invalid_slot''"
| "error_code SlotInPastError = ''slot_in_past''"
| "error_code SlotAlreadyBookedError = ''slot_already_booked''"
| "error_code InvalidTransitionError = ''invalid_transition''"
| "error_code SlotNotFoundError = ''slot_not_found''"
| "error_code BookingNotFoundError = ''booking_not_found''"
| "error_code BookingNotPayableError = ''booking_not_payable''"
| "error_code PaymentsUnavailableError = ''payments_unavailable''"
| "error_code PaymentConflictError = ''payment_conflict''"
| "error_code AuthError = ''unauthorized''"
| "error_code MissingTokenError = ''unauthorized''"
| "error_code InvalidTokenError = ''invalid_token''"
| "error_code ExpiredTokenError = ''token_expired''"
| "error_code ForbiddenError = ''forbidden''"

text \<open>The class each error derives from; \<open>DomainError\<close> derives from \<open>Exception\<close>.\<close>

fun error_base :: "booking_error \<Rightarrow> booking_error option" where
  "error_base DomainError = None"
| "error_base MissingTokenError = Some AuthError"
| "error_base InvalidTokenError = Some AuthError"
| "error_base ExpiredTokenError = Some AuthError"
| "error_base _ = Some DomainError"

text \<open>\<open>isinstance(e, kind)\<close>: the class itself or one it derives from (at most two levels up).\<close>

definition is_instance :: "booking_error \<Rightarrow> booking_error \<Rightarrow> bool" where
  "is_instance e kind \<longleftrightarrow>
     e = kind \<or> error_base e = Some kind \<or> Option.bind (error_base e) error_base = Some kind"

section \<open>Checks\<close>

definition ensure_valid_slot :: "datetime \<Rightarrow> datetime \<Rightarrow> moment \<Rightarrow> booking_error + unit" where
  "ensure_valid_slot starts ends now =
     (case (moment_of starts, moment_of ends) of
        (Some s, Some e) \<Rightarrow>
          if e \<le> s then Inl InvalidSlotError
          else if s \<le> now then Inl InvalidSlotError
          else Inr ()
      | _ \<Rightarrow> Inl InvalidSlotError)"

definition ensure_bookable :: "moment \<Rightarrow> moment \<Rightarrow> booking_error + unit" where
  "ensure_bookable starts now = (if starts \<le> now then Inl SlotInPastError else Inr ())"

definition ensure_transition :: "booking_status \<Rightarrow> booking_status \<Rightarrow> booking_error + unit" where
  "ensure_transition current target =
     (if target \<in> set (ALLOWED_TRANSITIONS current) then Inr () else Inl InvalidTransitionError)"

section \<open>Facts\<close>

lemma ensure_transition_Inr:
  "ensure_transition a b = Inr () \<longleftrightarrow> b \<in> set (ALLOWED_TRANSITIONS a)"
  by (simp add: ensure_transition_def)

lemma ensure_valid_slot_Inr:
  "ensure_valid_slot st en now = Inr () \<longleftrightarrow>
     (\<exists>s e. moment_of st = Some s \<and> moment_of en = Some e \<and> now < s \<and> s < e)"
  by (auto simp: ensure_valid_slot_def split: option.splits)

text \<open>The transitions are a status machine: two steps at most, and never back.\<close>

fun status_rank :: "booking_status \<Rightarrow> nat" where
  "status_rank Pending = 0"
| "status_rank Confirmed = 1"
| "status_rank Cancelled = 2"
| "status_rank Expired = 2"

interpretation bk: status_machine "\<lambda>a b. ensure_transition a b = Inr ()" status_rank 2
proof unfold_locales
  fix a b
  show "ensure_transition a b = Inr () \<Longrightarrow> status_rank a < status_rank b"
    by (cases a; cases b) (simp_all add: ensure_transition_def)
  show "status_rank a \<le> 2" by (cases a) simp_all
qed

text \<open>
  The life of a booking: a chain of statuses in which every step passed
  \<open>ensure_transition\<close> never meets a status twice and has at most three of them, and a cancelled
  or expired booking is never changed again.
\<close>

theorem booking_life_cycle:
  "status_path (\<lambda>a b. ensure_transition a b = Inr ()) life \<Longrightarrow>
     distinct life \<and> length life \<le> 3
     \<and> (\<forall>target. ensure_transition Cancelled target = Inl InvalidTransitionError
               \<and> ensure_transition Expired target = Inl InvalidTransitionError)"
  using bk.path_distinct bk.path_length by (fastforce simp: ensure_transition_def)

theorem booking_life_cycle_witness:
  "distinct [Pending, Confirmed, Cancelled] \<and> length [Pending, Confirmed, Cancelled] \<le> 3"
proof -
  have "status_path (\<lambda>a b. ensure_transition a b = Inr ()) [Pending, Confirmed, Cancelled]"
    by (simp add: ensure_transition_def)
  from booking_life_cycle [OF this] show ?thesis by blast
qed

end
