(* ===== verification/Pyiso.thy ===== *)
theory Pyiso
  imports Pytime
begin

text \<open>
  \<open>datetime.isoformat\<close>, \<open>datetime.fromisoformat\<close> and \<open>strftime\<close>. The reader accepts the
  format the writer prints; \<open>fromisoformat\<close> knows further ISO 8601 formats (basic dates, week
  dates, truncated times), and what it answers on a text of another form is the parameter
  \<open>other\<close>.
\<close>

definition two :: "nat \<Rightarrow> string" where
  "two n = fixed_digits 10 2 n"

definition iso_offset :: "int option \<Rightarrow> string" where
  "iso_offset off = (case off of
     None \<Rightarrow> []
   | Some o' \<Rightarrow>
       (let a = nat \<bar>o'\<bar> in
        (if o' < 0 then ''-'' else ''+'') @ two (a div 3600) @ '':'' @ two (a div 60 mod 60)
        @ (if a mod 60 \<noteq> 0 then '':'' @ two (a mod 60) else [])))"

definition isoformat :: "datetime \<Rightarrow> string" where
  "isoformat dt =
     fixed_digits 10 4 (dt_year dt) @ ''-'' @ two (dt_month dt) @ ''-'' @ two (dt_day dt) @ ''T''
     @ two (dt_hour dt) @ '':'' @ two (dt_minute dt) @ '':'' @ two (dt_second dt)
     @ (if dt_micro dt \<noteq> 0 then ''.'' @ fixed_digits 10 6 (dt_micro dt) else [])
     @ iso_offset (dt_offset dt)"

text \<open>\<open>strftime('%Y-%m-%d %H:%M')\<close>, for the years of four digits the services see.\<close>

definition strftime_minutes :: "datetime \<Rightarrow> string" where
  "strftime_minutes dt =
     fixed_digits 10 4 (dt_year dt) @ ''-'' @ two (dt_month dt) @ ''-'' @ two (dt_day dt) @ '' ''
     @ two (dt_hour dt) @ '':'' @ two (dt_minute dt)"

section \<open>Reading the format back\<close>

definition num_field :: "nat \<Rightarrow> nat \<Rightarrow> string \<Rightarrow> nat option" where
  "num_field i n s =
     (let t = take n (drop i s) in if length t = n then parse_digits 10 t else None)"

definition has_char :: "nat \<Rightarrow> char \<Rightarrow> string \<Rightarrow> bool" where
  "has_char i c s \<longleftrightarrow> take 1 (drop i s) = [c]"

definition parse_offset :: "string \<Rightarrow> int option option" where
  "parse_offset s =
     (if s = [] then Some None
      else if (has_char 0 CHR ''+'' s \<or> has_char 0 CHR ''-'' s) \<and> has_char 3 CHR '':'' s
              \<and> (length s = 6 \<or> length s = 9 \<and> has_char 6 CHR '':'' s) then
        (case (num_field 1 2 s, num_field 4 2 s,
               if length s = 6 then Some 0 else num_field 7 2 s) of
           (Some h, Some m, Some x) \<Rightarrow>
             if h < 24 \<and> m < 60 \<and> x < 60
             then Some (Some ((if has_char 0 CHR ''-'' s then -1 else 1) * int (h * 3600 + m * 60 + x)))
             else None
         | _ \<Rightarrow> None)
      else None)"

definition valid_fields :: "datetime \<Rightarrow> bool" where
  "valid_fields dt \<longleftrightarrow>
     1 \<le> dt_year dt \<and> dt_year dt \<le> 9999 \<and> 1 \<le> dt_month dt \<and> dt_month dt \<le> 12
     \<and> 1 \<le> dt_day dt
     \<and> int (dt_day dt) \<le> days_in_month (is_leap (int (dt_year dt))) (int (dt_month dt))
     \<and> dt_hour dt < 24 \<and> dt_minute dt < 60 \<and> dt_second dt < 60 \<and> dt_micro dt < 1000000
     \<and> (case dt_offset dt of None \<Rightarrow> True | Some x \<Rightarrow> \<bar>x\<bar> < 86400)"

definition parse_iso :: "string \<Rightarrow> datetime option" where
  "parse_iso s =
     (if \<not> (has_char 4 CHR ''-'' s \<and> has_char 7 CHR ''-'' s \<and> has_char 10 CHR ''T'' s
            \<and> has_char 13 CHR '':'' s \<and> has_char 16 CHR '':'' s) then None
      else
        (let rest = drop 19 s; dot = has_char 0 CHR ''.'' rest in
         case (num_field 0 4 s, num_field 5 2 s, num_field 8 2 s, num_field 11 2 s,
               num_field 14 2 s, num_field 17 2 s,
               if dot then num_field 1 6 rest else Some 0,
               parse_offset (if dot then drop 7 rest else rest)) of
           (Some y, Some mo, Some d, Some h, Some mi, Some sec, Some us, Some off) \<Rightarrow>
             (let dt = \<lparr>dt_year = y, dt_month = mo, dt_day = d, dt_hour = h, dt_minute = mi,
                        dt_second = sec, dt_micro = us, dt_offset = off\<rparr>
              in if valid_fields dt then Some dt else None)
         | _ \<Rightarrow> None))"

definition fromisoformat :: "(string \<Rightarrow> datetime option) \<Rightarrow> string \<Rightarrow> datetime option" where
  "fromisoformat other s = (case parse_iso s of Some dt \<Rightarrow> Some dt | None \<Rightarrow> other s)"

section \<open>Round trip\<close>

lemma length_two [simp]: "length (two n) = 2"
  by (simp add: two_def)

lemma parse_fixed_lt:
  "n < 10 ^ w \<Longrightarrow> parse_digits 10 (fixed_digits 10 w n) = Some n"
  by (simp add: parse_fixed_digits)

lemma parse_two: "n < 100 \<Longrightarrow> parse_digits 10 (two n) = Some n"
  unfolding two_def by (rule parse_fixed_lt) simp

lemma take_two [simp]: "take 2 (two n @ ys) = two n" "take 2 (two n) = two n"
  by simp_all

lemma parse_iso_offset:
  assumes "case off of None \<Rightarrow> True | Some x \<Rightarrow> \<bar>x\<bar> < 86400"
  shows "parse_offset (iso_offset off) = Some off"
proof (cases off)
  case None
  then show ?thesis by (simp add: iso_offset_def parse_offset_def)
next
  case (Some x)
  define a where "a = nat \<bar>x\<bar>"
  have a: "a < 86400" "int a = \<bar>x\<bar>" using assms Some by (simp_all add: a_def)
  have h: "a div 3600 < 24" using a(1) by (simp add: less_mult_imp_div_less)
  have total: "k * 3600 + m * 60 + q = a" if "b = 60 * k + m" "a = 60 * b + q" for b k m q :: nat
    using that by simp
  have "a div 3600 = a div 60 div 60" by (simp flip: div_mult2_eq)
  then have sum: "a div 3600 * 3600 + a div 60 mod 60 * 60 + a mod 60 = a"
    using total [of "a div 60" "a div 60 div 60" "a div 60 mod 60" "a mod 60"] by simp
  define s where "s = iso_offset (Some x)"
  have s: "s = (if x < 0 then CHR ''-'' else CHR ''+'') # two (a div 3600) @ CHR '':'' # two (a div 60 mod 60)
      @ (if a mod 60 \<noteq> 0 then CHR '':'' # two (a mod 60) else [])"
    by (simp add: s_def iso_offset_def Let_def flip: a_def)
  have len: "s \<noteq> []" "length s = (if a mod 60 \<noteq> 0 then 9 else 6)" by (simp_all add: s)
  have chars: "has_char 0 CHR ''-'' s \<longleftrightarrow> x < 0" "has_char 0 CHR ''+'' s \<longleftrightarrow> \<not> x < 0"
    "has_char 3 CHR '':'' s" "a mod 60 \<noteq> 0 \<Longrightarrow> has_char 6 CHR '':'' s"
    by (simp_all add: s has_char_def)
  have nums: "num_field 1 2 s = Some (a div 3600)" "num_field 4 2 s = Some (a div 60 mod 60)"
    "a mod 60 \<noteq> 0 \<Longrightarrow> num_field 7 2 s = Some (a mod 60)"
    using h by (simp_all add: s num_field_def parse_two)
  have "parse_offset s =
    Some (Some ((if x < 0 then -1 else 1) * int (a div 3600 * 3600 + a div 60 mod 60 * 60 + a mod 60)))"
    unfolding parse_offset_def using h len chars nums
    by (cases "a mod 60 = 0") (simp_all del: of_nat_add of_nat_mult)
  with sum a(2) Some show ?thesis
    by (simp del: of_nat_add of_nat_mult flip: s_def split: if_splits)
qed

lemma days_in_month_le: "1 \<le> m \<Longrightarrow> m \<le> 12 \<Longrightarrow> days_in_month leap m \<le> 31"
proof -
  assume "1 \<le> m" "m \<le> 12"
  then have "m = 1 \<or> m = 2 \<or> m = 3 \<or> m = 4 \<or> m = 5 \<or> m = 6 \<or> m = 7 \<or> m = 8 \<or> m = 9 \<or> m = 10 \<or> m = 11 \<or> m = 12"
    by arith
  then show ?thesis by (elim disjE) (simp_all add: days_in_month_def)
qed

lemma iso_offset_hd: "\<not> has_char 0 CHR ''.'' (iso_offset off)"
  by (simp add: iso_offset_def has_char_def Let_def split: option.split)

lemma isoformat_parts:
  "drop 19 (isoformat dt) =
     (if dt_micro dt \<noteq> 0 then CHR ''.'' # fixed_digits 10 6 (dt_micro dt) else [])
     @ iso_offset (dt_offset dt)"
  "has_char 4 CHR ''-'' (isoformat dt)" "has_char 7 CHR ''-'' (isoformat dt)"
  "has_char 10 CHR ''T'' (isoformat dt)" "has_char 13 CHR '':'' (isoformat dt)"
  "has_char 16 CHR '':'' (isoformat dt)"
  by (simp_all add: has_char_def isoformat_def)

lemma isoformat_numbers:
  assumes v: "valid_fields dt"
  shows "num_field 0 4 (isoformat dt) = Some (dt_year dt)"
    and "num_field 5 2 (isoformat dt) = Some (dt_month dt)"
    and "num_field 8 2 (isoformat dt) = Some (dt_day dt)"
    and "num_field 11 2 (isoformat dt) = Some (dt_hour dt)"
    and "num_field 14 2 (isoformat dt) = Some (dt_minute dt)"
    and "num_field 17 2 (isoformat dt) = Some (dt_second dt)"
proof -
  have "dt_day dt \<le> 31"
    using v days_in_month_le [of "int (dt_month dt)" "is_leap (int (dt_year dt))"]
    by (simp add: valid_fields_def)
  with v have lt: "dt_year dt < 10 ^ 4" "dt_month dt < 100" "dt_day dt < 100" "dt_hour dt < 100"
    "dt_minute dt < 100" "dt_second dt < 100"
    by (simp_all add: valid_fields_def)
  note p = parse_fixed_lt [OF lt(1)] lt(2-6) [THEN parse_two]
  show "num_field 0 4 (isoformat dt) = Some (dt_year dt)"
    "num_field 5 2 (isoformat dt) = Some (dt_month dt)"
    "num_field 8 2 (isoformat dt) = Some (dt_day dt)"
    "num_field 11 2 (isoformat dt) = Some (dt_hour dt)"
    "num_field 14 2 (isoformat dt) = Some (dt_minute dt)"
    "num_field 17 2 (isoformat dt) = Some (dt_second dt)"
    using p by (simp_all add: num_field_def isoformat_def)
qed

lemma parse_isoformat: "valid_fields dt \<Longrightarrow> parse_iso (isoformat dt) = Some dt"
proof -
  assume v: "valid_fields dt"
  define rest where "rest = drop 19 (isoformat dt)"
  have rest: "rest = (if dt_micro dt \<noteq> 0 then CHR ''.'' # fixed_digits 10 6 (dt_micro dt) else [])
      @ iso_offset (dt_offset dt)"
    unfolding rest_def by (rule isoformat_parts)
  have dot: "has_char 0 CHR ''.'' rest \<longleftrightarrow> dt_micro dt \<noteq> 0"
    unfolding rest using iso_offset_hd by (simp add: has_char_def)
  have us: "(if dt_micro dt \<noteq> 0 then num_field 1 6 rest else Some 0) = Some (dt_micro dt)"
    unfolding rest using v by (simp add: num_field_def valid_fields_def parse_fixed_lt)
  have "(if dt_micro dt \<noteq> 0 then drop 7 rest else rest) = iso_offset (dt_offset dt)"
    unfolding rest by simp
  then have off: "parse_offset (if dt_micro dt \<noteq> 0 then drop 7 rest else rest) = Some (dt_offset dt)"
    using v parse_iso_offset by (simp add: valid_fields_def)
  have eta: "\<lparr>dt_year = dt_year dt, dt_month = dt_month dt, dt_day = dt_day dt, dt_hour = dt_hour dt,
      dt_minute = dt_minute dt, dt_second = dt_second dt, dt_micro = dt_micro dt,
      dt_offset = dt_offset dt\<rparr> = dt"
    by simp
  show ?thesis
    unfolding parse_iso_def Let_def rest_def [symmetric] dot us off isoformat_numbers [OF v]
    by (simp only: isoformat_parts(2-6) simp_thms if_True if_False option.case prod.case eta v)
qed

lemma fromisoformat_isoformat: "valid_fields dt \<Longrightarrow> fromisoformat other (isoformat dt) = Some dt"
  by (simp add: fromisoformat_def parse_isoformat)

interpretation iso_text: codec isoformat "fromisoformat other" valid_fields for other
  by unfold_locales (rule fromisoformat_isoformat)

text \<open>What the driver returns for a moment of the years 1 to 9999 has fields in range.\<close>

lemma valid_utc_datetime:
  assumes "1 \<le> fst (ord2ymd (t div days 1 + epoch_ord))"
    and "fst (ord2ymd (t div days 1 + epoch_ord)) \<le> 9999"
  shows "valid_fields (utc_datetime t)"
proof -
  obtain y m d where o: "ord2ymd (t div days 1 + epoch_ord) = (y, m, d)" by (metis prod_cases3)
  have v: "1 \<le> m" "m \<le> 12" "1 \<le> d" "d \<le> days_in_month (is_leap y) m" "1 \<le> y" "y \<le> 9999"
    using ord2ymd_inverse [of "t div days 1 + epoch_ord"] o assms by auto
  define r where "r = t mod days 1"
  have "0 \<le> r" "r < 86400000000" by (simp_all add: r_def days_def seconds_def)
  then have "r div 3600000000 < 24" by simp
  with v show ?thesis
    unfolding valid_fields_def utc_datetime_def Let_def o r_def [symmetric]
    by (simp add: minutes_def seconds_def nat_less_iff Suc_le_eq, linarith?)
qed

end
