(* ===== verification/Booking_Events.thy ===== *)
theory Booking_Events
  imports Booking_Domain Pyiso
begin

text \<open>
  \<open>services/booking/src/booking/events.py\<close>: which status change is announced and what the message
  says. Pure functions; the service writes what they return into the outbox.
\<close>

definition EVENT_VERSION :: int where
  "EVENT_VERSION = 1"

datatype booking_event_type = EventConfirmed | EventCancelled | EventExpired

fun event_value :: "booking_event_type \<Rightarrow> string" where
  "event_value EventConfirmed = ''booking.confirmed''"
| "event_value EventCancelled = ''booking.cancelled''"
| "event_value EventExpired = ''booking.expired''"

fun STATUS_EVENTS :: "booking_status \<rightharpoonup> booking_event_type" where
  "STATUS_EVENTS Confirmed = Some EventConfirmed"
| "STATUS_EVENTS Cancelled = Some EventCancelled"
| "STATUS_EVENTS Expired = Some EventExpired"
| "STATUS_EVENTS Pending = None"

definition event_type :: "booking_status \<Rightarrow> booking_event_type option" where
  "event_type st = STATUS_EVENTS st"

definition build_event ::
  "uuid \<Rightarrow> booking_status \<Rightarrow> uuid \<Rightarrow> uuid \<Rightarrow> string \<Rightarrow> moment \<Rightarrow> moment
   \<Rightarrow> py_error + (string \<times> json) list" where
  "build_event event_id st booking_id slot_id client_id starts_at occurred_at =
     (case STATUS_EVENTS st of
        None \<Rightarrow> Inl KeyError
      | Some ty \<Rightarrow> Inr
          [(''event_id'', JStr (uuid_str event_id)),
           (''type'', JStr (event_value ty)),
           (''version'', JInt EVENT_VERSION),
           (''occurred_at'', JStr (isoformat (utc_datetime occurred_at))),
           (''booking_id'', JStr (uuid_str booking_id)),
           (''slot_id'', JStr (uuid_str slot_id)),
           (''client_id'', JStr client_id),
           (''starts_at'', JStr (isoformat (utc_datetime starts_at)))])"

lemma event_type_None: "event_type st = None \<longleftrightarrow> st = Pending"
  by (cases st) (simp_all add: event_type_def)

lemma build_event_announced:
  "event_type st = Some ty \<Longrightarrow> \<exists>p. build_event e st b s c t o' = Inr p"
  by (simp add: event_type_def build_event_def)

lemma event_value_inj: "event_value a = event_value b \<Longrightarrow> a = b"
  by (cases a; cases b) simp_all

lemma event_type_inj: "event_type a = event_type b \<Longrightarrow> a = b"
  by (cases a; cases b) (simp_all add: event_type_def)

end
