(* ===== verification/Booking_Auth.thy ===== *)
theory Booking_Auth
  imports Booking_Domain
begin

text \<open>
  The authorisation rules of \<open>services/booking/src/booking/auth.py\<close>: who a caller is, which role
  an operation is for, and whose booking it is.
\<close>

datatype role = Client | Master

fun role_value :: "role \<Rightarrow> string" where
  "role_value Client = ''client''"
| "role_value Master = ''master''"

record identity =
  subject :: string
  id_role :: role

definition ensure_owner :: "identity \<Rightarrow> string \<Rightarrow> string \<Rightarrow> booking_error + unit" where
  "ensure_owner who client_id master_id =
     (let owner = (if id_role who = Client then client_id else master_id)
      in if subject who \<noteq> owner then Inl BookingNotFoundError else Inr ())"

definition ensure_role :: "identity \<Rightarrow> role \<Rightarrow> booking_error + unit" where
  "ensure_role who required = (if id_role who \<noteq> required then Inl ForbiddenError else Inr ())"

text \<open>The side of a booking a caller is on.\<close>

definition is_side_of :: "identity \<Rightarrow> string \<Rightarrow> string \<Rightarrow> bool" where
  "is_side_of who client_id master_id \<longleftrightarrow>
     (case id_role who of Client \<Rightarrow> subject who = client_id | Master \<Rightarrow> subject who = master_id)"

lemma ensure_owner_Inr: "ensure_owner who c m = Inr () \<longleftrightarrow> is_side_of who c m"
  by (auto simp: ensure_owner_def is_side_of_def Let_def split: role.splits)

lemma ensure_owner_Inl:
  "ensure_owner who c m = Inl e \<longleftrightarrow> \<not> is_side_of who c m \<and> e = BookingNotFoundError"
  by (auto simp: ensure_owner_def is_side_of_def Let_def split: role.splits)

end
