(* ===== verification/Booking_Service.thy ===== *)
theory Booking_Service
  imports Booking_Events Booking_Auth
begin

text \<open>
  \<open>services/booking/src/booking/models.py\<close> and \<open>service.py\<close>: the tables, the constraints the
  database enforces at commit, and the use cases. A use case takes the committed database and
  returns the database after it, with a result or an exception; an exception leaves the
  transaction rolled back. UUIDs come from \<open>uuid7\<close>, which is time-ordered: \<open>next_uuid\<close> is the
  next one it will give. Server-side \<open>created_at\<close> columns that no code reads are left out.
\<close>

section \<open>Tables\<close>

record slot =
  sl_id :: uuid
  sl_master_id :: string
  sl_starts_at :: moment
  sl_ends_at :: moment
  sl_price_minor :: int

record booking =
  bk_id :: uuid
  bk_slot_id :: uuid
  bk_client_id :: string
  bk_status :: booking_status
  bk_created_at :: moment
  bk_updated_at :: moment

record outbox_message =
  ob_id :: uuid
  ob_topic :: string
  ob_payload :: "(string \<times> json) list"
  ob_published_at :: "moment option"
  ob_attempts :: int
  ob_last_error :: "string option"

record booking_db =
  slots :: "slot list"
  bookings :: "booking list"
  outbox :: "outbox_message list"
  next_uuid :: uuid

definition ACTIVE_SLOT_INDEX :: string where
  "ACTIVE_SLOT_INDEX = ''uq_bookings_active_slot''"

text \<open>\<open>_sql_list\<close>: the statuses of an index condition or a check, quoted and sorted.\<close>

definition sql_list :: "booking_status list \<Rightarrow> string" where
  "sql_list sts = join '', '' (map (\<lambda>st. CHR 0x27 # status_value st @ [CHR 0x27]) (sort sts))"

definition is_active :: "booking \<Rightarrow> bool" where
  "is_active b \<longleftrightarrow> bk_status b \<in> set ACTIVE_STATUSES"

text \<open>The first constraint a set of tables violates, by name.\<close>

definition violated_constraint :: "booking_db \<Rightarrow> string option" where
  "violated_constraint s =
     (if \<not> distinct (map sl_id (slots s)) then Some ''slots_pkey''
      else if \<not> distinct (map bk_id (bookings s)) then Some ''bookings_pkey''
      else if \<not> list_all (\<lambda>b. bk_slot_id b \<in> set (map sl_id (slots s))) (bookings s)
        then Some ''bookings_slot_id_fkey''
      else if \<not> unique_index bk_slot_id is_active (bookings s) then Some ACTIVE_SLOT_INDEX
      else if \<not> distinct (map ob_id (outbox s)) then Some ''outbox_messages_pkey''
      else None)"

type_synonym 'a result = "booking_db \<times> (booking_error exn + 'a)"

section \<open>The outbox\<close>

definition enqueue_event ::
  "booking_db \<Rightarrow> booking_status \<Rightarrow> uuid \<Rightarrow> string \<Rightarrow> slot \<Rightarrow> moment \<Rightarrow> py_error + booking_db" where
  "enqueue_event s st bid client sl now =
     (case event_type st of
        None \<Rightarrow> Inr s
      | Some topic \<Rightarrow>
          (let message_id = next_uuid s in
           try_bind (build_event message_id st bid (sl_id sl) client (sl_starts_at sl) now)
             (\<lambda>payload. Inr (s\<lparr>
                outbox := outbox s @ [\<lparr>ob_id = message_id, ob_topic = event_value topic,
                  ob_payload = payload, ob_published_at = None, ob_attempts = 0,
                  ob_last_error = None\<rparr>],
                next_uuid := Suc message_id\<rparr>))))"

fun enqueue_all ::
  "booking_db \<Rightarrow> booking_status \<Rightarrow> (uuid \<times> string) list \<Rightarrow> slot \<Rightarrow> moment \<Rightarrow> py_error + booking_db" where
  "enqueue_all s st [] sl now = Inr s"
| "enqueue_all s st ((bid, client) # rest) sl now =
     try_bind (enqueue_event s st bid client sl now) (\<lambda>s'. enqueue_all s' st rest sl now)"

section \<open>Slots\<close>

definition create_slot ::
  "booking_db \<Rightarrow> string \<Rightarrow> datetime \<Rightarrow> datetime \<Rightarrow> int \<Rightarrow> moment \<Rightarrow> slot result" where
  "create_slot s master starts ends price now =
     (case ensure_valid_slot starts ends now of
        Inl e \<Rightarrow> (s, Inl (Domain e))
      | Inr _ \<Rightarrow>
          (case (moment_of starts, moment_of ends) of
             (Some a, Some b) \<Rightarrow>
               (let sl = \<lparr>sl_id = next_uuid s, sl_master_id = master, sl_starts_at = a,
                          sl_ends_at = b, sl_price_minor = price\<rparr>;
                    s' = s\<lparr>slots := slots s @ [sl], next_uuid := Suc (next_uuid s)\<rparr>
                in case violated_constraint s' of
                     None \<Rightarrow> (s', Inr sl)
                   | Some c \<Rightarrow> (s, Inl (IntegrityError c)))
           | _ \<Rightarrow> (s, Inl (Python TypeError))))"

definition holds_slot :: "moment \<Rightarrow> int \<Rightarrow> booking \<Rightarrow> bool" where
  "holds_slot now ttl b \<longleftrightarrow>
     bk_status b = Confirmed \<or> (bk_status b = Pending \<and> now - ttl < bk_created_at b)"

text \<open>\<open>day\<close> counts days from 1970-01-01, in UTC.\<close>

definition list_slots ::
  "booking_db \<Rightarrow> string \<Rightarrow> int option \<Rightarrow> moment \<Rightarrow> int \<Rightarrow> (slot \<times> bool) list" where
  "list_slots s master day now ttl =
     (let on_day = (\<lambda>sl. case day of None \<Rightarrow> True
                    | Some d \<Rightarrow> days d \<le> sl_starts_at sl \<and> sl_starts_at sl < days d + days 1);
          taken = (\<lambda>sl. list_ex (\<lambda>b. bk_slot_id b = sl_id sl \<and> holds_slot now ttl b) (bookings s))
      in map (\<lambda>sl. (sl, \<not> taken sl \<and> now < sl_starts_at sl))
           (sort_key sl_starts_at (filter (\<lambda>sl. sl_master_id sl = master \<and> on_day sl) (slots s))))"

section \<open>Booking a slot\<close>

definition is_stale :: "booking \<Rightarrow> moment \<Rightarrow> int \<Rightarrow> bool" where
  "is_stale b now ttl \<longleftrightarrow> bk_status b = Pending \<and> bk_created_at b \<le> now - ttl"

definition set_status :: "booking_status \<Rightarrow> moment \<Rightarrow> booking \<Rightarrow> booking" where
  "set_status st now b = b\<lparr>bk_status := st, bk_updated_at := now\<rparr>"

definition book_slot ::
  "booking_db \<Rightarrow> uuid \<Rightarrow> string \<Rightarrow> moment \<Rightarrow> int \<Rightarrow> booking result" where
  "book_slot s sid client now ttl =
     (case get_by sl_id sid (slots s) of
        None \<Rightarrow> (s, Inl (Domain SlotNotFoundError))
      | Some sl \<Rightarrow>
          (case ensure_bookable (sl_starts_at sl) now of
             Inl e \<Rightarrow> (s, Inl (Domain e))
           | Inr _ \<Rightarrow>
               (let expired = filter (\<lambda>b. bk_slot_id b = sid \<and> is_stale b now ttl) (bookings s);
                    s1 = s\<lparr>bookings := update_where (\<lambda>b. bk_slot_id b = sid \<and> is_stale b now ttl)
                             (set_status Expired now) (bookings s)\<rparr>
                in case enqueue_all s1 Expired (map (\<lambda>b. (bk_id b, bk_client_id b)) expired) sl now of
                     Inl e \<Rightarrow> (s, Inl (Python e))
                   | Inr s2 \<Rightarrow>
                       (let b = \<lparr>bk_id = next_uuid s2, bk_slot_id = sid, bk_client_id = client,
                                 bk_status = Pending, bk_created_at = now, bk_updated_at = now\<rparr>;
                            s3 = s2\<lparr>bookings := bookings s2 @ [b], next_uuid := Suc (next_uuid s2)\<rparr>
                        in case violated_constraint s3 of
                             None \<Rightarrow> (s3, Inr b)
                           | Some c \<Rightarrow>
                               if c = ACTIVE_SLOT_INDEX
                               then (s, Inl (Domain SlotAlreadyBookedError))
                               else (s, Inl (IntegrityError c))))))"

section \<open>Reading bookings\<close>

definition get_booking :: "booking_db \<Rightarrow> uuid \<Rightarrow> booking_error exn + booking" where
  "get_booking s bid =
     (case get_by bk_id bid (bookings s) of
        None \<Rightarrow> Inl (Domain BookingNotFoundError)
      | Some b \<Rightarrow> Inr b)"

text \<open>\<open>session.get_one(Slot, id)\<close> raises when there is no such row.\<close>

definition get_slot :: "booking_db \<Rightarrow> uuid \<Rightarrow> booking_error exn + slot" where
  "get_slot s sid =
     (case get_by sl_id sid (slots s) of None \<Rightarrow> Inl (Python NoResultFound) | Some sl \<Rightarrow> Inr sl)"

definition get_owned_booking ::
  "booking_db \<Rightarrow> uuid \<Rightarrow> identity \<Rightarrow> booking_error exn + (booking \<times> slot)" where
  "get_owned_booking s bid who =
     try_bind (get_booking s bid) (\<lambda>b.
     try_bind (get_slot s (bk_slot_id b)) (\<lambda>sl.
     case ensure_owner who (bk_client_id b) (sl_master_id sl) of
       Inl e \<Rightarrow> Inl (Domain e)
     | Inr _ \<Rightarrow> Inr (b, sl)))"

definition list_my_bookings :: "booking_db \<Rightarrow> identity \<Rightarrow> (booking \<times> slot) list" where
  "list_my_bookings s who =
     sort_key (\<lambda>(b, sl). sl_starts_at sl)
       (filter (\<lambda>(b, sl). if id_role who = Client then bk_client_id b = subject who
                          else sl_master_id sl = subject who)
         (concat (map (\<lambda>b. map (\<lambda>sl. (b, sl)) (filter (\<lambda>sl. sl_id sl = bk_slot_id b) (slots s)))
           (bookings s))))"

definition get_payable_booking ::
  "booking_db \<Rightarrow> uuid \<Rightarrow> identity \<Rightarrow> moment \<Rightarrow> int \<Rightarrow> booking_error exn + (booking \<times> slot)" where
  "get_payable_booking s bid who now ttl =
     try_bind (get_owned_booking s bid who) (\<lambda>(b, sl).
     if bk_status b \<noteq> Pending \<or> is_stale b now ttl
     then Inl (Domain BookingNotPayableError) else Inr (b, sl))"

section \<open>Changing the status\<close>

text \<open>
  The second half of \<open>change_status\<close>, from the conditional update on. \<open>b\<close> is the row as this
  request read it; another request may have changed it since.
\<close>

definition write_status ::
  "booking_db \<Rightarrow> booking \<Rightarrow> booking_status \<Rightarrow> moment \<Rightarrow> booking result" where
  "write_status s b target now =
     (let matches = (\<lambda>r. bk_id r = bk_id b \<and> bk_status r = bk_status b)
      in if \<not> list_ex matches (bookings s) then (s, Inl (Domain InvalidTransitionError))
         else
           (let s1 = s\<lparr>bookings := update_where matches (set_status target now) (bookings s)\<rparr>
            in case try_bind (get_slot s1 (bk_slot_id b)) (\<lambda>sl.
                      case enqueue_event s1 target (bk_id b) (bk_client_id b) sl now of
                        Inl e \<Rightarrow> Inl (Python e) | Inr s2 \<Rightarrow> Inr s2) of
                 Inl e \<Rightarrow> (s, Inl e)
               | Inr s2 \<Rightarrow>
                   (case violated_constraint s2 of
                      Some c \<Rightarrow> (s, Inl (IntegrityError c))
                    | None \<Rightarrow> (s2, get_booking s2 (bk_id b)))))"

definition change_status ::
  "booking_db \<Rightarrow> uuid \<Rightarrow> booking_status \<Rightarrow> moment \<Rightarrow> booking result" where
  "change_status s bid target now =
     (case get_booking s bid of
        Inl e \<Rightarrow> (s, Inl e)
      | Inr b \<Rightarrow>
          if bk_status b = target then (s, Inr b)
          else case ensure_transition (bk_status b) target of
                 Inl e \<Rightarrow> (s, Inl (Domain e))
               | Inr _ \<Rightarrow> write_status s b target now)"

definition cancel_booking ::
  "booking_db \<Rightarrow> uuid \<Rightarrow> identity \<Rightarrow> moment \<Rightarrow> booking result" where
  "cancel_booking s bid who now =
     (case get_owned_booking s bid who of
        Inl e \<Rightarrow> (s, Inl e)
      | Inr (b, sl) \<Rightarrow> change_status s (bk_id b) Cancelled now)"

end
