(* ===== verification/Booking_Invariant.thy ===== *)
theory Booking_Invariant
  imports Booking_Service
begin

text \<open>
  What the use cases of the booking service keep: the constraints of the database, ids below
  the next UUID, and an outbox that tells the history of every booking, event by event.
\<close>

named_theorems db_simps \<open>rewriting of the booking database\<close>

section \<open>Well-formed tables\<close>

definition wf_db :: "booking_db \<Rightarrow> bool" where
  "wf_db s \<longleftrightarrow>
     violated_constraint s = None
     \<and> (\<forall>sl \<in> set (slots s). sl_id sl < next_uuid s)
     \<and> (\<forall>b \<in> set (bookings s). bk_id b < next_uuid s)
     \<and> (\<forall>m \<in> set (outbox s). ob_id m < next_uuid s)
     \<and> sorted_wrt (<) (map ob_id (outbox s))"

lemma violated_constraint_None:
  "violated_constraint s = None \<longleftrightarrow>
     distinct (map sl_id (slots s)) \<and> distinct (map bk_id (bookings s))
     \<and> (\<forall>b \<in> set (bookings s). bk_slot_id b \<in> sl_id ` set (slots s))
     \<and> unique_index bk_slot_id is_active (bookings s) \<and> distinct (map ob_id (outbox s))"
  by (auto simp: violated_constraint_def list_all_iff)

lemma wf_dbD:
  assumes "wf_db s"
  shows "distinct (map sl_id (slots s))" "distinct (map bk_id (bookings s))"
    "\<And>b. b \<in> set (bookings s) \<Longrightarrow> bk_slot_id b \<in> sl_id ` set (slots s)"
    "unique_index bk_slot_id is_active (bookings s)" "distinct (map ob_id (outbox s))"
    "\<And>sl. sl \<in> set (slots s) \<Longrightarrow> sl_id sl < next_uuid s"
    "\<And>b. b \<in> set (bookings s) \<Longrightarrow> bk_id b < next_uuid s"
    "\<And>m. m \<in> set (outbox s) \<Longrightarrow> ob_id m < next_uuid s"
    "sorted_wrt (<) (map ob_id (outbox s))" "violated_constraint s = None"
  using assms by (auto simp: wf_db_def violated_constraint_None)

lemma is_active_iff: "is_active b \<longleftrightarrow> bk_status b = Pending \<or> bk_status b = Confirmed"
  by (simp add: is_active_def ACTIVE_STATUSES_def)

text \<open>Holding a slot is being active and not stale; the two ways of writing it agree.\<close>

lemma holds_slot_iff: "holds_slot now ttl b \<longleftrightarrow> is_active b \<and> \<not> is_stale b now ttl"
  by (auto simp: holds_slot_def is_active_iff is_stale_def)

lemma set_status_simps [simp]:
  "bk_id (set_status st now b) = bk_id b" "bk_slot_id (set_status st now b) = bk_slot_id b"
  "bk_client_id (set_status st now b) = bk_client_id b" "bk_status (set_status st now b) = st"
  "bk_created_at (set_status st now b) = bk_created_at b"
  "bk_updated_at (set_status st now b) = now"
  by (simp_all add: set_status_def)

lemma get_booking_Inr:
  "get_booking s bid = Inr b \<longleftrightarrow> get_by bk_id bid (bookings s) = Some b"
  by (auto simp: get_booking_def split: option.splits)

lemma get_booking_wf:
  "wf_db s \<Longrightarrow> get_booking s bid = Inr b \<longleftrightarrow> b \<in> set (bookings s) \<and> bk_id b = bid"
  by (simp add: get_booking_Inr get_by_iff wf_dbD)

lemma get_booking_Inl:
  "get_booking s bid = Inl e \<longleftrightarrow> bid \<notin> bk_id ` set (bookings s) \<and> e = Domain BookingNotFoundError"
  by (auto simp: get_booking_def get_by_None_iff [symmetric] split: option.splits)

lemma get_slot_of_booking:
  assumes "wf_db s" "b \<in> set (bookings s)"
  obtains sl where "get_slot s (bk_slot_id b) = Inr sl" "sl \<in> set (slots s)" "sl_id sl = bk_slot_id b"
proof -
  from assms obtain sl where "sl \<in> set (slots s)" "sl_id sl = bk_slot_id b"
    using wf_dbD(3) by (metis imageE)
  then show ?thesis
    using that wf_dbD(1) [OF assms(1)] by (metis get_by_eq_Some get_slot_def option.simps(5))
qed

section \<open>Messages\<close>

definition event_message ::
  "uuid \<Rightarrow> booking_status \<Rightarrow> booking_event_type \<Rightarrow> uuid \<Rightarrow> string \<Rightarrow> slot \<Rightarrow> moment \<Rightarrow> outbox_message" where
  "event_message mid st ty bid client sl now =
     \<lparr>ob_id = mid, ob_topic = event_value ty,
      ob_payload = (case build_event mid st bid (sl_id sl) client (sl_starts_at sl) now of
                      Inr p \<Rightarrow> p | Inl _ \<Rightarrow> []),
      ob_published_at = None, ob_attempts = 0, ob_last_error = None\<rparr>"

lemma enqueue_event_Pending [simp]: "enqueue_event s Pending bid client sl now = Inr s"
  by (simp add: enqueue_event_def event_type_def)

lemma enqueue_event_Some:
  "event_type st = Some ty \<Longrightarrow> enqueue_event s st bid client sl now =
     Inr (s\<lparr>outbox := outbox s @ [event_message (next_uuid s) st ty bid client sl now],
            next_uuid := Suc (next_uuid s)\<rparr>)"
  by (simp add: enqueue_event_def event_message_def event_type_def build_event_def Let_def)

lemma enqueue_event_total: "\<exists>s'. enqueue_event s st bid client sl now = Inr s'"
  by (cases "event_type st") (auto simp: enqueue_event_Some event_type_None)

fun event_messages ::
  "uuid \<Rightarrow> booking_status \<Rightarrow> booking_event_type \<Rightarrow> (uuid \<times> string) list \<Rightarrow> slot \<Rightarrow> moment \<Rightarrow> outbox_message list" where
  "event_messages n st ty [] sl now = []"
| "event_messages n st ty ((bid, client) # rest) sl now =
     event_message n st ty bid client sl now # event_messages (Suc n) st ty rest sl now"

lemma enqueue_all_Some:
  "event_type st = Some ty \<Longrightarrow> enqueue_all s st xs sl now =
     Inr (s\<lparr>outbox := outbox s @ event_messages (next_uuid s) st ty xs sl now,
            next_uuid := next_uuid s + length xs\<rparr>)"
  by (induction s st xs sl now rule: enqueue_all.induct) (simp_all add: enqueue_event_Some)

lemma event_messages_ids: "map ob_id (event_messages n st ty xs sl now) = [n..<n + length xs]"
  by (induction n st ty xs sl now rule: event_messages.induct)
    (simp_all add: event_message_def upt_rec)

lemma event_messages_unpublished:
  "m \<in> set (event_messages n st ty xs sl now) \<Longrightarrow> ob_published_at m = None"
  by (induction n st ty xs sl now rule: event_messages.induct) (auto simp: event_message_def)

text \<open>The booking a message is about, as the payload names it.\<close>

definition about :: "uuid \<Rightarrow> outbox_message \<Rightarrow> bool" where
  "about bid m \<longleftrightarrow> dict_get (ob_payload m) ''booking_id'' = JStr (uuid_str bid)"

definition announced :: "booking_db \<Rightarrow> uuid \<Rightarrow> string list" where
  "announced s bid = map ob_topic (filter (about bid) (outbox s))"

lemma about_event_message [simp]:
  "event_type st = Some ty \<Longrightarrow>
     about x (event_message mid st ty bid client sl now) \<longleftrightarrow> uuid_str bid = uuid_str x"
  by (auto simp: about_def event_message_def build_event_def event_type_def dict_get_def)

lemma topic_event_message [simp]: "ob_topic (event_message mid st ty bid client sl now) = event_value ty"
  by (simp add: event_message_def)

lemma id_event_message [simp]: "ob_id (event_message mid st ty bid client sl now) = mid"
  by (simp add: event_message_def)

lemma filter_about_event_messages:
  assumes "event_type st = Some ty" "bid < 2 ^ 128" "\<And>x. x \<in> fst ` set xs \<Longrightarrow> x < 2 ^ 128"
    and "distinct (map fst xs)"
  shows "map ob_topic (filter (about bid) (event_messages n st ty xs sl now))
    = (if bid \<in> fst ` set xs then [event_value ty] else [])"
  using assms
proof (induction n st ty xs sl now rule: event_messages.induct)
  case (2 n st ty b client rest sl now)
  then have IH: "map ob_topic (filter (about bid) (event_messages (Suc n) st ty rest sl now))
      = (if bid \<in> fst ` set rest then [event_value ty] else [])" by simp
  have "uuid_str b = uuid_str bid \<longleftrightarrow> b = bid"
    using 2 uuid_text.encode_eq_iff by fastforce
  with IH 2 show ?case by (auto simp: image_iff)
qed simp

section \<open>The history invariant\<close>

text \<open>
  The topics announced of a booking, in order, determine its status and the other way round: no
  event is missing, doubled or out of order.
\<close>

fun histories :: "booking_status \<Rightarrow> string list list" where
  "histories Pending = [[]]"
| "histories Confirmed = [[''booking.confirmed'']]"
| "histories Cancelled = [[''booking.cancelled''], [''booking.confirmed'', ''booking.cancelled'']]"
| "histories Expired = [[''booking.expired'']]"

definition history_ok :: "booking_db \<Rightarrow> bool" where
  "history_ok s \<longleftrightarrow>
     (\<forall>b \<in> set (bookings s). announced s (bk_id b) \<in> set (histories (bk_status b)))
     \<and> (\<forall>m \<in> set (outbox s). \<exists>b \<in> set (bookings s). about (bk_id b) m)"

definition booking_inv :: "booking_db \<Rightarrow> bool" where
  "booking_inv s \<longleftrightarrow> wf_db s \<and> (next_uuid s \<le> 2 ^ 128 \<longrightarrow> history_ok s)"

lemma histories_step:
  assumes "h \<in> set (histories a)" "b \<in> set (ALLOWED_TRANSITIONS a)" "event_type b = Some ty"
  shows "h @ [event_value ty] \<in> set (histories b)"
  using assms by (cases a; cases b) (auto simp: event_type_def)

lemma histories_announced:
  "h \<in> set (histories a) \<Longrightarrow> distinct h"
  by (cases a) auto

end
