(* ===== verification/Booking_Changes.thy ===== *)
theory Booking_Changes
  imports Booking_Invariant
begin

text \<open>
  The two ways a use case touches bookings, and that both keep the invariant of
  \<open>Booking_Invariant\<close>: moving a set of them to another status with one event each, and inserting
  a pending one. The use cases are then described branch by branch in these terms.
\<close>

section \<open>Moving bookings to another status\<close>

definition apply_change ::
  "booking_db \<Rightarrow> (booking \<Rightarrow> bool) \<Rightarrow> booking_status \<Rightarrow> booking_event_type \<Rightarrow> slot \<Rightarrow> moment \<Rightarrow> booking_db" where
  "apply_change s P st ty sl now =
     s\<lparr>bookings := update_where P (set_status st now) (bookings s),
       outbox := outbox s @ event_messages (next_uuid s) st ty
         (map (\<lambda>b. (bk_id b, bk_client_id b)) (filter P (bookings s))) sl now,
       next_uuid := next_uuid s + length (filter P (bookings s))\<rparr>"

lemma apply_change_simps [simp]:
  "slots (apply_change s P st ty sl now) = slots s"
  "bookings (apply_change s P st ty sl now) = update_where P (set_status st now) (bookings s)"
  "next_uuid (apply_change s P st ty sl now) = next_uuid s + length (filter P (bookings s))"
  "outbox (apply_change s P st ty sl now) = outbox s @ event_messages (next_uuid s) st ty
     (map (\<lambda>b. (bk_id b, bk_client_id b)) (filter P (bookings s))) sl now"
  by (simp_all add: apply_change_def)

lemma ids_update_where [simp]:
  "map bk_id (update_where P (set_status st now) bs) = map bk_id bs"
  by (simp add: map_update_where)

lemma allowed_from_active: "st \<in> set (ALLOWED_TRANSITIONS a) \<Longrightarrow> a = Pending \<or> a = Confirmed"
  by (cases a) simp_all

lemma apply_change_wf:
  assumes wf: "wf_db s"
    and ok: "\<And>b. b \<in> set (bookings s) \<Longrightarrow> P b \<Longrightarrow> st \<in> set (ALLOWED_TRANSITIONS (bk_status b))"
  shows "wf_db (apply_change s P st ty sl now)"
proof -
  note w = wf_dbD [OF wf]
  let ?bs = "update_where P (set_status st now) (bookings s)"
  let ?ms = "event_messages (next_uuid s) st ty
    (map (\<lambda>b. (bk_id b, bk_client_id b)) (filter P (bookings s))) sl now"
  let ?n = "length (filter P (bookings s))"
  have ids: "map ob_id ?ms = [next_uuid s..<next_uuid s + ?n]"
    by (simp add: event_messages_ids)
  then have new: "ob_id ` set ?ms = {next_uuid s..<next_uuid s + ?n}"
    by (metis list.set_map set_upt)
  have uniq: "unique_index bk_slot_id is_active ?bs"
    by (rule unique_index_update_where [OF w(4)])
      (use ok in \<open>auto simp: is_active_iff dest: allowed_from_active\<close>)
  have fk: "\<forall>b \<in> set ?bs. bk_slot_id b \<in> sl_id ` set (slots s)"
    using w(3) by (auto simp: set_update_where)
  have sorted: "sorted_wrt (<) (map ob_id (outbox s) @ map ob_id ?ms)"
    unfolding ids sorted_wrt_append using w(8,9) by (fastforce dest: less_le_trans)
  have bounds: "\<forall>b \<in> set ?bs. bk_id b < next_uuid s + ?n"
    "\<forall>m \<in> set (outbox s) \<union> set ?ms. ob_id m < next_uuid s + ?n"
    "\<forall>l \<in> set (slots s). sl_id l < next_uuid s + ?n"
    using w(6,7,8) new by (fastforce simp: set_update_where)+
  show ?thesis
    using w(1,2) uniq fk sorted bounds
    by (simp add: wf_db_def violated_constraint_None strict_sorted_iff)
qed

lemma about_new_message:
  assumes "m \<in> set (event_messages n st ty xs sl now)" "event_type st = Some ty"
  shows "\<exists>bid \<in> fst ` set xs. about bid m"
  using assms
  by (induction n st ty xs sl now rule: event_messages.induct) auto

lemma apply_change_history:
  assumes wf: "wf_db s" and hist: "history_ok s" and room: "next_uuid s \<le> 2 ^ 128"
    and ty: "event_type st = Some ty"
    and ok: "\<And>b. b \<in> set (bookings s) \<Longrightarrow> P b \<Longrightarrow> st \<in> set (ALLOWED_TRANSITIONS (bk_status b))"
  shows "history_ok (apply_change s P st ty sl now)"
proof -
  note w = wf_dbD [OF wf]
  let ?s = "apply_change s P st ty sl now"
  let ?xs = "map (\<lambda>b. (bk_id b, bk_client_id b)) (filter P (bookings s))"
  have small: "x < 2 ^ 128" if "x \<in> bk_id ` set (bookings s)" for x
    using that w(7) room by fastforce
  have dist: "distinct (map fst ?xs)"
    using w(2) by (simp add: comp_def distinct_map_filter)
  have ann: "announced ?s (bk_id b) = announced s (bk_id b) @ (if P b then [event_value ty] else [])"
    if b: "b \<in> set (bookings s)" for b
  proof -
    have "bk_id b \<in> fst ` set ?xs \<longleftrightarrow> P b"
      using b distinct_key_eq [OF w(2)] by (force simp: image_iff)
    moreover have "map ob_topic (filter (about (bk_id b)) (event_messages (next_uuid s) st ty ?xs sl now))
        = (if bk_id b \<in> fst ` set ?xs then [event_value ty] else [])"
      by (rule filter_about_event_messages [OF ty _ _ dist]) (use b small in auto)
    ultimately show ?thesis by (simp add: announced_def)
  qed
  have "announced ?s (bk_id c) \<in> set (histories (bk_status c))" if "c \<in> set (bookings ?s)" for c
  proof -
    from that obtain b where b: "b \<in> set (bookings s)"
      and c: "c = (if P b then set_status st now b else b)"
      by (auto simp: set_update_where)
    have "announced s (bk_id b) \<in> set (histories (bk_status b))"
      using hist b by (simp add: history_ok_def)
    then show ?thesis
      using c ann [OF b] histories_step [OF _ ok [OF b] ty] by (cases "P b") auto
  qed
  moreover have "\<exists>c \<in> set (bookings ?s). about (bk_id c) m" if m: "m \<in> set (outbox ?s)" for m
  proof -
    have "\<exists>x \<in> bk_id ` set (bookings s). about x m"
    proof (cases "m \<in> set (outbox s)")
      case True
      with hist show ?thesis by (auto simp: history_ok_def)
    next
      case False
      with m have "m \<in> set (event_messages (next_uuid s) st ty ?xs sl now)" by simp
      from about_new_message [OF this ty] obtain x where "x \<in> fst ` set ?xs" "about x m" ..
      then show ?thesis by auto
    qed
    moreover have "bk_id ` set (bookings ?s) = bk_id ` set (bookings s)"
      by (metis apply_change_simps(2) ids_update_where list.set_map)
    ultimately show ?thesis by (metis (no_types, lifting) image_iff)
  qed
  ultimately show ?thesis unfolding history_ok_def by blast
qed

lemma apply_change_inv:
  assumes "booking_inv s" "event_type st = Some ty"
    and "\<And>b. b \<in> set (bookings s) \<Longrightarrow> P b \<Longrightarrow> st \<in> set (ALLOWED_TRANSITIONS (bk_status b))"
  shows "booking_inv (apply_change s P st ty sl now)"
  using assms apply_change_wf [of s P st ty sl now] apply_change_history [of s st ty P sl now]
  by (auto simp: booking_inv_def)

section \<open>Inserting a pending booking\<close>

definition new_booking :: "booking_db \<Rightarrow> uuid \<Rightarrow> string \<Rightarrow> moment \<Rightarrow> booking" where
  "new_booking s sid client now =
     \<lparr>bk_id = next_uuid s, bk_slot_id = sid, bk_client_id = client, bk_status = Pending,
      bk_created_at = now, bk_updated_at = now\<rparr>"

definition insert_booking :: "booking_db \<Rightarrow> booking \<Rightarrow> booking_db" where
  "insert_booking s b = s\<lparr>bookings := bookings s @ [b], next_uuid := Suc (next_uuid s)\<rparr>"

lemma insert_booking_simps [simp]:
  "slots (insert_booking s b) = slots s" "bookings (insert_booking s b) = bookings s @ [b]"
  "outbox (insert_booking s b) = outbox s" "next_uuid (insert_booking s b) = Suc (next_uuid s)"
  by (simp_all add: insert_booking_def)

lemma new_booking_simps [simp]:
  "bk_id (new_booking s sid client now) = next_uuid s"
  "bk_slot_id (new_booking s sid client now) = sid"
  "bk_client_id (new_booking s sid client now) = client"
  "bk_status (new_booking s sid client now) = Pending"
  "bk_created_at (new_booking s sid client now) = now"
  by (simp_all add: new_booking_def)

text \<open>The insert violates the partial index exactly when an active booking is left on the slot.\<close>

lemma insert_booking_constraint:
  assumes wf: "wf_db s" and sid: "sid \<in> sl_id ` set (slots s)"
  shows "violated_constraint (insert_booking s (new_booking s sid client now)) =
    (if \<exists>b \<in> set (bookings s). bk_slot_id b = sid \<and> is_active b
     then Some ACTIVE_SLOT_INDEX else None)"
proof -
  note w = wf_dbD [OF wf]
  have "next_uuid s \<notin> bk_id ` set (bookings s)" using w(7) by fastforce
  moreover have "is_active (new_booking s sid client now)" by (simp add: is_active_iff)
  ultimately show ?thesis
    using w(1-5) sid
    by (auto simp: violated_constraint_def list_all_iff unique_index_append1 image_iff)
qed

lemma insert_booking_inv:
  assumes inv: "booking_inv s" and sid: "sid \<in> sl_id ` set (slots s)"
    and free: "\<And>b. b \<in> set (bookings s) \<Longrightarrow> bk_slot_id b = sid \<Longrightarrow> \<not> is_active b"
  shows "booking_inv (insert_booking s (new_booking s sid client now))"
    (is "booking_inv ?s")
proof -
  from inv have wf: "wf_db s" by (simp add: booking_inv_def)
  note w = wf_dbD [OF wf]
  have "violated_constraint ?s = None"
    using insert_booking_constraint [OF wf sid] free by auto
  with w(6-9) have "wf_db ?s" by (auto simp: wf_db_def less_Suc_eq)
  moreover have "history_ok ?s" if room: "next_uuid ?s \<le> 2 ^ 128"
  proof -
    from inv room have hist: "history_ok s" by (simp add: booking_inv_def)
    have "\<not> about (next_uuid s) m" if m: "m \<in> set (outbox s)" for m
    proof
      assume a: "about (next_uuid s) m"
      from hist m obtain b where "b \<in> set (bookings s)" "about (bk_id b) m"
        by (auto simp: history_ok_def)
      with a w(7) room show False
        using uuid_text.encode_eq_iff [of "bk_id b" "next_uuid s"] by (fastforce simp: about_def)
    qed
    then have "announced s (next_uuid s) = []" by (simp add: announced_def filter_empty_conv)
    with hist show ?thesis by (auto simp: history_ok_def announced_def)
  qed
  ultimately show ?thesis by (simp add: booking_inv_def)
qed

end
