(* ===== verification/Booking_Usecases.thy ===== *)
theory Booking_Usecases
  imports Booking_Changes
begin

text \<open>
  Every use case of \<open>service.py\<close>, branch by branch, on well-formed tables: what it returns, what
  it leaves in the database, and that it keeps the invariant.
\<close>

section \<open>Creating a slot\<close>

lemma create_slot_cases:
  assumes wf: "wf_db s"
  shows "create_slot s master st en price now =
    (case (moment_of st, moment_of en) of
       (Some a, Some b) \<Rightarrow>
         if now < a \<and> a < b then
           (let sl = \<lparr>sl_id = next_uuid s, sl_master_id = master, sl_starts_at = a,
                      sl_ends_at = b, sl_price_minor = price\<rparr>
            in (s\<lparr>slots := slots s @ [sl], next_uuid := Suc (next_uuid s)\<rparr>, Inr sl))
         else (s, Inl (Domain InvalidSlotError))
     | _ \<Rightarrow> (s, Inl (Domain InvalidSlotError)))"
proof -
  note w = wf_dbD [OF wf]
  have "next_uuid s \<notin> sl_id ` set (slots s)" using w(6) by fastforce
  with w(1-5) have "violated_constraint (s\<lparr>slots := slots s @
      [\<lparr>sl_id = next_uuid s, sl_master_id = master, sl_starts_at = a, sl_ends_at = b,
        sl_price_minor = price\<rparr>], next_uuid := Suc (next_uuid s)\<rparr>) = None" for a b
    by (auto simp: violated_constraint_None)
  then show ?thesis
    by (auto simp: create_slot_def ensure_valid_slot_def Let_def split: option.splits)
qed

lemma create_slot_inv:
  assumes inv: "booking_inv s"
  shows "booking_inv (fst (create_slot s master st en price now))"
proof -
  from inv have wf: "wf_db s" by (simp add: booking_inv_def)
  note w = wf_dbD [OF wf]
  have new: "next_uuid s \<notin> sl_id ` set (slots s)" using w(6) by fastforce
  have "booking_inv (s\<lparr>slots := slots s @ [sl], next_uuid := Suc (next_uuid s)\<rparr>)"
    if "sl_id sl = next_uuid s" for sl
    using inv w new that
    by (auto simp: booking_inv_def wf_db_def violated_constraint_None history_ok_def
        announced_def less_Suc_eq)
  with inv show ?thesis
    by (auto simp: create_slot_cases [OF wf] Let_def split: option.splits)
qed

section \<open>Booking a slot\<close>

definition stale_on :: "uuid \<Rightarrow> moment \<Rightarrow> int \<Rightarrow> booking \<Rightarrow> bool" where
  "stale_on sid now ttl b \<longleftrightarrow> bk_slot_id b = sid \<and> is_stale b now ttl"

lemma stale_may_expire: "stale_on sid now ttl b \<Longrightarrow> Expired \<in> set (ALLOWED_TRANSITIONS (bk_status b))"
  by (simp add: stale_on_def is_stale_def)

lemma active_after_expiry:
  "(\<exists>b \<in> set (update_where (stale_on sid now ttl) (set_status Expired now) bs).
      bk_slot_id b = sid \<and> is_active b)
   \<longleftrightarrow> (\<exists>b \<in> set bs. bk_slot_id b = sid \<and> holds_slot now ttl b)"
proof -
  have "bk_slot_id (if stale_on sid now ttl b then set_status Expired now b else b) = sid
      \<and> is_active (if stale_on sid now ttl b then set_status Expired now b else b)
    \<longleftrightarrow> bk_slot_id b = sid \<and> holds_slot now ttl b" for b
    by (auto simp: holds_slot_iff is_active_iff stale_on_def)
  then show ?thesis unfolding set_update_where bex_simps(7) by simp
qed

lemma book_slot_cases:
  assumes wf: "wf_db s"
  shows "book_slot s sid client now ttl =
    (case get_by sl_id sid (slots s) of
       None \<Rightarrow> (s, Inl (Domain SlotNotFoundError))
     | Some sl \<Rightarrow>
         if sl_starts_at sl \<le> now then (s, Inl (Domain SlotInPastError))
         else if \<exists>b \<in> set (bookings s). bk_slot_id b = sid \<and> holds_slot now ttl b
         then (s, Inl (Domain SlotAlreadyBookedError))
         else
           (let s2 = apply_change s (stale_on sid now ttl) Expired EventExpired sl now;
                b = new_booking s2 sid client now
            in (insert_booking s2 b, Inr b)))"
proof (cases "get_by sl_id sid (slots s)")
  case (Some sl)
  then have sid: "sid \<in> sl_id ` set (slots s)" by (auto dest: get_by_SomeD)
  let ?s2 = "apply_change s (stale_on sid now ttl) Expired EventExpired sl now"
  have wf2: "wf_db ?s2" by (rule apply_change_wf [OF wf]) (rule stale_may_expire)
  have con: "violated_constraint (insert_booking ?s2 (new_booking ?s2 sid client now)) =
    (if \<exists>b \<in> set (bookings s). bk_slot_id b = sid \<and> holds_slot now ttl b
     then Some ACTIVE_SLOT_INDEX else None)"
    using insert_booking_constraint [OF wf2] sid by (simp add: active_after_expiry)
  have enq: "enqueue_all
      (s\<lparr>bookings := update_where (stale_on sid now ttl) (set_status Expired now) (bookings s)\<rparr>)
      Expired (map (\<lambda>b. (bk_id b, bk_client_id b)) (filter (stale_on sid now ttl) (bookings s))) sl now
    = Inr ?s2"
    by (simp add: enqueue_all_Some [of _ EventExpired] event_type_def apply_change_def)
  have P: "(\<lambda>b. bk_slot_id b = sid \<and> is_stale b now ttl) = stale_on sid now ttl"
    by (simp add: fun_eq_iff stale_on_def)
  show ?thesis
    unfolding book_slot_def Let_def P Some option.case(2) enq
    using con
    by (cases "\<exists>b \<in> set (bookings s). bk_slot_id b = sid \<and> holds_slot now ttl b")
      (simp_all add: ensure_bookable_def insert_booking_def new_booking_def del: bex_simps ball_simps)
qed (simp add: book_slot_def)

lemma book_slot_inv:
  assumes inv: "booking_inv s"
  shows "booking_inv (fst (book_slot s sid client now ttl))"
proof (cases "get_by sl_id sid (slots s)")
  case None
  with inv show ?thesis by (simp add: book_slot_def)
next
  case (Some sl)
  then have sid: "sid \<in> sl_id ` set (slots s)" by (auto dest: get_by_SomeD)
  let ?s2 = "apply_change s (stale_on sid now ttl) Expired EventExpired sl now"
  have inv2: "booking_inv ?s2"
    by (rule apply_change_inv [OF inv]) (simp_all add: event_type_def stale_may_expire)
  have "booking_inv (insert_booking ?s2 (new_booking ?s2 sid client now))"
    if "\<not> (\<exists>b \<in> set (bookings s). bk_slot_id b = sid \<and> holds_slot now ttl b)"
    by (rule insert_booking_inv [OF inv2])
      (use sid that active_after_expiry [of sid now ttl "bookings s"] in auto)
  with inv Some show ?thesis
    by (simp add: book_slot_cases booking_inv_def Let_def)
qed

section \<open>Changing a status\<close>

text \<open>
  \<open>write_status\<close> with a row \<open>b\<close> read earlier: the stored row has the same id, slot and client
  (no statement of the service changes them) and perhaps another status.
\<close>

definition same_booking :: "booking \<Rightarrow> booking \<Rightarrow> bool" where
  "same_booking b r \<longleftrightarrow>
     bk_id r = bk_id b \<and> bk_slot_id r = bk_slot_id b \<and> bk_client_id r = bk_client_id b"

definition row_is :: "booking \<Rightarrow> booking \<Rightarrow> bool" where
  "row_is b r \<longleftrightarrow> bk_id r = bk_id b \<and> bk_status r = bk_status b"

lemma filter_row_is:
  assumes "distinct (map bk_id bs)" "r \<in> set bs" "row_is b r"
  shows "filter (row_is b) bs = [r]"
  by (rule filter_unique_key [where key = bk_id]) (use assms in \<open>simp_all add: row_is_def\<close>)

lemma write_status_stale:
  "\<not> (\<exists>r \<in> set (bookings s). row_is b r) \<Longrightarrow>
     write_status s b target now = (s, Inl (Domain InvalidTransitionError))"
  by (auto simp: write_status_def row_is_def list_ex_iff Let_def)

lemma write_status_ok:
  assumes wf: "wf_db s" and r: "r \<in> set (bookings s)" "row_is b r" "same_booking b r"
    and ok: "target \<in> set (ALLOWED_TRANSITIONS (bk_status b))" and ty: "event_type target = Some ty"
    and sl: "get_by sl_id (bk_slot_id b) (slots s) = Some sl"
  shows "write_status s b target now =
    (apply_change s (row_is b) target ty sl now, Inr (set_status target now r))"
proof -
  note w = wf_dbD [OF wf]
  let ?s = "apply_change s (row_is b) target ty sl now"
  have one: "filter (row_is b) (bookings s) = [r]" by (rule filter_row_is [OF w(2) r(1,2)])
  have P: "(\<lambda>r. bk_id r = bk_id b \<and> bk_status r = bk_status b) = row_is b"
    by (simp add: fun_eq_iff row_is_def)
  have enq: "enqueue_event (s\<lparr>bookings := update_where (row_is b) (set_status target now) (bookings s)\<rparr>)
      target (bk_id b) (bk_client_id b) sl now = Inr ?s"
    using r(3) by (simp add: enqueue_event_Some [OF ty] apply_change_def one same_booking_def)
  have wf': "wf_db ?s"
    by (rule apply_change_wf [OF wf]) (use ok in \<open>simp add: row_is_def\<close>)
  have "get_by bk_id (bk_id b) (bookings s) = Some r"
    using get_by_eq_Some [OF w(2) r(1)] r(2) by (simp add: row_is_def)
  then have got: "get_booking ?s (bk_id b) = Inr (set_status target now r)"
    using r(2) by (simp add: get_booking_Inr get_by_update_where)
  have ex: "list_ex (row_is b) (bookings s)" using r by (auto simp: list_ex_iff)
  show ?thesis
    unfolding write_status_def P Let_def
    using ex sl enq got wf_dbD(10) [OF wf'] by (simp add: get_slot_def)
qed

lemma write_status_inv:
  assumes inv: "booking_inv s" and r: "r \<in> set (bookings s)" "same_booking b r"
    and ok: "target \<in> set (ALLOWED_TRANSITIONS (bk_status b))"
  shows "booking_inv (fst (write_status s b target now))"
proof (cases "\<exists>q \<in> set (bookings s). row_is b q")
  case False
  with inv show ?thesis by (simp add: write_status_stale)
next
  case True
  from inv have wf: "wf_db s" by (simp add: booking_inv_def)
  from True obtain q where q: "q \<in> set (bookings s)" "row_is b q" by blast
  with r have "q = r"
    using distinct_key_eq [OF wf_dbD(2) [OF wf]] by (simp add: row_is_def same_booking_def)
  with q r have same: "same_booking b q" by simp
  obtain ty where ty: "event_type target = Some ty"
    using ok by (cases "bk_status b"; cases target) (auto simp: event_type_def)
  obtain sl where sl: "get_by sl_id (bk_slot_id b) (slots s) = Some sl"
    using wf_dbD(1,3) [OF wf] q same by (metis get_by_eq_Some image_iff same_booking_def)
  show ?thesis
    unfolding write_status_ok [OF wf q same ok ty sl] fst_conv
    by (rule apply_change_inv [OF inv ty]) (use ok in \<open>simp add: row_is_def\<close>)
qed

lemma change_status_inv:
  assumes inv: "booking_inv s"
  shows "booking_inv (fst (change_status s bid target now))"
proof (cases "get_booking s bid")
  case (Inr b)
  from inv have wf: "wf_db s" by (simp add: booking_inv_def)
  with Inr have b: "b \<in> set (bookings s)" by (simp add: get_booking_wf)
  have "booking_inv (fst (write_status s b target now))"
    if "target \<in> set (ALLOWED_TRANSITIONS (bk_status b))"
    using write_status_inv [OF inv b _ that] by (simp add: same_booking_def)
  with Inr inv show ?thesis by (simp add: change_status_def ensure_transition_def)
qed (simp add: change_status_def inv)

lemma cancel_booking_inv:
  "booking_inv s \<Longrightarrow> booking_inv (fst (cancel_booking s bid who now))"
  by (auto simp: cancel_booking_def change_status_inv split: sum.splits)

text \<open>\<open>change_status\<close> on every branch.\<close>

lemma change_status_cases:
  assumes wf: "wf_db s"
  shows "change_status s bid target now =
    (case get_by bk_id bid (bookings s) of
       None \<Rightarrow> (s, Inl (Domain BookingNotFoundError))
     | Some b \<Rightarrow>
         if bk_status b = target then (s, Inr b)
         else if target \<notin> set (ALLOWED_TRANSITIONS (bk_status b))
         then (s, Inl (Domain InvalidTransitionError))
         else (apply_change s (row_is b) target (the (event_type target))
                 (the (get_by sl_id (bk_slot_id b) (slots s))) now,
               Inr (set_status target now b)))"
proof (cases "get_by bk_id bid (bookings s)")
  case None
  then show ?thesis by (simp add: change_status_def get_booking_def)
next
  case (Some b)
  then have got: "get_booking s bid = Inr b" by (simp add: get_booking_Inr)
  with wf have b: "b \<in> set (bookings s)" by (simp add: get_booking_wf)
  have refl: "row_is b b" "same_booking b b" by (simp_all add: row_is_def same_booking_def)
  obtain sl where sl: "get_by sl_id (bk_slot_id b) (slots s) = Some sl"
    using wf_dbD(1,3) [OF wf] b by (metis get_by_eq_Some image_iff)
  show ?thesis
  proof (cases "target \<in> set (ALLOWED_TRANSITIONS (bk_status b))")
    case True
    then obtain ty where ty: "event_type target = Some ty"
      by (cases "bk_status b"; cases target) (auto simp: event_type_def)
    show ?thesis
      using True Some got sl ty write_status_ok [OF wf b refl True ty sl]
      by (simp add: change_status_def ensure_transition_def)
  next
    case False
    with Some got show ?thesis by (simp add: change_status_def ensure_transition_def)
  qed
qed

end
