(* ===== verification/Relay_Loop.thy ===== *)
theory Relay_Loop
  imports Pytime
begin

text \<open>
  The loop both outbox relays run over a batch of messages, as an interface. A session holds a
  committed state and a working state; delivering a message changes the working state and the
  world outside; success marks the message in the working state; a failure rolls the working
  state back to the committed one, records the failure there, and stops. What is proved here
  holds of \<open>booking/outbox.py\<close> and \<open>payments/relay.py\<close> alike.
\<close>

text \<open>The working state and the world after a run of deliveries that all succeed.\<close>

fun delivered ::
  "('m \<Rightarrow> 's \<Rightarrow> 'w \<Rightarrow> 's \<times> 'w \<times> ('e + unit)) \<Rightarrow> ('m \<Rightarrow> 's \<Rightarrow> 's) \<Rightarrow> 'm list \<Rightarrow> 's \<Rightarrow> 'w
   \<Rightarrow> ('s \<times> 'w) option" where
  "delivered deliver mark [] s w = Some (s, w)"
| "delivered deliver mark (m # ms) s w =
     (case deliver m s w of
        (s', w', Inr _) \<Rightarrow> delivered deliver mark ms (mark m s') w'
      | (_, _, Inl _) \<Rightarrow> None)"

lemma delivered_append:
  "delivered deliver mark (xs @ ys) s w =
     Option.bind (delivered deliver mark xs s w) (\<lambda>(s', w'). delivered deliver mark ys s' w')"
  by (induction deliver mark xs s w rule: delivered.induct) (auto split: prod.splits sum.splits)

locale relay_loop =
  fixes loop :: "'s \<Rightarrow> 's \<Rightarrow> 'w \<Rightarrow> int \<Rightarrow> 'm list \<Rightarrow> 's \<times> 'w \<times> int"
    and deliver :: "'m \<Rightarrow> 's \<Rightarrow> 'w \<Rightarrow> 's \<times> 'w \<times> ('e + unit)"
    and mark :: "'m \<Rightarrow> 's \<Rightarrow> 's"
    and record_failure :: "'m \<Rightarrow> 'e \<Rightarrow> 's \<Rightarrow> 's"
  assumes loop_Nil: "loop committed s w done_so_far [] = (s, w, done_so_far)"
    and loop_ok: "deliver m s w = (s', w', Inr u) \<Longrightarrow>
      loop committed s w done_so_far (m # ms) =
      loop committed (mark m s') w' (done_so_far + 1) ms"
    and loop_fail: "deliver m s w = (s', w', Inl e) \<Longrightarrow>
      loop committed s w done_so_far (m # ms) = (record_failure m e committed, w', done_so_far)"
begin

lemma loop_delivered:
  "delivered deliver mark ms s w = Some (s', w') \<Longrightarrow>
     loop c s w n (ms @ rest) = loop c s' w' (n + int (length ms)) rest"
proof (induction ms arbitrary: s w n)
  case (Cons m ms)
  obtain t v r where d: "deliver m s w = (t, v, r)" by (metis prod_cases3)
  then obtain u where r: "r = Inr u" using Cons.prems by (cases r) simp_all
  with d Cons show ?case by (simp add: loop_ok add.assoc)
qed simp

text \<open>Every delivery succeeds: every message is marked and counted.\<close>

lemma loop_all:
  "delivered deliver mark ms s w = Some (s', w') \<Longrightarrow>
     loop c s w n ms = (s', w', n + int (length ms))"
  using loop_delivered [of ms s w s' w' c n "[]"] by (simp add: loop_Nil)

text \<open>
  A delivery fails: the marks of the messages delivered before it in the batch are rolled back
  with it, although the world has seen them and the result counts them.
\<close>

lemma loop_stops:
  assumes "delivered deliver mark pre s w = Some (s1, w1)" "deliver m s1 w1 = (s2, w2, Inl e)"
  shows "loop c s w n (pre @ m # post) = (record_failure m e c, w2, n + int (length pre))"
  using loop_delivered [OF assms(1), of c n "m # post"] loop_fail [OF assms(2)] by simp

text \<open>There is no third way a batch can end.\<close>

lemma loop_cases:
  obtains (all) s' w' where "delivered deliver mark ms s w = Some (s', w')"
  | (stops) pre m post s1 w1 s2 w2 e where "ms = pre @ m # post"
      "delivered deliver mark pre s w = Some (s1, w1)" "deliver m s1 w1 = (s2, w2, Inl e)"
proof (induction ms arbitrary: s w thesis)
  case Nil
  then show ?case by simp
next
  case (Cons m ms)
  obtain t v r where d: "deliver m s w = (t, v, r)" by (metis prod_cases3)
  show ?case
  proof (cases r)
    case (Inl e)
    with d Cons.prems(2) [of "[]"] show ?thesis by simp
  next
    case (Inr u)
    show ?thesis
    proof (rule Cons.IH [of "mark m t" v])
      fix s' w' assume "delivered deliver mark ms (mark m t) v = Some (s', w')"
      with d Inr Cons.prems(1) show ?thesis by simp
    next
      fix pre x post s1 w1 s2 w2 e
      assume "ms = pre @ x # post" "delivered deliver mark pre (mark m t) v = Some (s1, w1)"
        "deliver x s1 w1 = (s2, w2, Inl e)"
      with d Inr Cons.prems(2) [of "m # pre"] show ?thesis by simp
    qed
  qed
qed

text \<open>What a run keeps: a property of the working state and the world that marking keeps.\<close>

lemma delivered_inv:
  assumes "delivered deliver mark ms s w = Some (s', w')" "I s w"
    and "\<And>m s w s' w' u. m \<in> set ms \<Longrightarrow> I s w \<Longrightarrow> deliver m s w = (s', w', Inr u) \<Longrightarrow> I (mark m s') w'"
  shows "I s' w'"
  using assms
proof (induction ms arbitrary: s w)
  case (Cons m ms)
  obtain t v r where d: "deliver m s w = (t, v, r)" by (metis prod_cases3)
  then obtain u where "r = Inr u" using Cons.prems(1) by (cases r) simp_all
  with d Cons show ?case by simp
qed simp

end

end
