(* ===== verification/Booking_Outbox.thy ===== *)
theory Booking_Outbox
  imports Booking_Usecases Relay_Loop
begin

text \<open>
  \<open>services/booking/src/booking/outbox.py\<close>: the relay that publishes the outbox. The broker is a
  parameter: a publisher takes a topic, a payload and the state of the world, and either accepts
  or raises (\<open>Inl\<close> the text of the exception).
\<close>

section \<open>The relay\<close>

type_synonym 'w publisher = "string \<Rightarrow> (string \<times> json) list \<Rightarrow> 'w \<Rightarrow> 'w \<times> (string + unit)"

definition MAX_ERROR_LENGTH :: nat where
  "MAX_ERROR_LENGTH = 200"

definition BATCH_SIZE :: nat where
  "BATCH_SIZE = 100"

text \<open>
  The rows of \<open>SELECT ... ORDER BY id LIMIT n FOR UPDATE SKIP LOCKED\<close>; \<open>locked\<close> are the rows another
  relay is working on.
\<close>

definition pending_messages ::
  "(uuid \<Rightarrow> bool) \<Rightarrow> nat \<Rightarrow> outbox_message list \<Rightarrow> outbox_message list" where
  "pending_messages locked batch_size ms =
     take batch_size
       (sort_key ob_id (filter (\<lambda>m. ob_published_at m = None \<and> \<not> locked (ob_id m)) ms))"

definition update_message ::
  "uuid \<Rightarrow> (outbox_message \<Rightarrow> outbox_message) \<Rightarrow> booking_db \<Rightarrow> booking_db" where
  "update_message mid f s = s\<lparr>outbox := update_where (\<lambda>m. ob_id m = mid) f (outbox s)\<rparr>"

definition record_failure :: "outbox_message \<Rightarrow> string \<Rightarrow> booking_db \<Rightarrow> booking_db" where
  "record_failure message error =
     update_message (ob_id message)
       (\<lambda>m. m\<lparr>ob_attempts := ob_attempts m + 1,
              ob_last_error := Some (take MAX_ERROR_LENGTH error)\<rparr>)"

definition mark_published :: "moment \<Rightarrow> outbox_message \<Rightarrow> booking_db \<Rightarrow> booking_db" where
  "mark_published now message =
     update_message (ob_id message) (\<lambda>m. m\<lparr>ob_published_at := Some now\<rparr>)"

text \<open>
  The loop: \<open>committed\<close> is what \<open>session.rollback()\<close> returns to, \<open>s\<close> what the session has
  changed since, \<open>published\<close> the counter.
\<close>

fun publish_loop ::
  "'w publisher \<Rightarrow> moment \<Rightarrow> booking_db \<Rightarrow> booking_db \<Rightarrow> 'w \<Rightarrow> int \<Rightarrow> outbox_message list
   \<Rightarrow> booking_db \<times> 'w \<times> int" where
  "publish_loop publish now committed s w published [] = (s, w, published)"
| "publish_loop publish now committed s w published (message # messages) =
     (case publish (ob_topic message) (ob_payload message) w of
        (w', Inl error) \<Rightarrow> (record_failure message error committed, w', published)
      | (w', Inr _) \<Rightarrow>
          publish_loop publish now committed (mark_published now message s) w' (published + 1) messages)"

definition publish_pending ::
  "'w publisher \<Rightarrow> (uuid \<Rightarrow> bool) \<Rightarrow> moment \<Rightarrow> nat \<Rightarrow> booking_db \<Rightarrow> 'w \<Rightarrow> booking_db \<times> 'w \<times> int" where
  "publish_pending publish locked now batch_size s w =
     publish_loop publish now s s w 0 (pending_messages locked batch_size (outbox s))"

text \<open>The heartbeat file, and one turn of \<open>run_forever\<close>: whether it goes to sleep comes last.\<close>

definition touch_heartbeat ::
  "string option \<Rightarrow> moment \<Rightarrow> (string \<rightharpoonup> string) \<Rightarrow> (string \<rightharpoonup> string)" where
  "touch_heartbeat path now files =
     (case path of None \<Rightarrow> files | Some p \<Rightarrow> files(p \<mapsto> isoformat (utc_datetime now)))"

definition relay_cycle ::
  "'w publisher \<Rightarrow> string option \<Rightarrow> (uuid \<Rightarrow> bool) \<Rightarrow> moment \<Rightarrow> (string \<rightharpoonup> string) \<Rightarrow> booking_db \<Rightarrow> 'w
   \<Rightarrow> (string \<rightharpoonup> string) \<times> booking_db \<times> 'w \<times> bool" where
  "relay_cycle publish heartbeat locked now files s w =
     (let files' = touch_heartbeat heartbeat now files;
          (s', w', sent) = publish_pending publish locked now BATCH_SIZE s w
      in (files', s', w', sent = 0))"

section \<open>The relay is a relay loop\<close>

definition publish_message ::
  "'w publisher \<Rightarrow> outbox_message \<Rightarrow> booking_db \<Rightarrow> 'w \<Rightarrow> booking_db \<times> 'w \<times> (string + unit)" where
  "publish_message publish m s w =
     (let (w', r) = publish (ob_topic m) (ob_payload m) w in (s, w', r))"

interpretation relay: relay_loop "publish_loop publish now" "publish_message publish"
    "mark_published now" record_failure
  for publish :: "'w publisher" and now :: moment
  by unfold_locales (auto simp: publish_message_def Let_def split: prod.splits sum.splits)

lemma update_message_simps [simp]:
  "slots (update_message i f s) = slots s" "bookings (update_message i f s) = bookings s"
  "next_uuid (update_message i f s) = next_uuid s"
  "outbox (update_message i f s) = update_where (\<lambda>m. ob_id m = i) f (outbox s)"
  by (simp_all add: update_message_def)

text \<open>
  What a relay may do to the database: everything but the delivery columns of the outbox stays.
\<close>

definition sent_form :: "outbox_message \<Rightarrow> uuid \<times> string \<times> (string \<times> json) list" where
  "sent_form m = (ob_id m, ob_topic m, ob_payload m)"

definition delivery_only :: "booking_db \<Rightarrow> booking_db \<Rightarrow> bool" where
  "delivery_only s t \<longleftrightarrow>
     slots t = slots s \<and> bookings t = bookings s \<and> next_uuid t = next_uuid s
     \<and> map sent_form (outbox t) = map sent_form (outbox s)"

lemma delivery_only_refl [simp]: "delivery_only s s"
  by (simp add: delivery_only_def)

lemma delivery_only_trans: "delivery_only s t \<Longrightarrow> delivery_only t u \<Longrightarrow> delivery_only s u"
  by (simp add: delivery_only_def)

lemma delivery_only_update:
  assumes "\<And>m. sent_form (f m) = sent_form m"
  shows "delivery_only s (update_message i f s)"
  using assms by (simp add: delivery_only_def map_update_where)

lemma delivery_only_mark: "delivery_only s (mark_published now m s)"
  by (simp add: mark_published_def delivery_only_update sent_form_def)

lemma delivery_only_failure: "delivery_only s (record_failure m e s)"
  by (simp add: record_failure_def delivery_only_update sent_form_def)

lemma delivery_only_inv:
  assumes "delivery_only s t" "booking_inv s"
  shows "booking_inv t"
proof -
  have d: "slots t = slots s" "bookings t = bookings s" "next_uuid t = next_uuid s"
    and forms: "map sent_form (outbox t) = map sent_form (outbox s)"
    using assms(1) by (simp_all add: delivery_only_def)
  have "map ob_id ms = map fst (map sent_form ms)" for ms by (simp add: sent_form_def)
  then have ids: "map ob_id (outbox t) = map ob_id (outbox s)" by (simp only: forms)
  have idset: "ob_id ` set (outbox t) = ob_id ` set (outbox s)"
    using arg_cong [OF ids, of set] by (simp only: list.set_map)
  have formset: "sent_form ` set (outbox t) = sent_form ` set (outbox s)"
    using arg_cong [OF forms, of set] by (simp only: list.set_map)
  have "violated_constraint t = None" if "violated_constraint s = None"
    using that by (simp add: violated_constraint_None d ids)
  moreover have "\<forall>m \<in> set (outbox t). ob_id m < next_uuid t"
    if "\<forall>m \<in> set (outbox s). ob_id m < next_uuid s"
  proof
    fix m assume "m \<in> set (outbox t)"
    then have "ob_id m \<in> ob_id ` set (outbox s)" using idset by blast
    with that show "ob_id m < next_uuid t" by (auto simp: d)
  qed
  ultimately have wf: "wf_db t" if "wf_db s"
    using that by (simp add: wf_db_def d ids)
  have "announced u x = map (fst \<circ> snd) (filter (\<lambda>(i, tp, p).
      dict_get p ''booking_id'' = JStr (uuid_str x)) (map sent_form (outbox u)))" for u x
    by (simp add: announced_def about_def [abs_def] filter_map comp_def sent_form_def)
  then have ann: "announced t x = announced s x" for x by (simp only: forms)
  have "\<exists>b \<in> set (bookings s). about (bk_id b) m"
    if m: "m \<in> set (outbox t)" and all: "\<forall>m \<in> set (outbox s). \<exists>b \<in> set (bookings s). about (bk_id b) m" for m
  proof -
    from m formset obtain k where "k \<in> set (outbox s)" "sent_form k = sent_form m"
      by (metis image_iff)
    then have "about x k = about x m" for x by (simp add: about_def sent_form_def)
    with all \<open>k \<in> set (outbox s)\<close> show ?thesis by blast
  qed
  then have "history_ok t" if "history_ok s"
    using that by (simp add: history_ok_def ann d)
  with wf assms(2) show ?thesis by (auto simp: booking_inv_def d)
qed

lemma publish_pending_delivery_only:
  "delivery_only s (fst (publish_pending publish locked now n s w))"
proof -
  have I: "delivery_only s s'"
    if "delivered (publish_message publish) (mark_published now) ms s w = Some (s', w')"
    for ms s' w'
    using that
  proof (rule relay.delivered_inv [where I = "\<lambda>t _. delivery_only s t"])
    fix m t w t' w' u
    assume "delivery_only s t" "publish_message publish m t w = (t', w', Inr u)"
    then show "delivery_only s (mark_published now m t')"
      by (auto simp: publish_message_def Let_def split: prod.splits
          intro: delivery_only_trans delivery_only_mark)
  qed simp
  show ?thesis
  proof (rule relay.loop_cases [of publish now "pending_messages locked n (outbox s)" s w])
    fix s' w' assume d: "delivered (publish_message publish) (mark_published now)
        (pending_messages locked n (outbox s)) s w = Some (s', w')"
    with I [OF d] show ?thesis by (simp add: publish_pending_def relay.loop_all)
  next
    fix pre m post s1 w1 s2 w2 e
    assume "pending_messages locked n (outbox s) = pre @ m # post"
      "delivered (publish_message publish) (mark_published now) pre s w = Some (s1, w1)"
      "publish_message publish m s1 w1 = (s2, w2, Inl e)"
    then show ?thesis by (simp add: publish_pending_def relay.loop_stops delivery_only_failure)
  qed
qed

end
