(* ===== verification/Booking_System.thy ===== *)
theory Booking_System
  imports Booking_Outbox
begin

text \<open>
  The booking service as a whole: requests that interleave, the relay, and crashes of the relay.
  Creating and booking a slot are one transaction whose statements do not depend on an earlier
  read of mutable rows, so they are one step. \<open>change_status\<close> (confirm and cancel) reads the
  booking first and writes later: between the two any number of other steps may happen.
\<close>

section \<open>Steps\<close>

record 'w booking_world =
  db :: booking_db
  inflight :: "(booking \<times> booking_status) list"
  broker :: 'w

definition empty_db :: booking_db where
  "empty_db = \<lparr>slots = [], bookings = [], outbox = [], next_uuid = 0\<rparr>"

definition starts_empty :: "'w booking_world \<Rightarrow> bool" where
  "starts_empty w \<longleftrightarrow> db w = empty_db \<and> inflight w = []"

inductive booking_step :: "'w publisher \<Rightarrow> 'w booking_world \<Rightarrow> 'w booking_world \<Rightarrow> bool"
  for publish :: "'w publisher" where
  step_create_slot:
    "booking_step publish w (w\<lparr>db := fst (create_slot (db w) master st en price now)\<rparr>)"
| step_book_slot:
    "booking_step publish w (w\<lparr>db := fst (book_slot (db w) sid client now ttl)\<rparr>)"
| step_read:
    "get_booking (db w) bid = Inr b \<Longrightarrow> bk_status b \<noteq> target \<Longrightarrow>
     ensure_transition (bk_status b) target = Inr () \<Longrightarrow>
     booking_step publish w (w\<lparr>inflight := (b, target) # inflight w\<rparr>)"
| step_write:
    "(b, target) \<in> set (inflight w) \<Longrightarrow>
     booking_step publish w (w\<lparr>db := fst (write_status (db w) b target now),
                              inflight := remove1 (b, target) (inflight w)\<rparr>)"
| step_relay:
    "publish_pending publish locked now n (db w) (broker w) = (s, v, sent) \<Longrightarrow>
     booking_step publish w (w\<lparr>db := s, broker := v\<rparr>)"
| step_relay_crash:
    "pending_messages locked n (outbox (db w)) = pre @ post \<Longrightarrow>
     delivered (publish_message publish) (mark_published now) pre (db w) (broker w) = Some (s, v) \<Longrightarrow>
     booking_step publish w (w\<lparr>broker := v\<rparr>)"

inductive_cases booking_stepE: "booking_step publish w w'"

section \<open>The invariant\<close>

text \<open>A row that was read stays the same booking, whatever happens to its status.\<close>

definition requests_ok :: "'w booking_world \<Rightarrow> bool" where
  "requests_ok w \<longleftrightarrow>
     (\<forall>(b, target) \<in> set (inflight w).
        target \<in> set (ALLOWED_TRANSITIONS (bk_status b))
        \<and> (\<exists>r \<in> set (bookings (db w)). same_booking b r))"

definition world_inv :: "'w booking_world \<Rightarrow> bool" where
  "world_inv w \<longleftrightarrow> booking_inv (db w) \<and> requests_ok w"

text \<open>What no use case does: lose a booking, or change its slot or client.\<close>

definition keeps_bookings :: "booking_db \<Rightarrow> booking_db \<Rightarrow> bool" where
  "keeps_bookings s t \<longleftrightarrow> (\<forall>r \<in> set (bookings s). \<exists>r' \<in> set (bookings t). same_booking r r')"

lemma same_booking_trans: "same_booking a b \<Longrightarrow> same_booking b c \<Longrightarrow> same_booking a c"
  by (simp add: same_booking_def)

lemma same_booking_refl [simp]: "same_booking b b"
  by (simp add: same_booking_def)

lemma keeps_same: "bookings t = bookings s \<Longrightarrow> keeps_bookings s t"
  by (auto simp: keeps_bookings_def intro: same_booking_refl)

lemma keeps_refl [simp]: "keeps_bookings s s"
  by (simp add: keeps_same)

lemma keeps_apply_change: "keeps_bookings s (apply_change s P st ty sl now)"
proof -
  have "same_booking r (if P r then set_status st now r else r)" for r
    by (simp add: same_booking_def)
  then show ?thesis unfolding keeps_bookings_def apply_change_simps set_update_where by blast
qed

lemma keeps_insert: "keeps_bookings s t \<Longrightarrow> keeps_bookings s (insert_booking t b)"
  by (auto simp: keeps_bookings_def)

lemma keeps_create: "wf_db s \<Longrightarrow> keeps_bookings s (fst (create_slot s master st en price now))"
  by (auto simp: create_slot_cases Let_def intro: keeps_same split: option.splits)

lemma keeps_book: "wf_db s \<Longrightarrow> keeps_bookings s (fst (book_slot s sid client now ttl))"
  by (auto simp: book_slot_cases Let_def intro: keeps_insert keeps_apply_change split: option.splits)

lemma keeps_write:
  assumes wf: "wf_db s" and r: "r \<in> set (bookings s)" "same_booking b r"
    and ok: "target \<in> set (ALLOWED_TRANSITIONS (bk_status b))"
  shows "keeps_bookings s (fst (write_status s b target now))"
proof (cases "\<exists>q \<in> set (bookings s). row_is b q")
  case False
  then show ?thesis by (simp add: write_status_stale)
next
  case True
  then obtain q where q: "q \<in> set (bookings s)" "row_is b q" by blast
  with r have "q = r"
    using distinct_key_eq [OF wf_dbD(2) [OF wf]] by (simp add: row_is_def same_booking_def)
  with q r have same: "same_booking b q" by simp
  obtain ty where ty: "event_type target = Some ty"
    using ok by (cases "bk_status b"; cases target) (auto simp: event_type_def)
  obtain sl where sl: "get_by sl_id (bk_slot_id b) (slots s) = Some sl"
    using wf_dbD(1,3) [OF wf] q same by (metis get_by_eq_Some image_iff same_booking_def)
  show ?thesis
    unfolding write_status_ok [OF wf q same ok ty sl] fst_conv by (rule keeps_apply_change)
qed

lemma requests_db:
  assumes "requests_ok w" "keeps_bookings (db w) s"
  shows "requests_ok (w\<lparr>db := s\<rparr>)"
proof -
  have "\<exists>r \<in> set (bookings s). same_booking b r" if "r \<in> set (bookings (db w))" "same_booking b r" for b r
    using assms(2) that same_booking_trans unfolding keeps_bookings_def by metis
  with assms(1) show ?thesis by (auto simp: requests_ok_def)
qed

lemma requests_sub:
  "requests_ok w \<Longrightarrow> set xs \<subseteq> set (inflight w) \<Longrightarrow> requests_ok (w\<lparr>inflight := xs\<rparr>)"
  by (auto simp: requests_ok_def)

lemma requests_broker [simp]: "requests_ok (w\<lparr>broker := v\<rparr>) = requests_ok w"
  by (simp add: requests_ok_def)

lemma empty_inv: "booking_inv empty_db"
  by (simp add: booking_inv_def wf_db_def violated_constraint_def history_ok_def empty_db_def)

lemma booking_step_inv:
  assumes step: "booking_step publish w w'" and inv: "world_inv w"
  shows "world_inv w'"
proof -
  from inv have b: "booking_inv (db w)" and wf: "wf_db (db w)" and r: "requests_ok w"
    by (auto simp: world_inv_def booking_inv_def)
  show ?thesis
    using step
  proof (cases rule: booking_step.cases)
    case (step_create_slot master st en price now)
    show ?thesis
      unfolding step_create_slot world_inv_def
      using create_slot_inv [OF b] requests_db [OF r keeps_create [OF wf]] by simp
  next
    case (step_book_slot sid client now ttl)
    show ?thesis
      unfolding step_book_slot world_inv_def
      using book_slot_inv [OF b] requests_db [OF r keeps_book [OF wf]] by simp
  next
    case (step_read bid bk target)
    then have "bk \<in> set (bookings (db w))" "target \<in> set (ALLOWED_TRANSITIONS (bk_status bk))"
      using wf by (simp_all add: get_booking_wf ensure_transition_Inr)
    then have "\<exists>q \<in> set (bookings (db w)). same_booking bk q"
      "target \<in> set (ALLOWED_TRANSITIONS (bk_status bk))" by (blast intro: same_booking_refl)+
    then show ?thesis
      unfolding step_read world_inv_def using b r by (simp add: requests_ok_def)
  next
    case (step_write bk target now)
    with r obtain q where q: "q \<in> set (bookings (db w))" "same_booking bk q"
      and ok: "target \<in> set (ALLOWED_TRANSITIONS (bk_status bk))"
      by (auto simp: requests_ok_def)
    have "requests_ok (w\<lparr>db := fst (write_status (db w) bk target now)\<rparr>)"
      by (rule requests_db [OF r keeps_write [OF wf q ok]])
    then have "requests_ok (w\<lparr>db := fst (write_status (db w) bk target now),
        inflight := remove1 (bk, target) (inflight w)\<rparr>)"
      by (rule requests_sub) (simp add: set_remove1_subset)
    then show ?thesis
      unfolding step_write world_inv_def using write_status_inv [OF b q ok] by simp
  next
    case (step_relay locked now n s v sent)
    then have only: "delivery_only (db w) s"
      using publish_pending_delivery_only [of "db w" publish locked now n "broker w"] by simp
    then have "keeps_bookings (db w) s" by (simp add: keeps_same delivery_only_def)
    from requests_db [OF r this] delivery_only_inv [OF only b] show ?thesis
      unfolding step_relay world_inv_def by simp
  next
    case (step_relay_crash locked n pre post now s v)
    with b r show ?thesis by (simp add: world_inv_def)
  qed
qed

interpretation system: invariant_system starts_empty "booking_step publish" world_inv
  for publish :: "'w publisher"
proof unfold_locales
  fix w :: "'w booking_world"
  assume "starts_empty w"
  then show "world_inv w" by (simp add: starts_empty_def world_inv_def requests_ok_def empty_inv)
qed (rule booking_step_inv)

section \<open>What the broker has seen\<close>

text \<open>
  The broker keeps what it accepted: an accepted publish is in the log afterwards, and no publish
  takes anything out, also one whose answer was lost.
\<close>

definition keeps_log :: "'w publisher \<Rightarrow> ('w \<Rightarrow> (string \<times> (string \<times> json) list) set) \<Rightarrow> bool" where
  "keeps_log publish log \<longleftrightarrow>
     (\<forall>topic payload w.
        log w \<subseteq> log (fst (publish topic payload w))
        \<and> (snd (publish topic payload w) = Inr () \<longrightarrow>
            (topic, payload) \<in> log (fst (publish topic payload w))))"

definition published_logged ::
  "('w \<Rightarrow> (string \<times> (string \<times> json) list) set) \<Rightarrow> booking_db \<Rightarrow> 'w \<Rightarrow> bool" where
  "published_logged log s w \<longleftrightarrow>
     (\<forall>m \<in> set (outbox s). ob_published_at m \<noteq> None \<longrightarrow> (ob_topic m, ob_payload m) \<in> log w)"

end
