(* ===== verification/Booking_Properties.thy ===== *)
theory Booking_Properties
  imports Booking_System
begin

text \<open>
  The theorems about the use cases of the booking service, one request at a time and under every
  interleaving. Each is a few steps over the lemmas of \<open>Booking_Usecases\<close> and
  \<open>Booking_System\<close>; the witnesses run them on a small database.
\<close>

section \<open>An example database\<close>

definition example_slot :: slot where
  "example_slot = \<lparr>sl_id = 0, sl_master_id = ''m'', sl_starts_at = 5000, sl_ends_at = 6000,
     sl_price_minor = 100\<rparr>"

definition example_booking :: booking where
  "example_booking = \<lparr>bk_id = 1, bk_slot_id = 0, bk_client_id = ''c'', bk_status = Pending,
     bk_created_at = 10, bk_updated_at = 10\<rparr>"

definition example_db :: booking_db where
  "example_db = \<lparr>slots = [example_slot], bookings = [example_booking], outbox = [], next_uuid = 2\<rparr>"

lemmas example_defs = example_db_def example_slot_def example_booking_def

lemma example_inv: "booking_inv example_db"
  by (simp add: example_defs booking_inv_def wf_db_def violated_constraint_None history_ok_def
      announced_def)

lemma example_wf: "wf_db example_db"
  using example_inv by (simp add: booking_inv_def)

section \<open>Booking\<close>

text \<open>
  C1. Booking a slot, on every branch: a missing slot, a slot that has started, a slot that a
  booking still holds are refused with their own errors and leave the database as it was; in every
  other case the booking is created pending, every stale booking of the slot (and no other) expires, and
  the outbox gains one \<open>booking.expired\<close> message per expired booking. No other error is possible,
  in particular no violated constraint reaches the caller.
\<close>

theorem book_slot_outcome:
  assumes "wf_db s" and "book_slot s sid client now ttl = (s', r)"
  shows "(r = Inl (Domain SlotNotFoundError) \<longleftrightarrow> sid \<notin> sl_id ` set (slots s))
    \<and> (r = Inl (Domain SlotInPastError) \<longleftrightarrow>
         (\<exists>sl \<in> set (slots s). sl_id sl = sid \<and> sl_starts_at sl \<le> now))
    \<and> (r = Inl (Domain SlotAlreadyBookedError) \<longleftrightarrow>
         (\<exists>sl \<in> set (slots s). sl_id sl = sid \<and> now < sl_starts_at sl)
         \<and> (\<exists>b \<in> set (bookings s). bk_slot_id b = sid \<and> holds_slot now ttl b))
    \<and> (\<forall>e. r = Inl e \<longrightarrow> s' = s \<and>
         e \<in> {Domain SlotNotFoundError, Domain SlotInPastError, Domain SlotAlreadyBookedError})
    \<and> (\<forall>b. r = Inr b \<longrightarrow>
         bk_slot_id b = sid \<and> bk_client_id b = client \<and> bk_status b = Pending
         \<and> bk_created_at b = now \<and> bk_id b \<notin> bk_id ` set (bookings s)
         \<and> slots s' = slots s
         \<and> bookings s' = map (\<lambda>c. if bk_slot_id c = sid \<and> is_stale c now ttl
                                  then set_status Expired now c else c) (bookings s) @ [b]
         \<and> map ob_topic (outbox s') = map ob_topic (outbox s)
             @ map (\<lambda>c. ''booking.expired'')
                 (filter (\<lambda>c. bk_slot_id c = sid \<and> is_stale c now ttl) (bookings s)))"
proof -
  note w = wf_dbD [OF assms(1)]
  have topics: "map ob_topic (event_messages n st EventExpired xs sl t)
      = map (\<lambda>c. ''booking.expired'') xs" for n st xs sl t
    by (induction n st EventExpired xs sl t rule: event_messages.induct) simp_all
  have fresh: "x \<in> set (bookings s) \<Longrightarrow> next_uuid s + k \<noteq> bk_id x" for x k
    using w(7) by fastforce
  have stale: "stale_on sid now ttl = (\<lambda>c. bk_slot_id c = sid \<and> is_stale c now ttl)"
    by (simp add: fun_eq_iff stale_on_def)
  show ?thesis
  proof (cases "get_by sl_id sid (slots s)")
    case None
    with assms(2) book_slot_cases [OF assms(1), of sid client now ttl] show ?thesis
      by (auto simp: get_by_None_iff)
  next
    case (Some sl)
    then have sl: "sl \<in> set (slots s)" "sl_id sl = sid" by (auto dest: get_by_SomeD)
    then have only: "x = sl" if "x \<in> set (slots s)" "sl_id x = sid" for x
      using that distinct_key_eq [OF w(1)] by metis
    from sl have known: "sid \<in> sl_id ` set (slots s)" by auto
    have slot: "(\<exists>x \<in> set (slots s). sl_id x = sid \<and> Q x) \<longleftrightarrow> Q sl" for Q
      using sl only by metis
    show ?thesis
      using assms(2) fresh unfolding book_slot_cases [OF assms(1)] Some option.case(2) slot Let_def
      by (auto simp: known topics stale update_where_def comp_def split: if_splits)
  qed
qed

theorem book_slot_outcome_witness:
  "snd (book_slot example_db 0 ''d'' 20 100) = Inl (Domain SlotAlreadyBookedError)
   \<and> fst (book_slot example_db 0 ''d'' 20 100) = example_db"
proof -
  obtain s' r where r: "book_slot example_db 0 ''d'' 20 100 = (s', r)" by fastforce
  have held: "(\<exists>sl \<in> set (slots example_db). sl_id sl = 0 \<and> 20 < sl_starts_at sl)
      \<and> (\<exists>b \<in> set (bookings example_db). bk_slot_id b = 0 \<and> holds_slot 20 100 b)"
    by (simp add: example_defs holds_slot_def)
  from book_slot_outcome [OF example_wf r] held r show ?thesis by auto
qed

text \<open>
  C2. The list of slots tells the truth: a slot is shown as free exactly when booking it at that
  moment, by any client, succeeds.
\<close>

theorem list_slots_book_slot:
  assumes "wf_db s" and "(sl, free) \<in> set (list_slots s master day now ttl)"
  shows "free \<longleftrightarrow> (\<exists>s' b. book_slot s (sl_id sl) client now ttl = (s', Inr b))"
proof -
  from assms(2) have sl: "sl \<in> set (slots s)"
    and free: "free \<longleftrightarrow> \<not> (\<exists>b \<in> set (bookings s). bk_slot_id b = sl_id sl \<and> holds_slot now ttl b)
        \<and> now < sl_starts_at sl"
    by (auto simp: list_slots_def Let_def list_ex_iff)
  have "get_by sl_id (sl_id sl) (slots s) = Some sl"
    by (rule get_by_eq_Some [OF wf_dbD(1) [OF assms(1)] sl])
  with free show ?thesis by (auto simp: book_slot_cases [OF assms(1)] Let_def)
qed

theorem list_slots_book_slot_witness:
  "list_slots example_db ''m'' None 200 100 = [(example_slot, True)]
   \<and> (\<exists>s' b. book_slot example_db 0 ''d'' 200 100 = (s', Inr b))"
proof -
  have l: "list_slots example_db ''m'' None 200 100 = [(example_slot, True)]"
    by (simp add: list_slots_def example_defs holds_slot_def)
  have "sl_id example_slot = 0" by (simp add: example_slot_def)
  with list_slots_book_slot [OF example_wf, of example_slot True "''m''" None 200 100 "''d''"] l
  show ?thesis by simp
qed

section \<open>Whose booking it is\<close>

text \<open>
  C3. Nobody learns of a booking they are not a side of: reading or cancelling a stranger's booking
  answers exactly what it answers for a booking that does not exist, and changes nothing.
\<close>

theorem stranger_sees_nothing:
  assumes "wf_db s" and "b \<in> set (bookings s)" and "sl \<in> set (slots s)" "sl_id sl = bk_slot_id b"
    and "\<not> is_side_of who (bk_client_id b) (sl_master_id sl)"
    and "missing \<notin> bk_id ` set (bookings s)"
  shows "get_owned_booking s (bk_id b) who = get_owned_booking s missing who
    \<and> cancel_booking s (bk_id b) who now = cancel_booking s missing who now
    \<and> cancel_booking s (bk_id b) who now = (s, Inl (Domain BookingNotFoundError))"
proof -
  have "get_booking s (bk_id b) = Inr b" using assms(1,2) by (simp add: get_booking_wf)
  moreover have "get_slot s (bk_slot_id b) = Inr sl"
    using get_by_eq_Some [OF wf_dbD(1) [OF assms(1)] assms(3)] assms(4) by (simp add: get_slot_def)
  moreover have "ensure_owner who (bk_client_id b) (sl_master_id sl) = Inl BookingNotFoundError"
    using assms(5) by (simp add: ensure_owner_Inl)
  moreover have "get_booking s missing = Inl (Domain BookingNotFoundError)"
    using assms(6) by (simp add: get_booking_Inl)
  ultimately show ?thesis by (simp add: get_owned_booking_def cancel_booking_def)
qed

theorem stranger_sees_nothing_witness:
  "cancel_booking example_db 1 \<lparr>subject = ''x'', id_role = Client\<rparr> 20
     = (example_db, Inl (Domain BookingNotFoundError))"
proof -
  let ?who = "\<lparr>subject = ''x'', id_role = Client\<rparr>"
  have "example_booking \<in> set (bookings example_db)" "example_slot \<in> set (slots example_db)"
    "sl_id example_slot = bk_slot_id example_booking"
    "\<not> is_side_of ?who (bk_client_id example_booking) (sl_master_id example_slot)"
    "7 \<notin> bk_id ` set (bookings example_db)"
    by (simp_all add: example_defs is_side_of_def)
  from stranger_sees_nothing [OF example_wf this, of 20, THEN conjunct2, THEN conjunct2]
  show ?thesis by (simp only: example_booking_def booking.simps)
qed

lemma get_slot_Inr: "get_slot s sid = Inr sl \<longleftrightarrow> get_by sl_id sid (slots s) = Some sl"
  by (simp add: get_slot_def split: option.splits)

lemma get_slot_wf:
  "wf_db s \<Longrightarrow> get_slot s sid = Inr sl \<longleftrightarrow> sl \<in> set (slots s) \<and> sl_id sl = sid"
  by (simp add: get_slot_Inr get_by_iff wf_dbD)

lemma guard_Inr:
  "(case r of Inl e \<Rightarrow> Inl (f e) | Inr _ \<Rightarrow> Inr x) = Inr y \<longleftrightarrow> r = Inr () \<and> x = y"
  by (cases r) simp_all

lemma get_owned_Inr:
  "get_owned_booking s bid who = Inr (b, sl) \<longleftrightarrow>
     get_booking s bid = Inr b \<and> get_slot s (bk_slot_id b) = Inr sl
     \<and> ensure_owner who (bk_client_id b) (sl_master_id sl) = Inr ()"
  unfolding get_owned_booking_def try_bind_Inr_iff guard_Inr by auto

lemma join_iff:
  "wf_db s \<Longrightarrow> (b, sl) \<in> set (concat (map (\<lambda>b. map (\<lambda>sl. (b, sl))
       (filter (\<lambda>sl. sl_id sl = bk_slot_id b) (slots s))) (bookings s)))
     \<longleftrightarrow> get_booking s (bk_id b) = Inr b \<and> get_slot s (bk_slot_id b) = Inr sl"
  by (auto simp: get_booking_wf get_slot_wf)

text \<open>
  C4. "My bookings" is the same rule written as a filter: the list holds exactly the bookings that
  reading them one by one would give the caller, each once, ordered by the start of the slot.
\<close>

theorem my_bookings_are_owned:
  assumes "wf_db s"
  shows "set (list_my_bookings s who)
      = {(b, sl). get_owned_booking s (bk_id b) who = Inr (b, sl)}
    \<and> distinct (list_my_bookings s who)
    \<and> sorted (map (sl_starts_at \<circ> snd) (list_my_bookings s who))"
proof -
  note w = wf_dbD [OF assms]
  let ?join = "concat (map (\<lambda>b. map (\<lambda>sl. (b, sl))
    (filter (\<lambda>sl. sl_id sl = bk_slot_id b) (slots s))) (bookings s))"
  have key: "(\<lambda>(b :: booking, sl). sl_starts_at sl) = sl_starts_at \<circ> snd"
    by (simp add: fun_eq_iff)
  have rule: "(\<lambda>(b, sl). if id_role who = Client then bk_client_id b = subject who
        else sl_master_id sl = subject who)
      = (\<lambda>(b, sl). ensure_owner who (bk_client_id b) (sl_master_id sl) = Inr ())"
    by (auto simp: fun_eq_iff ensure_owner_def Let_def)
  have "set (list_my_bookings s who) = {(b, sl). (b, sl) \<in> set ?join
      \<and> ensure_owner who (bk_client_id b) (sl_master_id sl) = Inr ()}"
    unfolding list_my_bookings_def set_sort set_filter rule by blast
  also have "\<dots> = {(b, sl). get_owned_booking s (bk_id b) who = Inr (b, sl)}"
    unfolding join_iff [OF assms] get_owned_Inr by auto
  finally have "set (list_my_bookings s who)
      = {(b, sl). get_owned_booking s (bk_id b) who = Inr (b, sl)}" .
  moreover have "distinct ?join"
  proof (rule distinct_concat)
    have inj: "inj_on (\<lambda>b. map (\<lambda>sl. (b, sl)) (filter (\<lambda>sl. sl_id sl = bk_slot_id b) (slots s)))
        (set (bookings s))"
    proof (rule inj_onI)
      fix b c assume b: "b \<in> set (bookings s)"
        and eq: "map (\<lambda>sl. (b, sl)) (filter (\<lambda>sl. sl_id sl = bk_slot_id b) (slots s))
          = map (\<lambda>sl. (c, sl)) (filter (\<lambda>sl. sl_id sl = bk_slot_id c) (slots s))"
      obtain sl where "sl \<in> set (slots s)" "sl_id sl = bk_slot_id b"
        using w(3) [OF b] by auto
      then have "(b, sl) \<in> set (map (\<lambda>sl. (b, sl)) (filter (\<lambda>sl. sl_id sl = bk_slot_id b) (slots s)))"
        by auto
      with eq show "b = c" by auto
    qed
    then show "distinct (map (\<lambda>b. map (\<lambda>sl. (b, sl))
        (filter (\<lambda>sl. sl_id sl = bk_slot_id b) (slots s))) (bookings s))"
      using w(2) by (auto simp: distinct_map)
  qed (use w(1) in \<open>auto simp: distinct_map inj_on_def\<close>)
  ultimately show ?thesis
    unfolding list_my_bookings_def key by (simp add: comp_def)
qed

theorem my_bookings_are_owned_witness:
  "(example_booking, example_slot)
     \<in> set (list_my_bookings example_db \<lparr>subject = ''c'', id_role = Client\<rparr>)"
  using my_bookings_are_owned [OF example_wf, of "\<lparr>subject = ''c'', id_role = Client\<rparr>"]
  by (simp add: get_owned_booking_def get_booking_def get_slot_def ensure_owner_def example_defs)

text \<open>
  A side of a booking may pay for it exactly while it is pending and holds its slot; as long as
  it may be paid for, nobody else can book the slot.
\<close>

theorem payable_holds_slot:
  assumes "wf_db s"
  shows "(get_payable_booking s bid who now ttl = Inr (b, sl) \<longleftrightarrow>
      get_owned_booking s bid who = Inr (b, sl) \<and> bk_status b = Pending \<and> holds_slot now ttl b)
    \<and> (get_payable_booking s bid who now ttl = Inr (b, sl) \<and> now < sl_starts_at sl \<longrightarrow>
      book_slot s (sl_id sl) other now ttl = (s, Inl (Domain SlotAlreadyBookedError)))"
proof (intro conjI impI)
  show iff: "get_payable_booking s bid who now ttl = Inr (b, sl) \<longleftrightarrow>
      get_owned_booking s bid who = Inr (b, sl) \<and> bk_status b = Pending \<and> holds_slot now ttl b"
    unfolding get_payable_booking_def try_bind_Inr_iff
    by (auto simp: holds_slot_iff is_active_iff split: if_splits)
  assume pay: "get_payable_booking s bid who now ttl = Inr (b, sl) \<and> now < sl_starts_at sl"
  with iff have "get_owned_booking s bid who = Inr (b, sl)" and h: "holds_slot now ttl b" by auto
  then have b: "b \<in> set (bookings s)" and got: "get_by sl_id (bk_slot_id b) (slots s) = Some sl"
    using assms by (simp_all add: get_owned_Inr get_booking_wf get_slot_Inr)
  from got have sl: "sl_id sl = bk_slot_id b" using get_by_SomeD by fastforce
  then have "\<exists>c \<in> set (bookings s). bk_slot_id c = sl_id sl \<and> holds_slot now ttl c"
    using b h by auto
  then show "book_slot s (sl_id sl) other now ttl = (s, Inl (Domain SlotAlreadyBookedError))"
    unfolding book_slot_cases [OF assms] using got sl pay by simp
qed

theorem payable_holds_slot_witness:
  "book_slot example_db 0 ''d'' 20 100 = (example_db, Inl (Domain SlotAlreadyBookedError))"
proof -
  have pay: "get_payable_booking example_db 1 \<lparr>subject = ''c'', id_role = Client\<rparr> 20 100
      = Inr (example_booking, example_slot)"
    by (simp add: get_payable_booking_def get_owned_booking_def get_booking_def get_slot_def
        ensure_owner_def is_stale_def example_defs)
  have "sl_id example_slot = 0" "20 < sl_starts_at example_slot" by (simp_all add: example_slot_def)
  with payable_holds_slot [OF example_wf, of 1 "\<lparr>subject = ''c'', id_role = Client\<rparr>" 20 100
      example_booking example_slot "''d''"] pay
  show ?thesis by simp
qed

section \<open>Changing a status\<close>

lemma announced_one:
  assumes wf: "wf_db s" and b: "b \<in> set (bookings s)" and ty: "event_type st = Some ty"
  shows "outbox (apply_change s (row_is b) st ty sl now) = outbox s
    @ [event_message (next_uuid s) st ty (bk_id b) (bk_client_id b) sl now]"
  using filter_row_is [OF wf_dbD(2) [OF wf] b, of b] by (simp add: row_is_def)

lemma update_row_is:
  assumes wf: "wf_db s" and b: "b \<in> set (bookings s)"
  shows "update_where (row_is b) f (bookings s)
    = map (\<lambda>r. if bk_id r = bk_id b then f r else r) (bookings s)"
  using distinct_key_eq [OF wf_dbD(2) [OF wf] _ b]
  by (auto simp: update_where_def row_is_def)

text \<open>
  C5. Changing a status, on every branch. An unknown booking and a transition that is not allowed
  are refused and nothing is written; the status the booking already has is a success that writes
  nothing; an allowed transition changes that row only and adds exactly one message, of the new
  status. Asking again for the same status is then a success that changes nothing: a retry after a
  lost answer is safe.
\<close>

theorem change_status_outcome:
  assumes "wf_db s"
  shows "case get_by bk_id bid (bookings s) of
      None \<Rightarrow> change_status s bid target now = (s, Inl (Domain BookingNotFoundError))
    | Some b \<Rightarrow>
        if bk_status b = target then change_status s bid target now = (s, Inr b)
        else if target \<notin> set (ALLOWED_TRANSITIONS (bk_status b))
        then change_status s bid target now = (s, Inl (Domain InvalidTransitionError))
        else (\<exists>s' m ty. change_status s bid target now = (s', Inr (set_status target now b))
           \<and> slots s' = slots s
           \<and> bookings s' = map (\<lambda>r. if bk_id r = bid then set_status target now r else r) (bookings s)
           \<and> outbox s' = outbox s @ [m] \<and> event_type target = Some ty
           \<and> ob_topic m = event_value ty \<and> about bid m \<and> ob_published_at m = None
           \<and> change_status s' bid target later = (s', Inr (set_status target now b)))"
proof (cases "get_by bk_id bid (bookings s)")
  case None
  then show ?thesis by (simp add: change_status_cases [OF assms])
next
  case (Some b)
  then have b: "b \<in> set (bookings s)" and bid: "bk_id b = bid" by (auto dest: get_by_SomeD)
  show ?thesis
  proof (cases "bk_status b = target \<or> target \<notin> set (ALLOWED_TRANSITIONS (bk_status b))")
    case True
    with Some show ?thesis by (auto simp: change_status_cases [OF assms])
  next
    case False
    then obtain ty where ty: "event_type target = Some ty"
      by (cases "bk_status b"; cases target) (auto simp: event_type_def)
    let ?sl = "the (get_by sl_id (bk_slot_id b) (slots s))"
    let ?s = "apply_change s (row_is b) target ty ?sl now"
    let ?m = "event_message (next_uuid s) target ty (bk_id b) (bk_client_id b) ?sl now"
    have run: "change_status s bid target now = (?s, Inr (set_status target now b))"
      using False Some ty by (simp add: change_status_cases [OF assms])
    have "wf_db ?s"
      by (rule apply_change_wf [OF assms]) (use False in \<open>simp add: row_is_def\<close>)
    moreover have "get_by bk_id bid (bookings ?s) = Some (set_status target now b)"
      using Some by (simp add: get_by_update_where row_is_def bid)
    ultimately have again: "change_status ?s bid target later = (?s, Inr (set_status target now b))"
      by (simp add: change_status_cases)
    have "bookings ?s = map (\<lambda>r. if bk_id r = bid then set_status target now r else r) (bookings s)"
      by (simp add: update_row_is [OF assms b] bid)
    moreover have "outbox ?s = outbox s @ [?m]" by (rule announced_one [OF assms b ty])
    moreover have "about bid ?m" "ob_topic ?m = event_value ty" "ob_published_at ?m = None"
      using ty bid by (simp, simp, simp add: event_message_def)
    moreover have "slots ?s = slots s" by simp
    ultimately show ?thesis using Some False run again ty by fastforce
  qed
qed

theorem change_status_outcome_witness:
  "\<exists>s' m. change_status example_db 1 Confirmed 20 = (s', Inr (set_status Confirmed 20 example_booking))
     \<and> outbox s' = [m] \<and> ob_topic m = ''booking.confirmed''
     \<and> change_status s' 1 Confirmed 30 = (s', Inr (set_status Confirmed 20 example_booking))"
proof -
  have "get_by bk_id 1 (bookings example_db) = Some example_booking"
    "bk_status example_booking = Pending" "outbox example_db = []"
    by (simp_all add: example_defs)
  with change_status_outcome [OF example_wf, of 1 Confirmed 20 30] show ?thesis
    by (auto simp: event_type_def)
qed

text \<open>
  A cancelled booking gives its slot back: if anyone's booking of a slot was cancelled and the
  slot has not started, the next client who asks gets it.
\<close>

theorem cancel_frees_slot:
  assumes "wf_db s" and "get_owned_booking s bid who = Inr (b, sl)"
    and "is_active b" and "now < sl_starts_at sl"
  shows "\<exists>s' s'' c. cancel_booking s bid who now = (s', Inr (set_status Cancelled now b))
    \<and> book_slot s' (sl_id sl) other now ttl = (s'', Inr c)
    \<and> bk_client_id c = other \<and> bk_slot_id c = bk_slot_id b"
proof -
  from assms(1,2) have got: "get_by bk_id bid (bookings s) = Some b" "b \<in> set (bookings s)"
    and sl: "get_by sl_id (bk_slot_id b) (slots s) = Some sl" "sl_id sl = bk_slot_id b"
    by (auto simp: get_owned_Inr get_booking_Inr get_booking_wf get_slot_Inr dest: get_by_SomeD)
  then have bid: "bk_id b = bid" by (auto dest: get_by_SomeD)
  have may: "Cancelled \<in> set (ALLOWED_TRANSITIONS (bk_status b))" "bk_status b \<noteq> Cancelled"
    using assms(3) by (auto simp: is_active_iff)
  let ?s = "apply_change s (row_is b) Cancelled EventCancelled sl now"
  have cancel: "cancel_booking s bid who now = (?s, Inr (set_status Cancelled now b))"
    using assms(2) may got sl
    by (simp add: cancel_booking_def bid change_status_cases [OF assms(1)] event_type_def)
  have wf: "wf_db ?s"
    by (rule apply_change_wf [OF assms(1)]) (use may in \<open>simp add: row_is_def\<close>)
  have "\<not> holds_slot now ttl c" if c: "c \<in> set (bookings ?s)" "bk_slot_id c = sl_id sl" for c
  proof -
    from c obtain r where r: "r \<in> set (bookings s)"
      and c_eq: "c = (if bk_id r = bk_id b then set_status Cancelled now r else r)"
      by (auto simp: update_row_is [OF assms(1) got(2)])
    show ?thesis
    proof (cases "bk_id r = bk_id b")
      case True
      with c_eq show ?thesis by (simp add: holds_slot_def)
    next
      case False
      have "\<not> is_active r"
      proof
        assume act: "is_active r"
        have "distinct (map bk_slot_id (filter is_active (bookings s)))"
          using wf_dbD(4) [OF assms(1)] by (simp add: unique_index_def)
        then have "r = b"
          by (rule distinct_key_eq) (use r act assms(3) got c c_eq sl False in simp_all)
        with False show False by simp
      qed
      with False c_eq show ?thesis by (simp add: holds_slot_iff)
    qed
  qed
  moreover have "get_by sl_id (sl_id sl) (slots ?s) = Some sl" using sl by simp
  ultimately obtain s'' c where "book_slot ?s (sl_id sl) other now ttl = (s'', Inr c)"
    "bk_client_id c = other" "bk_slot_id c = sl_id sl"
    using assms(4) by (auto simp: book_slot_cases [OF wf] Let_def)
  with cancel sl show ?thesis by auto
qed

theorem cancel_frees_slot_witness:
  "\<exists>s' s'' c. cancel_booking example_db 1 \<lparr>subject = ''m'', id_role = Master\<rparr> 20
       = (s', Inr (set_status Cancelled 20 example_booking))
     \<and> book_slot s' 0 ''d'' 20 100 = (s'', Inr c) \<and> bk_client_id c = ''d''"
proof -
  have "get_owned_booking example_db 1 \<lparr>subject = ''m'', id_role = Master\<rparr>
      = Inr (example_booking, example_slot)"
    by (simp add: get_owned_booking_def get_booking_def get_slot_def ensure_owner_def example_defs)
  moreover have "is_active example_booking" "20 < sl_starts_at example_slot" "sl_id example_slot = 0"
    by (simp_all add: example_defs is_active_iff)
  ultimately show ?thesis
    using cancel_frees_slot [OF example_wf, of 1 "\<lparr>subject = ''m'', id_role = Master\<rparr>"
      example_booking example_slot 20 "''d''" 100] by auto
qed

section \<open>Requests that interleave\<close>

lemma reachable_booking_inv:
  "reachable_from starts_empty (booking_step publish) w \<Longrightarrow> booking_inv (db w)"
  using system.reachable_inv by (auto simp: world_inv_def)

lemma example_moments:
  "moment_of (utc_datetime 5000) = Some 5000" "moment_of (utc_datetime 6000) = Some 6000"
  by (rule moment_of_utc_datetime, code_simp)+

lemma example_created:
  "create_slot empty_db ''m'' (utc_datetime 5000) (utc_datetime 6000) 100 5
     = (\<lparr>slots = [example_slot], bookings = [], outbox = [], next_uuid = Suc 0\<rparr>, Inr example_slot)"
  by (simp add: create_slot_cases wf_dbD empty_inv [unfolded booking_inv_def, THEN conjunct1]
      example_moments Let_def) (simp add: empty_db_def example_slot_def)

lemma example_booked:
  "book_slot \<lparr>slots = [example_slot], bookings = [], outbox = [], next_uuid = Suc 0\<rparr> 0 ''c'' 10 100
     = (example_db, Inr example_booking)"
  by (simp add: book_slot_def example_defs ensure_bookable_def update_where_def
      violated_constraint_def Let_def)

definition example_world :: "'w \<Rightarrow> 'w booking_world" where
  "example_world v = \<lparr>db = example_db,
     inflight = [(example_booking, Confirmed), (example_booking, Cancelled)], broker = v\<rparr>"

lemma example_reachable: "reachable_from starts_empty (booking_step publish) (example_world v)"
proof -
  let ?R = "reachable_from starts_empty (booking_step publish)"
  have "?R \<lparr>db = empty_db, inflight = [], broker = v\<rparr>"
    by (rule reach_start) (simp add: starts_empty_def)
  from reach_step [OF this step_create_slot [of publish _ "''m''" "utc_datetime 5000" "utc_datetime 6000" 100 5]]
  have "?R \<lparr>db = \<lparr>slots = [example_slot], bookings = [], outbox = [], next_uuid = Suc 0\<rparr>,
      inflight = [], broker = v\<rparr>"
    by (simp add: example_created)
  from reach_step [OF this step_book_slot [of publish _ 0 "''c''" 10 100]]
  have r: "?R \<lparr>db = example_db, inflight = [], broker = v\<rparr>"
    by (simp add: example_booked)
  have got: "get_booking example_db 1 = Inr example_booking" "bk_status example_booking = Pending"
    by (simp_all add: get_booking_def example_defs)
  have "?R \<lparr>db = example_db, inflight = [(example_booking, Cancelled)], broker = v\<rparr>"
    using reach_step [OF r step_read [of _ 1 example_booking Cancelled publish]] got
    by (simp add: ensure_transition_def)
  from reach_step [OF this step_read [of _ 1 example_booking Confirmed publish]] got
  show ?thesis by (simp add: ensure_transition_def example_world_def)
qed

text \<open>
  C6. No double booking. In every state the service can reach, whatever requests run and however
  they interleave, a slot has at most one active booking, every booking names an existing slot, and
  at any moment and for any time to live at most one booking holds a slot.
\<close>

theorem no_double_booking:
  assumes "reachable_from starts_empty (booking_step publish) w"
  shows "length (filter (\<lambda>b. is_active b \<and> bk_slot_id b = sid) (bookings (db w))) \<le> 1
    \<and> length (filter (\<lambda>b. holds_slot now ttl b \<and> bk_slot_id b = sid) (bookings (db w))) \<le> 1
    \<and> bk_slot_id ` set (bookings (db w)) \<subseteq> sl_id ` set (slots (db w))"
proof -
  have wf: "wf_db (db w)" using reachable_booking_inv [OF assms] by (simp add: booking_inv_def)
  have one: "length (filter (\<lambda>b. is_active b \<and> bk_slot_id b = sid) (bookings (db w))) \<le> 1"
    by (rule unique_index_filter_le1 [OF wf_dbD(4) [OF wf]])
  have "length (filter (\<lambda>b. holds_slot now ttl b \<and> bk_slot_id b = sid) bs)
      \<le> length (filter (\<lambda>b. is_active b \<and> bk_slot_id b = sid) bs)" for bs
    by (induction bs) (auto simp: holds_slot_iff le_SucI)
  with one wf_dbD(3) [OF wf] show ?thesis by (auto intro: le_trans)
qed

theorem no_double_booking_witness:
  "length (filter (\<lambda>b. is_active b \<and> bk_slot_id b = 0) (bookings (db (example_world ())))) \<le> 1"
  using no_double_booking [OF example_reachable [of "\<lambda>_ _ v. (v, Inr ())" "()"]] by blast

text \<open>
  C7. The outbox tells the history of every booking. In every reachable state (before the 128 bits
  of the ids run out) the topics of the messages about a booking, in the order of their ids, are the
  status changes that led to its status, each once and in their order: nothing for a pending
  booking, a confirmation before a later cancellation; and every message is about a booking.
\<close>

theorem outbox_tells_history:
  assumes "reachable_from starts_empty (booking_step publish) w" and "next_uuid (db w) \<le> 2 ^ 128"
  shows "sorted_wrt (<) (map ob_id (outbox (db w)))
    \<and> (\<forall>b \<in> set (bookings (db w)). announced (db w) (bk_id b) \<in> set (
         case bk_status b of
           Pending \<Rightarrow> [[]]
         | Confirmed \<Rightarrow> [[''booking.confirmed'']]
         | Cancelled \<Rightarrow> [[''booking.cancelled''], [''booking.confirmed'', ''booking.cancelled'']]
         | Expired \<Rightarrow> [[''booking.expired'']]))
    \<and> (\<forall>m \<in> set (outbox (db w)). \<exists>b \<in> set (bookings (db w)). about (bk_id b) m)"
proof -
  have inv: "wf_db (db w)" "history_ok (db w)"
    using reachable_booking_inv [OF assms(1)] assms(2) by (auto simp: booking_inv_def)
  have "histories st = (case st of Pending \<Rightarrow> [[]] | Confirmed \<Rightarrow> [[''booking.confirmed'']]
      | Cancelled \<Rightarrow> [[''booking.cancelled''], [''booking.confirmed'', ''booking.cancelled'']]
      | Expired \<Rightarrow> [[''booking.expired'']])" for st
    by (cases st) simp_all
  with inv wf_dbD(9) [OF inv(1)] show ?thesis by (simp add: history_ok_def)
qed

theorem outbox_tells_history_witness:
  "announced (db (example_world ())) 1 = []"
  using outbox_tells_history [OF example_reachable [of "\<lambda>_ _ v. (v, Inr ())" "()"]]
  by (simp add: example_world_def example_defs)

text \<open>
  C8. Two requests that read the same booking race for one conditional update: if the first write
  went through, the second finds the row changed, is refused, and writes nothing, even when both
  wanted the same status; the first keeps its change and its single message.
\<close>

theorem race_has_one_winner:
  assumes "reachable_from starts_empty (booking_step publish) w"
    and "(b, target1) \<in> set (inflight w)" and "(b, target2) \<in> set (inflight w)"
    and "write_status (db w) b target1 now = (s', Inr b')"
  shows "write_status s' b target2 later = (s', Inl (Domain InvalidTransitionError))
    \<and> bk_status b' = target1 \<and> length (outbox s') = length (outbox (db w)) + 1"
proof -
  have inv: "world_inv w" using assms(1) by (rule system.reachable_inv)
  then have wf: "wf_db (db w)" and r: "requests_ok w" by (auto simp: world_inv_def booking_inv_def)
  from r assms(2) obtain q where q: "q \<in> set (bookings (db w))" "same_booking b q"
    and ok: "target1 \<in> set (ALLOWED_TRANSITIONS (bk_status b))"
    by (auto simp: requests_ok_def)
  have "\<exists>x \<in> set (bookings (db w)). row_is b x"
    using assms(4) write_status_stale [of "db w" b target1 now] by fastforce
  then have row: "row_is b q"
    using distinct_key_eq [OF wf_dbD(2) [OF wf] _ q(1)] q(2)
    by (auto simp: row_is_def same_booking_def)
  obtain ty where ty: "event_type target1 = Some ty"
    using ok by (cases "bk_status b"; cases target1) (auto simp: event_type_def)
  obtain sl where sl: "get_by sl_id (bk_slot_id b) (slots (db w)) = Some sl"
    using wf_dbD(1,3) [OF wf] q by (metis get_by_eq_Some image_iff same_booking_def)
  have s': "s' = apply_change (db w) (row_is b) target1 ty sl now" "b' = set_status target1 now q"
    using assms(4) write_status_ok [OF wf q(1) row q(2) ok ty sl] by auto
  have one: "filter (row_is b) (bookings (db w)) = [q]"
    by (rule filter_row_is [OF wf_dbD(2) [OF wf] q(1) row])
  have "target1 \<noteq> bk_status b" using ok by (cases target1; cases "bk_status b") auto
  then have "\<not> row_is b (if row_is b x then set_status target1 now x else x)" for x
    by (simp add: row_is_def)
  then have "\<not> (\<exists>x \<in> set (bookings s'). row_is b x)"
    unfolding s' apply_change_simps set_update_where by blast
  then show ?thesis
    by (simp add: write_status_stale) (simp add: s' one)
qed

theorem race_has_one_winner_witness:
  "\<exists>s' b'. write_status example_db example_booking Confirmed 20 = (s', Inr b')
     \<and> write_status s' example_booking Cancelled 20 = (s', Inl (Domain InvalidTransitionError))"
proof -
  have "get_by sl_id (bk_slot_id example_booking) (slots example_db) = Some example_slot"
    "example_booking \<in> set (bookings example_db)" "row_is example_booking example_booking"
    "Confirmed \<in> set (ALLOWED_TRANSITIONS (bk_status example_booking))"
    by (simp_all add: example_defs row_is_def)
  then have w: "write_status example_db example_booking Confirmed 20
      = (apply_change example_db (row_is example_booking) Confirmed EventConfirmed example_slot 20,
         Inr (set_status Confirmed 20 example_booking))"
    using write_status_ok [OF example_wf] by (simp add: event_type_def)
  then show ?thesis
    using race_has_one_winner [OF example_reachable [of "\<lambda>_ _ v. (v, Inr ())" "()"],
        of example_booking Confirmed Cancelled 20 _ _ 20]
    by (fastforce simp: example_world_def)
qed

end
