(* ===== verification/Booking_Delivery.thy ===== *)
theory Booking_Delivery
  imports Booking_Properties
begin

text \<open>
  What the relay of \<open>outbox.py\<close> does with the outbox: nothing is marked without having been
  accepted, a broker that accepts drains the outbox, and what a failure in the middle of a batch
  undoes.
\<close>

section \<open>Batches\<close>

lemma pending_ids:
  "map ob_id (pending_messages locked n ms) =
     take n (sort (map ob_id (filter (\<lambda>m. ob_published_at m = None \<and> \<not> locked (ob_id m)) ms)))"
  by (simp add: pending_messages_def take_map [symmetric] map_sort_key)

lemma pendingD:
  "m \<in> set (pending_messages locked n ms) \<Longrightarrow>
     m \<in> set ms \<and> ob_published_at m = None \<and> \<not> locked (ob_id m)"
  by (auto simp: pending_messages_def dest: in_set_takeD)

lemma sent_form_row:
  assumes "wf_db s" "delivery_only s t" "m \<in> set (outbox s)" "r \<in> set (outbox t)" "ob_id r = ob_id m"
  shows "ob_topic r = ob_topic m \<and> ob_payload r = ob_payload m"
proof -
  have "sent_form ` set (outbox t) = sent_form ` set (outbox s)"
    using assms(2) by (metis delivery_only_def list.set_map)
  with assms(4) obtain k where k: "k \<in> set (outbox s)" "sent_form k = sent_form r"
    by (metis image_iff)
  with assms(5) have "k = m"
    using distinct_key_eq [OF wf_dbD(5) [OF assms(1)] _ assms(3)] by (simp add: sent_form_def)
  with k show ?thesis by (simp add: sent_form_def)
qed

section \<open>Nothing is marked that was not accepted\<close>

lemma logged_mark:
  assumes wf: "wf_db s" and only: "delivery_only s t" and m: "m \<in> set (outbox s)"
    and ok: "published_logged log t v" and keeps: "keeps_log publish log"
    and acc: "publish (ob_topic m) (ob_payload m) v = (v', Inr u)"
  shows "published_logged log (mark_published now m t) v'"
  unfolding published_logged_def
proof (intro ballI impI)
  fix r assume r: "r \<in> set (outbox (mark_published now m t))" and p: "ob_published_at r \<noteq> None"
  from keeps acc have grow: "log v \<subseteq> log v'" "(ob_topic m, ob_payload m) \<in> log v'"
    unfolding keeps_log_def by (metis fst_conv, metis fst_conv snd_conv old.unit.exhaust)
  from r obtain q where q: "q \<in> set (outbox t)"
    and rq: "r = (if ob_id q = ob_id m then q\<lparr>ob_published_at := Some now\<rparr> else q)"
    by (auto simp: mark_published_def set_update_where)
  show "(ob_topic r, ob_payload r) \<in> log v'"
  proof (cases "ob_id q = ob_id m")
    case True
    with sent_form_row [OF wf only m q] rq grow show ?thesis by simp
  next
    case False
    with rq p q ok grow show ?thesis by (auto simp: published_logged_def)
  qed
qed

lemma delivered_logged:
  assumes wf: "wf_db s" and keeps: "keeps_log publish log" and start: "published_logged log s v"
    and ms: "set ms \<subseteq> set (outbox s)"
    and run: "delivered (publish_message publish) (mark_published now) ms s v = Some (s', v')"
  shows "published_logged log s' v' \<and> log v \<subseteq> log v'"
proof -
  have "delivery_only s s' \<and> published_logged log s' v' \<and> log v \<subseteq> log v'"
  proof (rule relay.delivered_inv [OF run,
        where I = "\<lambda>t x. delivery_only s t \<and> published_logged log t x \<and> log v \<subseteq> log x"])
    show "delivery_only s s \<and> published_logged log s v \<and> log v \<subseteq> log v" using start by simp
  next
    fix m t x t' x' u
    assume m: "m \<in> set ms" and I: "delivery_only s t \<and> published_logged log t x \<and> log v \<subseteq> log x"
      and d: "publish_message publish m t x = (t', x', Inr u)"
    from d have t: "t' = t" and acc: "publish (ob_topic m) (ob_payload m) x = (x', Inr u)"
      by (auto simp: publish_message_def Let_def split: prod.splits)
    have "log x \<subseteq> log x'" using keeps acc unfolding keeps_log_def by (metis fst_conv)
    moreover have "published_logged log (mark_published now m t) x'"
      by (rule logged_mark [OF wf _ _ _ keeps acc]) (use I m ms in auto)
    ultimately show "delivery_only s (mark_published now m t')
        \<and> published_logged log (mark_published now m t') x' \<and> log v \<subseteq> log x'"
      using I t by (auto intro: delivery_only_trans delivery_only_mark)
  qed
  then show ?thesis by simp
qed

lemma logged_grow: "published_logged log s v \<Longrightarrow> log v \<subseteq> log v' \<Longrightarrow> published_logged log s v'"
  by (auto simp: published_logged_def)

lemma logged_failure:
  assumes "published_logged log s v"
  shows "published_logged log (record_failure m e s) v"
  unfolding published_logged_def
proof (intro ballI impI)
  fix r assume "r \<in> set (outbox (record_failure m e s))" and p: "ob_published_at r \<noteq> None"
  then obtain q where "q \<in> set (outbox s)" "ob_topic r = ob_topic q" "ob_payload r = ob_payload q"
    "ob_published_at r = ob_published_at q"
    by (auto simp: record_failure_def set_update_where)
  with p assms show "(ob_topic r, ob_payload r) \<in> log v" by (simp add: published_logged_def)
qed

lemma publish_pending_logged:
  assumes "wf_db s" "keeps_log publish log" "published_logged log s v"
    and "publish_pending publish locked now n s v = (s', v', sent)"
  shows "published_logged log s' v'"
proof (rule relay.loop_cases [of publish now "pending_messages locked n (outbox s)" s v])
  fix t x assume d: "delivered (publish_message publish) (mark_published now)
      (pending_messages locked n (outbox s)) s v = Some (t, x)"
  have "published_logged log t x"
    using delivered_logged [OF assms(1,2,3) _ d] pendingD by blast
  with assms(4) relay.loop_all [OF d] show ?thesis by (auto simp: publish_pending_def)
next
  fix pre m post s1 w1 s2 w2 e
  assume split: "pending_messages locked n (outbox s) = pre @ m # post"
    and d: "delivered (publish_message publish) (mark_published now) pre s v = Some (s1, w1)"
    and f: "publish_message publish m s1 w1 = (s2, w2, Inl e)"
  have "x \<in> set (outbox s)" if "x \<in> set pre" for x
    using that split pendingD [of x locked n "outbox s"] by simp
  then have "log v \<subseteq> log w1"
    using delivered_logged [OF assms(1,2,3) _ d] by blast
  moreover have "log w1 \<subseteq> log w2"
  proof -
    have "fst (publish (ob_topic m) (ob_payload m) w1) = w2"
      using f by (simp add: publish_message_def split: prod.splits)
    with assms(2) show ?thesis unfolding keeps_log_def by blast
  qed
  ultimately have "log v \<subseteq> log w2" by simp
  then have "published_logged log s w2" by (rule logged_grow [OF assms(3)])
  then have "published_logged log (record_failure m e s) w2"
    by (rule logged_failure)
  with assms(4) split relay.loop_stops [OF d f] show ?thesis by (simp add: publish_pending_def)
qed

lemma apply_change_logged:
  "published_logged log s v \<Longrightarrow> published_logged log (apply_change s P st ty sl now) v"
  by (auto simp: published_logged_def dest: event_messages_unpublished)

lemma book_slot_logged:
  "wf_db s \<Longrightarrow> published_logged log s v \<Longrightarrow> published_logged log (fst (book_slot s sid client now ttl)) v"
  using apply_change_logged [of log s v]
  by (auto simp: book_slot_cases Let_def published_logged_def split: option.splits)

lemma write_status_logged:
  assumes "published_logged log s v"
  shows "published_logged log (fst (write_status s b target now)) v"
proof -
  have "outbox s' = outbox t \<or> (\<exists>m. outbox s' = outbox t @ [m] \<and> ob_published_at m = None)"
    if "enqueue_event t target bid c sl now = Inr s'" for t bid c sl s'
    using that by (cases "event_type target")
      (auto simp: event_type_None enqueue_event_Some event_message_def)
  then show ?thesis
    using assms by (fastforce simp: write_status_def published_logged_def Let_def try_bind_def
        split: sum.splits option.splits)
qed

definition delivery_inv ::
  "'w publisher \<Rightarrow> ('w \<Rightarrow> (string \<times> (string \<times> json) list) set) \<Rightarrow> 'w booking_world \<Rightarrow> bool" where
  "delivery_inv publish log w \<longleftrightarrow>
     world_inv w \<and> (keeps_log publish log \<longrightarrow> published_logged log (db w) (broker w))"

lemma delivery_step:
  assumes step: "booking_step publish w w'" and inv: "delivery_inv publish log w"
  shows "delivery_inv publish log w'"
proof -
  from inv have world: "world_inv w" and wf: "wf_db (db w)"
    by (auto simp: delivery_inv_def world_inv_def booking_inv_def)
  have "published_logged log (db w') (broker w')"
    if keeps: "keeps_log publish log" and pl: "published_logged log (db w) (broker w)"
    using step
  proof (cases rule: booking_step.cases)
    case (step_create_slot master st en price now)
    then show ?thesis
      using pl by (auto simp: create_slot_cases [OF wf] published_logged_def Let_def split: option.splits)
  next
    case (step_book_slot sid client now ttl)
    then show ?thesis using book_slot_logged [OF wf pl] by simp
  next
    case (step_read bid b target)
    then show ?thesis using pl by simp
  next
    case (step_write b target now)
    then show ?thesis using write_status_logged [OF pl] by simp
  next
    case (step_relay locked now n s v sent)
    then show ?thesis using publish_pending_logged [OF wf keeps pl] by simp
  next
    case (step_relay_crash locked n pre post now s v)
    have "x \<in> set (outbox (db w))" if "x \<in> set pre" for x
      using that step_relay_crash(2) pendingD [of x locked n "outbox (db w)"] by simp
    then have "log (broker w) \<subseteq> log v"
      using delivered_logged [OF wf keeps pl _ step_relay_crash(3)] by blast
    with step_relay_crash pl show ?thesis by (simp add: logged_grow)
  qed
  with inv booking_step_inv [OF step world] show ?thesis by (auto simp: delivery_inv_def)
qed

interpretation delivery: invariant_system starts_empty "booking_step publish" "delivery_inv publish log"
  for publish :: "'w publisher" and log :: "'w \<Rightarrow> (string \<times> (string \<times> json) list) set"
proof unfold_locales
  fix w :: "'w booking_world"
  assume "starts_empty w"
  then show "delivery_inv publish log w"
    using system.start_inv [of w] by (simp add: delivery_inv_def starts_empty_def published_logged_def empty_db_def)
qed (rule delivery_step)

text \<open>
  C15. Never a loss: in every reachable state, whatever the broker answers, whichever rows other
  relays hold and wherever a relay crashed, a message whose row says it was published is in the
  broker's log. The only thing asked of the broker is that it keeps what it accepted.
\<close>

theorem published_is_in_log:
  assumes "reachable_from starts_empty (booking_step publish) w" and "keeps_log publish log"
    and "m \<in> set (outbox (db w))" and "ob_published_at m \<noteq> None"
  shows "(ob_topic m, ob_payload m) \<in> log (broker w)"
  using delivery.reachable_inv [OF assms(1), of log] assms(2-)
  by (auto simp: delivery_inv_def published_logged_def)

text \<open>A broker that keeps a list of what it accepted, and refuses from the third message on.\<close>

definition small_broker :: "(string \<times> (string \<times> json) list) list publisher" where
  "small_broker topic payload v =
     (if length v < 2 then (v @ [(topic, payload)], Inr ()) else (v, Inl ''full''))"

lemma small_broker_keeps: "keeps_log small_broker set"
  by (auto simp: keeps_log_def small_broker_def)

definition confirmed_message :: outbox_message where
  "confirmed_message = event_message 2 Confirmed EventConfirmed 1 ''c'' example_slot 20"

lemma example_confirmed:
  "write_status example_db example_booking Confirmed 20
    = (\<lparr>slots = [example_slot], bookings = [set_status Confirmed 20 example_booking],
        outbox = [confirmed_message], next_uuid = 3\<rparr>, Inr (set_status Confirmed 20 example_booking))"
proof -
  have "get_by sl_id (bk_slot_id example_booking) (slots example_db) = Some example_slot"
    "example_booking \<in> set (bookings example_db)" "row_is example_booking example_booking"
    "Confirmed \<in> set (ALLOWED_TRANSITIONS (bk_status example_booking))"
    by (simp_all add: example_defs row_is_def)
  then have "write_status example_db example_booking Confirmed 20
      = (apply_change example_db (row_is example_booking) Confirmed EventConfirmed example_slot 20,
         Inr (set_status Confirmed 20 example_booking))"
    using write_status_ok [OF example_wf] by (simp add: event_type_def)
  moreover have "apply_change example_db (row_is example_booking) Confirmed EventConfirmed example_slot 20
      = \<lparr>slots = [example_slot], bookings = [set_status Confirmed 20 example_booking],
         outbox = [confirmed_message], next_uuid = 3\<rparr>"
    by (simp add: apply_change_def row_is_def update_where_def confirmed_message_def example_db_def
        example_booking_def numeral_2_eq_2 numeral_3_eq_3)
  ultimately show ?thesis by simp
qed

definition confirmed_db :: booking_db where
  "confirmed_db = fst (write_status example_db example_booking Confirmed 20)"

lemma confirmed_db_simps:
  "outbox confirmed_db = [confirmed_message]" "slots confirmed_db = [example_slot]"
  by (simp_all add: confirmed_db_def example_confirmed)

lemma confirmed_reachable:
  "reachable_from starts_empty (booking_step publish)
     \<lparr>db = confirmed_db, inflight = [(example_booking, Cancelled)], broker = v\<rparr>"
  using reach_step [OF example_reachable step_write [of example_booking Confirmed _ publish 20], of v]
  by (simp add: example_world_def confirmed_db_def)

lemma example_publish:
  "publish_pending small_broker (\<lambda>_. False) 30 100 confirmed_db []
     = (mark_published 30 confirmed_message confirmed_db,
        [(''booking.confirmed'', ob_payload confirmed_message)], 1)"
  by (simp add: publish_pending_def pending_messages_def confirmed_db_simps small_broker_def)
    (simp add: confirmed_message_def event_message_def)

theorem published_is_in_log_witness:
  "\<exists>m :: outbox_message. (ob_topic m, ob_payload m) \<in> set [(''booking.confirmed'', ob_payload confirmed_message)]
     \<and> ob_published_at m = Some 30"
proof -
  let ?s = "mark_published 30 confirmed_message confirmed_db"
  let ?m = "confirmed_message\<lparr>ob_published_at := Some 30\<rparr>"
  have "reachable_from starts_empty (booking_step small_broker)
      \<lparr>db = ?s, inflight = [(example_booking, Cancelled)],
       broker = [(''booking.confirmed'', ob_payload confirmed_message)]\<rparr>"
    using reach_step [OF confirmed_reachable step_relay, of small_broker "\<lambda>_. False" 30 100 "[]"]
    by (simp add: example_publish)
  moreover have "?m \<in> set (outbox ?s)"
    by (simp add: mark_published_def confirmed_db_simps update_where_def)
  ultimately have "(ob_topic ?m, ob_payload ?m)
      \<in> set [(''booking.confirmed'', ob_payload confirmed_message)]"
    using published_is_in_log [OF _ small_broker_keeps, of _ ?m] by fastforce
  moreover have "ob_published_at ?m = Some 30" by simp
  ultimately show ?thesis by blast
qed

section \<open>A failure in the middle of a batch\<close>

text \<open>
  C16. When a publish fails, the rollback takes the marks of the messages the broker accepted
  before it in the same batch: after the call the database is the one before it but for the failed
  row, although the call counts the accepted messages; the next batch begins with those messages
  again, and the loop does not pause if there was one.
\<close>

theorem failure_forgets_accepted:
  assumes "pending_messages locked n (outbox s) = pre @ m # post"
    and "delivered (publish_message publish) (mark_published now) pre s w = Some (s1, w1)"
    and "publish (ob_topic m) (ob_payload m) w1 = (w2, Inl e)"
  shows "publish_pending publish locked now n s w = (record_failure m e s, w2, int (length pre))
    \<and> map ob_id (pending_messages locked n (outbox (record_failure m e s)))
        = map ob_id (pre @ m # post)
    \<and> (n = BATCH_SIZE \<and> pre \<noteq> [] \<longrightarrow>
         snd (snd (snd (relay_cycle publish hb locked now files s w))) = False)"
proof -
  have f: "publish_message publish m s1 w1 = (s1, w2, Inl e)"
    using assms(3) by (simp add: publish_message_def)
  have run: "publish_pending publish locked now n s w = (record_failure m e s, w2, int (length pre))"
    unfolding publish_pending_def assms(1) relay.loop_stops [OF assms(2) f] by simp
  have "map ob_id (filter (\<lambda>x. ob_published_at x = None \<and> \<not> locked (ob_id x)) (outbox (record_failure m e s)))
      = map ob_id (filter (\<lambda>x. ob_published_at x = None \<and> \<not> locked (ob_id x)) (outbox s))"
    unfolding record_failure_def update_message_simps by (rule map_filter_update_where) simp_all
  then have "map ob_id (pending_messages locked n (outbox (record_failure m e s)))
      = map ob_id (pending_messages locked n (outbox s))"
    by (simp only: pending_ids)
  with run assms(1) show ?thesis by (auto simp: relay_cycle_def Let_def)
qed

definition two_messages_db :: booking_db where
  "two_messages_db = confirmed_db\<lparr>outbox := [confirmed_message, confirmed_message\<lparr>ob_id := 3\<rparr>]\<rparr>"

theorem failure_forgets_accepted_witness:
  "\<exists>v. publish_pending small_broker (\<lambda>_. False) 30 100 two_messages_db [(''earlier'', [])]
     = (record_failure (confirmed_message\<lparr>ob_id := 3\<rparr>) ''full'' two_messages_db, v, 1)"
proof -
  let ?m = "confirmed_message\<lparr>ob_id := 3\<rparr>"
  have new: "ob_id confirmed_message = 2" "ob_published_at confirmed_message = None"
    by (simp_all add: confirmed_message_def event_message_def)
  have batch: "pending_messages (\<lambda>_. False) 100 (outbox two_messages_db)
      = [confirmed_message] @ ?m # []"
    by (simp add: pending_messages_def two_messages_db_def new)
  have run: "delivered (publish_message small_broker) (mark_published 30) [confirmed_message]
      two_messages_db [(''earlier'', [])] = Some (mark_published 30 confirmed_message two_messages_db,
        [(''earlier'', []), (ob_topic confirmed_message, ob_payload confirmed_message)])"
    by (simp add: publish_message_def small_broker_def)
  have "small_broker (ob_topic ?m) (ob_payload ?m)
      [(''earlier'', []), (ob_topic confirmed_message, ob_payload confirmed_message)]
    = ([(''earlier'', []), (ob_topic confirmed_message, ob_payload confirmed_message)], Inl ''full'')"
    by (simp add: small_broker_def)
  from failure_forgets_accepted [OF batch run this] show ?thesis by simp
qed

section \<open>A broker that accepts\<close>

definition unpublished :: "booking_db \<Rightarrow> outbox_message list" where
  "unpublished s = filter (\<lambda>m. ob_published_at m = None) (outbox s)"

lemma delivered_marks:
  assumes "\<And>topic payload v. snd (publish topic payload v) = Inr ()"
  shows "\<exists>s' v'. delivered (publish_message publish) (mark_published now) ms s v = Some (s', v')
    \<and> outbox s' = update_where (\<lambda>m. ob_id m \<in> ob_id ` set ms) (\<lambda>m. m\<lparr>ob_published_at := Some now\<rparr>) (outbox s)"
proof (induction ms arbitrary: s v)
  case Nil
  show ?case by (simp add: update_where_none)
next
  case (Cons m ms)
  obtain v1 where v1: "publish (ob_topic m) (ob_payload m) v = (v1, Inr ())"
    using assms by (metis prod.collapse)
  from Cons.IH [of "mark_published now m s" v1] obtain s' v' where
    d: "delivered (publish_message publish) (mark_published now) ms (mark_published now m s) v1 = Some (s', v')"
    and o: "outbox s' = update_where (\<lambda>x. ob_id x \<in> ob_id ` set ms) (\<lambda>x. x\<lparr>ob_published_at := Some now\<rparr>)
      (outbox (mark_published now m s))" by blast
  have "outbox s' = update_where (\<lambda>x. ob_id x \<in> ob_id ` set (m # ms))
      (\<lambda>x. x\<lparr>ob_published_at := Some now\<rparr>) (outbox s)"
    unfolding o mark_published_def update_message_simps by (auto simp: update_where_def)
  moreover have "delivered (publish_message publish) (mark_published now) (m # ms) s v = Some (s', v')"
    using d v1 by (simp add: publish_message_def [of publish m])
  ultimately show ?case by blast
qed

lemma filter_not_taken:
  assumes "distinct (map key ys)"
  shows "filter (\<lambda>x. key x \<notin> key ` set (take n ys)) ys = drop n ys"
proof -
  have "distinct (map key (take n ys @ drop n ys))" using assms by simp
  then have "key ` set (take n ys) \<inter> key ` set (drop n ys) = {}"
    by (simp del: append_take_drop_id)
  then have "filter (\<lambda>x. key x \<notin> key ` set (take n ys)) (take n ys @ drop n ys) = drop n ys"
    by (subst filter_append) (auto simp: filter_empty_conv filter_id_conv)
  then show ?thesis by simp
qed

lemma publish_all_accepted:
  assumes inv: "booking_inv s" and acc: "\<And>topic payload v. snd (publish topic payload v) = Inr ()"
    and run: "publish_pending publish (\<lambda>_. False) now n s v = (s', v', sent)"
  shows "sent = int (min n (length (unpublished s)))
    \<and> length (unpublished s') = length (unpublished s) - n \<and> booking_inv s'"
proof -
  let ?batch = "pending_messages (\<lambda>_. False) n (outbox s)"
  let ?ids = "ob_id ` set ?batch"
  let ?sorted = "sort_key ob_id (unpublished s)"
  obtain t x where d: "delivered (publish_message publish) (mark_published now) ?batch s v = Some (t, x)"
    and o: "outbox t = update_where (\<lambda>m. ob_id m \<in> ?ids) (\<lambda>m. m\<lparr>ob_published_at := Some now\<rparr>) (outbox s)"
    using delivered_marks [of publish, OF acc] by blast
  have s': "s' = t" "sent = int (length ?batch)"
    using run relay.loop_all [OF d] by (auto simp: publish_pending_def)
  have batch: "?batch = take n ?sorted"
    by (simp add: pending_messages_def unpublished_def)
  have "distinct (map ob_id (outbox s))"
    using inv wf_dbD(5) by (simp add: booking_inv_def)
  then have "distinct (map ob_id (unpublished s))"
    by (simp add: unpublished_def distinct_map_filter)
  then have dist: "distinct (map ob_id ?sorted)" by (simp add: map_sort_key)
  have "unpublished t = filter (\<lambda>m. ob_id m \<notin> ?ids) (unpublished s)"
    unfolding unpublished_def o by (rule filter_update_away) simp
  then have "length (unpublished t) = length (sort_key ob_id (filter (\<lambda>m. ob_id m \<notin> ?ids) (unpublished s)))"
    by simp
  also have "\<dots> = length (drop n ?sorted)"
    unfolding filter_sort [symmetric] batch filter_not_taken [OF dist] ..
  finally have "length (unpublished t) = length (unpublished s) - n" by simp
  moreover have "booking_inv t"
    using delivery_only_inv [OF publish_pending_delivery_only inv, of publish "\<lambda>_. False" now n v]
      run s' by simp
  ultimately show ?thesis using s' batch by (simp add: min.commute)
qed

text \<open>Turns of \<open>run_forever\<close>, the only relay at work, at the given times.\<close>

fun relay_turns :: "'w publisher \<Rightarrow> moment list \<Rightarrow> booking_db \<Rightarrow> 'w \<Rightarrow> booking_db \<times> 'w" where
  "relay_turns publish [] s v = (s, v)"
| "relay_turns publish (now # later) s v =
     (case relay_cycle publish None (\<lambda>_. False) now Map.empty s v of
        (_, s', v', _) \<Rightarrow> relay_turns publish later s' v')"

text \<open>
  With a broker that accepts, the outbox drains: every turn publishes a hundred messages or
  all there are, so \<open>k\<close> turns empty an outbox of up to \<open>100 k\<close> unpublished messages, and the
  relay pauses exactly when there is nothing to publish.
\<close>

theorem accepting_broker_drains_outbox:
  assumes "booking_inv s" and "\<And>topic payload v. snd (publish topic payload v) = Inr ()"
    and "length (unpublished s) \<le> 100 * length turns"
  shows "unpublished (fst (relay_turns publish turns s v)) = []
    \<and> (snd (snd (snd (relay_cycle publish hb (\<lambda>_. False) now files s v))) \<longleftrightarrow> unpublished s = [])"
proof
  show "unpublished (fst (relay_turns publish turns s v)) = []"
    using assms(1,3)
  proof (induction turns arbitrary: s v)
    case (Cons t later)
    obtain s' v' sent where run: "publish_pending publish (\<lambda>_. False) t BATCH_SIZE s v = (s', v', sent)"
      by (metis prod_cases3)
    from publish_all_accepted [OF Cons.prems(1) assms(2) run]
    have "length (unpublished s') = length (unpublished s) - 100" "booking_inv s'"
      by (simp_all add: BATCH_SIZE_def)
    with Cons run show ?case by (simp add: relay_cycle_def Let_def)
  qed simp
  obtain s' v' sent where run: "publish_pending publish (\<lambda>_. False) now BATCH_SIZE s v = (s', v', sent)"
    by (metis prod_cases3)
  from publish_all_accepted [OF assms(1,2) run] run
  show "snd (snd (snd (relay_cycle publish hb (\<lambda>_. False) now files s v))) \<longleftrightarrow> unpublished s = []"
    by (cases "unpublished s") (simp_all add: relay_cycle_def Let_def BATCH_SIZE_def)
qed

theorem accepting_broker_drains_outbox_witness:
  "unpublished confirmed_db = [confirmed_message]
   \<and> unpublished (fst (relay_turns (\<lambda>_ _ v. (v, Inr ())) [30] confirmed_db ())) = []"
proof -
  have inv: "booking_inv confirmed_db"
    using reachable_booking_inv [OF confirmed_reachable [of "\<lambda>_ _ v. (v, Inr ())" "()"]] by simp
  have one: "unpublished confirmed_db = [confirmed_message]"
    by (simp add: unpublished_def confirmed_db_simps confirmed_message_def event_message_def)
  with accepting_broker_drains_outbox [OF inv, of "\<lambda>_ _ v. (v, Inr ())" "[30]" "()"]
  show ?thesis by simp
qed

end
