(* ===== verification/Pyhash.thy ===== *)
theory Pyhash
  imports Pyvalue "HOL-Library.Word"
begin

unbundle bit_operations_syntax

text \<open>
  The bytes of Python: \<open>str.encode()\<close>, \<open>hashlib.sha256\<close> (FIPS 180-4), \<open>hmac\<close> (RFC 2104),
  \<open>hexdigest\<close>, URL-safe base64, and \<open>hmac.compare_digest\<close>. A signature in this repository is a
  value these functions compute, so they are written out.
\<close>

section \<open>Bytes\<close>

text \<open>A byte is an \<open>int\<close> from 0 to 255, as indexing \<open>bytes\<close> gives in Python.\<close>

type_synonym bytes = "int list"

text \<open>UTF-8 of the code points below 256.\<close>

definition encode_char :: "char \<Rightarrow> bytes" where
  "encode_char c =
     (let n = of_char c :: int
      in if n < 128 then [n] else [192 + n div 64, 128 + n mod 64])"

definition encode :: "string \<Rightarrow> bytes" where
  "encode s = concat (map encode_char s)"

section \<open>SHA-256\<close>

text \<open>
  FIPS 180-4. A 32-bit word is an \<open>int\<close> from 0 to \<open>2 ^ 32 - 1\<close>; additions wrap around, the
  complement is taken by \<open>XOR\<close> with all ones.
\<close>

definition sha_K :: "int list" where
  "sha_K = [
    1116352408, 1899447441, 3049323471, 3921009573, 961987163, 1508970993, 2453635748, 2870763221,
    3624381080, 310598401, 607225278, 1426881987, 1925078388, 2162078206, 2614888103, 3248222580,
    3835390401, 4022224774, 264347078, 604807628, 770255983, 1249150122, 1555081692, 1996064986,
    2554220882, 2821834349, 2952996808, 3210313671, 3336571891, 3584528711, 113926993, 338241895,
    666307205, 773529912, 1294757372, 1396182291, 1695183700, 1986661051, 2177026350, 2456956037,
    2730485921, 2820302411, 3259730800, 3345764771, 3516065817, 3600352804, 4094571909, 275423344,
    430227734, 506948616, 659060556, 883997877, 958139571, 1322822218, 1537002063, 1747873779,
    1955562222, 2024104815, 2227730452, 2361852424, 2428436474, 2756734187, 3204031479, 3329325298]"

definition sha_H0 :: "int list" where
  "sha_H0 = [
    1779033703, 3144134277, 1013904242, 2773480762, 1359893119, 2600822924, 528734635, 1541459225]"

definition wrap32 :: "int \<Rightarrow> int" where
  "wrap32 x = x mod 0x100000000"

definition rotr :: "nat \<Rightarrow> int \<Rightarrow> int" where
  "rotr n x = x div 2 ^ n + wrap32 (x * 2 ^ (32 - n))"

definition small_sigma0 :: "int \<Rightarrow> int" where
  "small_sigma0 x = rotr 7 x XOR rotr 18 x XOR x div 2 ^ 3"

definition small_sigma1 :: "int \<Rightarrow> int" where
  "small_sigma1 x = rotr 17 x XOR rotr 19 x XOR x div 2 ^ 10"

definition big_sigma0 :: "int \<Rightarrow> int" where
  "big_sigma0 x = rotr 2 x XOR rotr 13 x XOR rotr 22 x"

definition big_sigma1 :: "int \<Rightarrow> int" where
  "big_sigma1 x = rotr 6 x XOR rotr 11 x XOR rotr 25 x"

definition sha_ch :: "int \<Rightarrow> int \<Rightarrow> int \<Rightarrow> int" where
  "sha_ch x y z = (x AND y) XOR ((x XOR 0xffffffff) AND z)"

definition sha_maj :: "int \<Rightarrow> int \<Rightarrow> int \<Rightarrow> int" where
  "sha_maj x y z = (x AND y) XOR (x AND z) XOR (y AND z)"

text \<open>Big-endian bytes of a number, and back.\<close>

fun be_bytes :: "nat \<Rightarrow> int \<Rightarrow> bytes" where
  "be_bytes 0 n = []"
| "be_bytes (Suc w) n = be_bytes w (n div 256) @ [n mod 256]"

fun be_words :: "bytes \<Rightarrow> int list" where
  "be_words (a # b # c # d # rest) = (((a * 256 + b) * 256 + c) * 256 + d) # be_words rest"
| "be_words _ = []"

definition sha_pad :: "bytes \<Rightarrow> bytes" where
  "sha_pad msg =
     (let n = length msg
      in msg @ 0x80 # replicate ((119 - n mod 64) mod 64) 0 @ be_bytes 8 (8 * int n))"

fun chunks :: "nat \<Rightarrow> nat \<Rightarrow> 'a list \<Rightarrow> 'a list list" where
  "chunks 0 k xs = []"
| "chunks (Suc n) k xs = take k xs # chunks n k (drop k xs)"

text \<open>The message schedule, newest word first: the sixteen words of the block, then 48 more.\<close>

fun sha_extend :: "nat \<Rightarrow> int list \<Rightarrow> int list" where
  "sha_extend 0 ws = ws"
| "sha_extend (Suc n) ws =
     sha_extend n (wrap32 (small_sigma1 (ws ! 1) + ws ! 6 + small_sigma0 (ws ! 14) + ws ! 15) # ws)"

definition sha_schedule :: "bytes \<Rightarrow> int list" where
  "sha_schedule b = rev (sha_extend 48 (rev (be_words b)))"

definition sha_mix :: "int \<Rightarrow> int \<Rightarrow> int list \<Rightarrow> int list" where
  "sha_mix t1 t2 v = [wrap32 (t1 + t2), v ! 0, v ! 1, v ! 2, wrap32 (v ! 3 + t1), v ! 4, v ! 5, v ! 6]"

definition sha_round :: "int \<Rightarrow> int \<Rightarrow> int list \<Rightarrow> int list" where
  "sha_round k w v =
     sha_mix (wrap32 (v ! 7 + big_sigma1 (v ! 4) + sha_ch (v ! 4) (v ! 5) (v ! 6) + k + w))
       (wrap32 (big_sigma0 (v ! 0) + sha_maj (v ! 0) (v ! 1) (v ! 2))) v"

fun sha_rounds :: "int list \<Rightarrow> int list \<Rightarrow> int list \<Rightarrow> int list" where
  "sha_rounds (k # ks) (w # ws) v = sha_rounds ks ws (sha_round k w v)"
| "sha_rounds _ _ v = v"

definition sha_compress :: "bytes \<Rightarrow> int list \<Rightarrow> int list" where
  "sha_compress b st = map2 (\<lambda>x y. wrap32 (x + y)) st (sha_rounds sha_K (sha_schedule b) st)"

definition sha256 :: "bytes \<Rightarrow> bytes" where
  "sha256 msg =
     (let p = sha_pad msg
      in concat (map (be_bytes 4) (fold sha_compress (chunks (length p div 64) 64 p) sha_H0)))"

section \<open>HMAC\<close>

definition hmac_key :: "bytes \<Rightarrow> bytes" where
  "hmac_key key =
     (let k = (if length key > 64 then sha256 key else key) in k @ replicate (64 - length k) 0)"

definition hmac_sha256 :: "bytes \<Rightarrow> bytes \<Rightarrow> bytes" where
  "hmac_sha256 key msg =
     sha256 (map (\<lambda>b. b XOR 0x5c) (hmac_key key) @
       sha256 (map (\<lambda>b. b XOR 0x36) (hmac_key key) @ msg))"

definition hexdigest :: "bytes \<Rightarrow> string" where
  "hexdigest bs = concat (map (\<lambda>b. fixed_digits 16 2 (nat b)) bs)"

lemma length_be_bytes [simp]: "length (be_bytes w n) = w"
  by (induction w arbitrary: n) simp_all

lemma length_concat_const: "(\<And>x. x \<in> set xs \<Longrightarrow> length (f x) = k) \<Longrightarrow> length (concat (map f xs)) = length xs * k"
  by (induction xs) simp_all

lemma length_sha_mix [simp]: "length (sha_mix a b v) = 8"
  by (simp add: sha_mix_def)

lemma length_sha_rounds: "length v = 8 \<Longrightarrow> length (sha_rounds ks ws v) = 8"
  by (induction ks ws v rule: sha_rounds.induct) (simp_all add: sha_round_def)

lemma length_sha_compress: "length v = 8 \<Longrightarrow> length (sha_compress b v) = 8"
  by (simp add: sha_compress_def length_sha_rounds)

lemma length_sha256 [simp]: "length (sha256 msg) = 32"
proof -
  have "length (fold sha_compress bs v) = 8" if "length v = 8" for bs v
    using that by (induction bs arbitrary: v) (simp_all add: length_sha_compress)
  moreover have "length sha_H0 = 8" by (simp add: sha_H0_def)
  ultimately have "length (fold sha_compress bs sha_H0) = 8" for bs by blast
  then show ?thesis by (simp add: sha256_def Let_def length_concat_const)
qed

lemma length_hexdigest: "length (hexdigest bs) = 2 * length bs"
  by (simp add: hexdigest_def length_concat_const)

section \<open>Comparing digests\<close>

text \<open>\<open>hmac.compare_digest\<close> of two \<open>str\<close>: a \<open>TypeError\<close> unless both are ASCII.\<close>

definition is_ascii :: "string \<Rightarrow> bool" where
  "is_ascii s \<longleftrightarrow> list_all (\<lambda>c. (of_char c :: nat) < 128) s"

definition compare_digest :: "string \<Rightarrow> string \<Rightarrow> py_error + bool" where
  "compare_digest a b = (if is_ascii a \<and> is_ascii b then Inr (a = b) else Inl TypeError)"

lemma is_ascii_simps [simp]:
  "is_ascii []" "is_ascii (c # s) \<longleftrightarrow> (of_char c :: nat) < 128 \<and> is_ascii s"
  "is_ascii (s @ t) \<longleftrightarrow> is_ascii s \<and> is_ascii t"
  by (simp_all add: is_ascii_def)

lemma is_ascii_fixed_digits: "is_ascii (fixed_digits 16 w n)"
proof -
  have "list_all (\<lambda>c. (of_char c :: nat) < 128) (take 16 ''0123456789abcdefghijklmnopqrstuvwxyz'')"
    by simp
  then show ?thesis
    using digit_chars_in [of 16 w n] by (auto simp: is_ascii_def list_all_iff simp del: take_Cons)
qed

lemma is_ascii_hexdigest [simp]: "is_ascii (hexdigest bs)"
  by (induction bs) (simp_all add: hexdigest_def is_ascii_fixed_digits)

end
