(* ===== verification/Pybase64.thy ===== *)
theory Pybase64
  imports Pyhash
begin

text \<open>
  \<open>base64.urlsafe_b64encode\<close>, and \<open>base64.urlsafe_b64decode\<close> as \<open>binascii.a2b_base64\<close> does it when it
  is not strict: characters outside the alphabet are skipped, and padding ends the text as soon as
  there is enough of it.
\<close>

section \<open>Encoding\<close>

definition b64_alphabet :: string where
  "b64_alphabet = ''ABCDEFGHIJKLMNOPQRSTUVWXYZabcdefghijklmnopqrstuvwxyz0123456789-_''"

definition b64_char :: "int \<Rightarrow> char" where
  "b64_char n = b64_alphabet ! nat n"

fun urlsafe_b64encode :: "bytes \<Rightarrow> string" where
  "urlsafe_b64encode [] = []"
| "urlsafe_b64encode [a] = [b64_char (a div 4), b64_char (a mod 4 * 16), CHR ''='', CHR ''='']"
| "urlsafe_b64encode [a, b] =
     [b64_char (a div 4), b64_char (a mod 4 * 16 + b div 16), b64_char (b mod 16 * 4), CHR ''='']"
| "urlsafe_b64encode (a # b # c # rest) =
     b64_char (a div 4) # b64_char (a mod 4 * 16 + b div 16) # b64_char (b mod 16 * 4 + c div 64)
     # b64_char (c mod 64) # urlsafe_b64encode rest"

text \<open>\<open>.replace(b"=", b"")\<close>.\<close>

definition unpadded :: "string \<Rightarrow> string" where
  "unpadded s = filter (\<lambda>c. c \<noteq> CHR ''='') s"

section \<open>Decoding\<close>

definition b64_value :: "char \<Rightarrow> int option" where
  "b64_value c =
     (let n = of_char c :: int in
      if 65 \<le> n \<and> n \<le> 90 then Some (n - 65) else if 97 \<le> n \<and> n \<le> 122 then Some (n - 71)
      else if 48 \<le> n \<and> n \<le> 57 then Some (n + 4)
      else if c = CHR ''-'' \<or> c = CHR ''+'' then Some 62 else if c = CHR ''_'' \<or> c = CHR ''/'' then Some 63
      else None)"

text \<open>The position in the group of four, the bits left over and the padding characters seen.\<close>

fun a2b :: "nat \<Rightarrow> int \<Rightarrow> nat \<Rightarrow> string \<Rightarrow> bytes option" where
  "a2b quad left pads [] = (if quad = 0 then Some [] else None)"
| "a2b quad left pads (c # s) =
     (if c = CHR ''='' then
        (if quad < 2 then a2b quad left pads s
         else if quad + pads + 1 \<ge> 4 then Some [] else a2b quad left (pads + 1) s)
      else case b64_value c of
        None \<Rightarrow> a2b quad left pads s
      | Some v \<Rightarrow>
          if quad = 0 then a2b 1 v 0 s
          else if quad = 1 then map_option (Cons (left * 4 + v div 16)) (a2b 2 (v mod 16) 0 s)
          else if quad = 2 then map_option (Cons (left * 16 + v div 4)) (a2b 3 (v mod 4) 0 s)
          else map_option (Cons (left * 64 + v)) (a2b 0 0 0 s))"

definition urlsafe_b64decode :: "string \<Rightarrow> bytes option" where
  "urlsafe_b64decode s = (if is_ascii s then a2b 0 0 0 s else None)"

section \<open>Round trip\<close>

definition byte_list :: "bytes \<Rightarrow> bool" where
  "byte_list bs \<longleftrightarrow> (\<forall>b \<in> set bs. 0 \<le> b \<and> b < 256)"

lemma b64_table:
  assumes "0 \<le> n" "n < 64"
  shows "b64_value (b64_char n) = Some n" "(of_char (b64_char n) :: nat) < 128"
    "b64_char n \<noteq> CHR ''=''" "b64_char n \<noteq> CHR ''.''"
proof -
  have "list_all (\<lambda>n. b64_value (b64_char n) = Some n \<and> (of_char (b64_char n) :: nat) < 128
      \<and> b64_char n \<noteq> CHR ''='' \<and> b64_char n \<noteq> CHR ''.'') [0..63]"
    by code_simp
  moreover have "n \<in> set [0..63]" using assms by simp
  ultimately have "b64_value (b64_char n) = Some n \<and> (of_char (b64_char n) :: nat) < 128
      \<and> b64_char n \<noteq> CHR ''='' \<and> b64_char n \<noteq> CHR ''.''"
    unfolding list_all_iff by blast
  then show "b64_value (b64_char n) = Some n" "(of_char (b64_char n) :: nat) < 128"
    "b64_char n \<noteq> CHR ''=''" "b64_char n \<noteq> CHR ''.''" by simp_all
qed

text \<open>The four numbers of a group are in range, and give the three bytes back.\<close>

lemma parts:
  fixes x :: int
  shows "0 \<le> x mod 4" "x mod 4 < 4" "0 \<le> x mod 16" "x mod 16 < 16" "0 \<le> x mod 64" "x mod 64 < 64"
  by simp_all

lemma quotients:
  fixes x :: int
  assumes "0 \<le> x" "x < 256"
  shows "0 \<le> x div 4" "x div 4 < 64" "0 \<le> x div 16" "x div 16 < 16" "0 \<le> x div 64" "x div 64 < 4"
  using assms by presburger+

lemma pack:
  fixes x y k :: int
  assumes "0 \<le> y" "y < k"
  shows "(x * k + y) div k = x" "(x * k + y) mod k = y"
  using assms by simp_all

lemma sextets:
  fixes a b c :: int
  assumes "0 \<le> a" "a < 256" "0 \<le> b" "b < 256" "0 \<le> c" "c < 256"
  shows "0 \<le> a div 4" "a div 4 < 64" "0 \<le> a mod 4 * 16" "a mod 4 * 16 < 64"
    "0 \<le> a mod 4 * 16 + b div 16" "a mod 4 * 16 + b div 16 < 64"
    "0 \<le> b mod 16 * 4" "b mod 16 * 4 < 64"
    "0 \<le> b mod 16 * 4 + c div 64" "b mod 16 * 4 + c div 64 < 64" "0 \<le> c mod 64" "c mod 64 < 64"
proof -
  have four: "0 \<le> m * 16 \<and> m * 16 < 64 \<and> (0 \<le> q \<longrightarrow> q < 16 \<longrightarrow> 0 \<le> m * 16 + q \<and> m * 16 + q < 64)"
    if "0 \<le> m" "m < 4" for m q :: int using that by simp
  have sixteen: "0 \<le> m * 4 \<and> m * 4 < 64 \<and> (0 \<le> q \<longrightarrow> q < 4 \<longrightarrow> 0 \<le> m * 4 + q \<and> m * 4 + q < 64)"
    if "0 \<le> m" "m < 16" for m q :: int using that by simp
  note f = four [OF parts(1,2) [of a], of "b div 16"] and s = sixteen [OF parts(3,4) [of b], of "c div 64"]
  note qa = quotients [OF assms(1,2)] and qb = quotients [OF assms(3,4)] and qc = quotients [OF assms(5,6)]
  show "0 \<le> a div 4" "a div 4 < 64" by (rule qa)+
  show "0 \<le> a mod 4 * 16" "a mod 4 * 16 < 64" "0 \<le> a mod 4 * 16 + b div 16" "a mod 4 * 16 + b div 16 < 64"
    using f qb(3,4) by blast+
  show "0 \<le> b mod 16 * 4" "b mod 16 * 4 < 64" "0 \<le> b mod 16 * 4 + c div 64" "b mod 16 * 4 + c div 64 < 64"
    using s qc(5,6) by blast+
  show "0 \<le> c mod 64" "c mod 64 < 64" by (rule parts)+
qed

lemma octets:
  fixes a b c :: int
  assumes "0 \<le> b" "b < 256" "0 \<le> c" "c < 256"
  shows "a div 4 * 4 + (a mod 4 * 16 + b div 16) div 16 = a
    \<and> (a mod 4 * 16 + b div 16) mod 16 * 16 + (b mod 16 * 4 + c div 64) div 4 = b
    \<and> (b mod 16 * 4 + c div 64) mod 4 * 64 + c mod 64 = c
    \<and> a div 4 * 4 + a mod 4 * 16 div 16 = a
    \<and> (a mod 4 * 16 + b div 16) mod 16 * 16 + b mod 16 * 4 div 4 = b"
proof -
  have b: "0 \<le> b div 16" "b div 16 < 16" and c: "0 \<le> c div 64" "c div 64 < 4"
    using quotients [OF assms(1,2)] quotients [OF assms(3,4)] by blast+
  have four: "a mod 4 * 16 div 16 = a mod 4" and eight: "b mod 16 * 4 div 4 = b mod 16"
    by (rule nonzero_mult_div_cancel_right, simp)+
  show ?thesis
    unfolding pack [OF b] pack [OF c] four eight by (simp only: div_mult_mod_eq simp_thms)
qed

text \<open>What encoding writes for one sextet, and what decoding reads from it.\<close>

definition plain_char :: "char \<Rightarrow> bool" where
  "plain_char c \<longleftrightarrow> c \<in> set b64_alphabet \<and> (of_char c :: nat) < 128 \<and> c \<noteq> CHR ''.''"

lemma sextet_plain: "0 \<le> n \<Longrightarrow> n < 64 \<Longrightarrow> plain_char (b64_char n)"
proof -
  assume n: "0 \<le> n" "n < 64"
  have "length b64_alphabet = 64" by (simp add: b64_alphabet_def)
  then have "b64_char n \<in> set b64_alphabet" unfolding b64_char_def using n by (intro nth_mem) simp
  with b64_table [OF n] show "plain_char (b64_char n)" by (simp add: plain_char_def)
qed

lemma unpadded_sextet: "0 \<le> n \<Longrightarrow> n < 64 \<Longrightarrow> unpadded (b64_char n # s) = b64_char n # unpadded s"
  using b64_table [of n] by (simp add: unpadded_def)

lemma unpadded_pad: "unpadded (CHR ''='' # s) = unpadded s" "unpadded [] = []"
  by (simp_all add: unpadded_def)

lemma a2b_sextet:
  assumes "0 \<le> n" "n < 64"
  shows "a2b 0 left pads (b64_char n # s) = a2b 1 n 0 s"
    "a2b 1 left pads (b64_char n # s) = map_option (Cons (left * 4 + n div 16)) (a2b 2 (n mod 16) 0 s)"
    "a2b 2 left pads (b64_char n # s) = map_option (Cons (left * 16 + n div 4)) (a2b 3 (n mod 4) 0 s)"
    "a2b 3 left pads (b64_char n # s) = map_option (Cons (left * 64 + n)) (a2b 0 0 0 s)"
  using b64_table [OF assms] by simp_all

lemma a2b_pads: "a2b 2 left 0 ''==='' = Some []" "a2b 3 left 0 ''==='' = Some []"
  by (simp_all add: numeral_2_eq_2 numeral_3_eq_3)

lemma unpadded_groups:
  assumes "0 \<le> a" "a < 256" "0 \<le> b" "b < 256" "0 \<le> c" "c < 256"
  shows "unpadded (urlsafe_b64encode [a]) = [b64_char (a div 4), b64_char (a mod 4 * 16)]"
    "unpadded (urlsafe_b64encode [a, b])
      = [b64_char (a div 4), b64_char (a mod 4 * 16 + b div 16), b64_char (b mod 16 * 4)]"
    "unpadded (urlsafe_b64encode (a # b # c # rest))
      = b64_char (a div 4) # b64_char (a mod 4 * 16 + b div 16) # b64_char (b mod 16 * 4 + c div 64)
        # b64_char (c mod 64) # unpadded (urlsafe_b64encode rest)"
  by (simp_all only: urlsafe_b64encode.simps unpadded_pad unpadded_sextet sextets [OF assms])

lemma urlsafe_b64encode_chars:
  "byte_list bs \<Longrightarrow> list_all plain_char (unpadded (urlsafe_b64encode bs))"
proof (induction bs rule: urlsafe_b64encode.induct)
  case (2 a)
  then have a: "0 \<le> a" "a < 256" by (simp_all add: byte_list_def)
  show ?case unfolding unpadded_groups(1) [OF a a a] by (simp only: list.pred_inject sextet_plain sextets [OF a a a] simp_thms)
next
  case (3 a b)
  then have a: "0 \<le> a" "a < 256" and b: "0 \<le> b" "b < 256" by (simp_all add: byte_list_def)
  show ?case unfolding unpadded_groups(2) [OF a b b] by (simp only: list.pred_inject sextet_plain sextets [OF a b b] simp_thms)
next
  case (4 a b c rest)
  then have a: "0 \<le> a" "a < 256" and b: "0 \<le> b" "b < 256" and c: "0 \<le> c" "c < 256" and "byte_list rest"
    by (simp_all add: byte_list_def)
  then have "list_all plain_char (unpadded (urlsafe_b64encode rest))" by (intro 4(1))
  then show ?case
    unfolding unpadded_groups(3) [OF a b c] by (simp only: list.pred_inject sextet_plain sextets [OF a b c] simp_thms)
qed (simp add: unpadded_def)

lemma is_ascii_unpadded: "byte_list bs \<Longrightarrow> is_ascii (unpadded (urlsafe_b64encode bs))"
  using urlsafe_b64encode_chars [of bs] by (simp add: is_ascii_def list_all_iff plain_char_def)

lemma dot_unpadded: "byte_list bs \<Longrightarrow> CHR ''.'' \<notin> set (unpadded (urlsafe_b64encode bs))"
  using urlsafe_b64encode_chars [of bs] by (auto simp: list_all_iff plain_char_def)

lemma unpadded_alphabet: "byte_list bs \<Longrightarrow> set (unpadded (urlsafe_b64encode bs)) \<subseteq> set b64_alphabet"
  using urlsafe_b64encode_chars [of bs] by (auto simp: list_all_iff plain_char_def)

lemma decode_padded:
  "byte_list bs \<Longrightarrow> a2b 0 0 pads (unpadded (urlsafe_b64encode bs) @ ''==='') = Some bs"
proof (induction bs arbitrary: pads rule: urlsafe_b64encode.induct)
  case 1
  show ?case by (simp add: unpadded_def)
next
  case (2 a)
  then have a: "0 \<le> a" "a < 256" by (simp_all add: byte_list_def)
  show ?case
    unfolding unpadded_groups(1) [OF a a a] append_Cons append_Nil
    by (simp only: a2b_sextet sextets [OF a a a] octets [OF a a, of a] a2b_pads option.map)
next
  case (3 a b)
  then have a: "0 \<le> a" "a < 256" and b: "0 \<le> b" "b < 256" by (simp_all add: byte_list_def)
  show ?case
    unfolding unpadded_groups(2) [OF a b b] append_Cons append_Nil
    by (simp only: a2b_sextet sextets [OF a b b] octets [OF b b, of a] a2b_pads option.map)
next
  case (4 a b c rest)
  then have a: "0 \<le> a" "a < 256" and b: "0 \<le> b" "b < 256" and c: "0 \<le> c" "c < 256" and r: "byte_list rest"
    by (simp_all add: byte_list_def)
  have rest: "a2b 0 0 0 (unpadded (urlsafe_b64encode rest) @ ''==='') = Some rest" by (rule 4(1) [OF r])
  show ?case
    unfolding unpadded_groups(3) [OF a b c] append_Cons append_Nil
    by (simp only: a2b_sextet sextets [OF a b c] octets [OF b c, of a] rest option.map)
qed

lemma decode_encoded:
  "byte_list bs \<Longrightarrow> urlsafe_b64decode (unpadded (urlsafe_b64encode bs) @ ''==='') = Some bs"
  using decode_padded is_ascii_unpadded by (simp add: urlsafe_b64decode_def)

interpretation base64_text: codec "\<lambda>bs. unpadded (urlsafe_b64encode bs)"
    "\<lambda>s. urlsafe_b64decode (s @ ''==='')" byte_list
  by unfold_locales (rule decode_encoded)

section \<open>Bytes of texts and digests\<close>

lemma be_bytes_range: "b \<in> set (be_bytes w n) \<Longrightarrow> 0 \<le> b \<and> b < 256"
  by (induction w arbitrary: n) auto

lemma byte_list_sha256: "byte_list (sha256 msg)"
  using be_bytes_range by (fastforce simp: byte_list_def sha256_def Let_def)

lemma byte_list_hmac: "byte_list (hmac_sha256 key msg)"
  by (simp add: hmac_sha256_def byte_list_sha256)

lemma encode_ascii: "is_ascii s \<Longrightarrow> encode s = map of_char s"
proof (induction s)
  case (Cons c s)
  then have "(of_char c :: int) < 128" by (metis is_ascii_simps(2) of_nat_less_iff of_nat_numeral of_nat_of_char)
  with Cons show ?case by (simp add: encode_def encode_char_def)
qed (simp add: encode_def)

end
