(* ===== verification/Booking_Token.thy ===== *)
theory Booking_Token
  imports Booking_Auth Pybase64 Pyjson
begin

text \<open>
  Verification of session tokens in \<open>services/booking/src/booking/auth.py\<close>. Parameters: how bytes that
  are not plain ASCII are decoded to text (\<open>other\<close>), and the two of the JSON reader. The time is
  compared in microseconds, as the float of \<open>now.timestamp()\<close> does while it is below \<open>2 ^ 34\<close> seconds.
\<close>

section \<open>Constants\<close>

definition VERSION_PREFIX :: string where
  "VERSION_PREFIX = ''v1''"

definition SEPARATOR :: char where
  "SEPARATOR = CHR ''.''"

definition PART_COUNT :: nat where
  "PART_COUNT = 3"

definition PADDING :: string where
  "PADDING = ''===''"

definition SUBJECT_CLAIM :: string where
  "SUBJECT_CLAIM = ''sub''"

definition ROLE_CLAIM :: string where
  "ROLE_CLAIM = ''role''"

definition EXPIRES_CLAIM :: string where
  "EXPIRES_CLAIM = ''exp''"

definition MAX_EXTERNAL_ID_LENGTH :: nat where
  "MAX_EXTERNAL_ID_LENGTH = 64"

text \<open>\<open>EXTERNAL_ID_PATTERN\<close>, matched against the whole text.\<close>

definition id_char :: "char \<Rightarrow> bool" where
  "id_char c =
     (let n = of_char c :: nat in
      65 \<le> n \<and> n \<le> 90 \<or> 97 \<le> n \<and> n \<le> 122 \<or> 48 \<le> n \<and> n \<le> 57
      \<or> c \<in> {CHR ''.'', CHR ''_'', CHR '':'', CHR ''@'', CHR ''-''})"

definition matches_id :: "string \<Rightarrow> bool" where
  "matches_id s \<longleftrightarrow> s \<noteq> [] \<and> list_all id_char s"

section \<open>Signature\<close>

definition signature :: "string \<Rightarrow> string \<Rightarrow> string" where
  "signature payload secret =
     (let message = encode (VERSION_PREFIX @ [SEPARATOR] @ payload);
          digest = hmac_sha256 (encode secret) message
      in unpadded (urlsafe_b64encode digest))"

section \<open>Claims\<close>

text \<open>
  \<open>json.loads\<close> of bytes: seven-bit bytes without a NUL are UTF-8 for \<open>json.detect_encoding\<close> and read
  as they are.
\<close>

definition bytes_text :: "(bytes \<Rightarrow> string option) \<Rightarrow> bytes \<Rightarrow> string option" where
  "bytes_text other bs = (if list_all (\<lambda>b. 0 < b \<and> b < 128) bs then Some (map char_of bs) else other bs)"

definition claims_of ::
  "(bytes \<Rightarrow> string option) \<Rightarrow> (nat \<Rightarrow> string) \<Rightarrow> (string \<Rightarrow> string) \<Rightarrow> string
   \<Rightarrow> booking_error exn + (string \<times> json) list" where
  "claims_of other wide fr payload =
     (case Option.bind (Option.bind (urlsafe_b64decode (payload @ PADDING)) (bytes_text other)) (json_loads wide fr) of
        None \<Rightarrow> Inl (Domain InvalidTokenError)
      | Some (JObj kvs) \<Rightarrow> Inr kvs
      | Some _ \<Rightarrow> Inl (Domain InvalidTokenError))"

text \<open>\<open>Role(value)\<close>, \<open>None\<close> for its \<open>ValueError\<close>.\<close>

definition role_of :: "string \<Rightarrow> role option" where
  "role_of value = (if value = ''client'' then Some Client else if value = ''master'' then Some Master else None)"

text \<open>A \<open>bool\<close> is an \<open>int\<close>.\<close>

definition int_value :: "json \<Rightarrow> int option" where
  "int_value v = (case v of JInt i \<Rightarrow> Some i | JBool b \<Rightarrow> Some (if b then 1 else 0) | _ \<Rightarrow> None)"

definition identity_of :: "(string \<times> json) list \<Rightarrow> moment \<Rightarrow> booking_error exn + identity" where
  "identity_of claims now =
     (let sub = dict_get claims SUBJECT_CLAIM; r = dict_get claims ROLE_CLAIM;
          expires_at = dict_get claims EXPIRES_CLAIM
      in case sub of
        JStr s \<Rightarrow>
          if s = [] then Inl (Domain InvalidTokenError)
          else if length s > MAX_EXTERNAL_ID_LENGTH \<or> \<not> matches_id s then Inl (Domain InvalidTokenError)
          else (case role_of (py_str r) of
              None \<Rightarrow> Inl (Domain InvalidTokenError)
            | Some known_role \<Rightarrow>
                (case int_value expires_at of
                   None \<Rightarrow> Inl (Domain InvalidTokenError)
                 | Some e \<Rightarrow>
                     if seconds e \<le> now then Inl (Domain ExpiredTokenError)
                     else Inr \<lparr>subject = s, id_role = known_role\<rparr>))
      | _ \<Rightarrow> Inl (Domain InvalidTokenError))"

section \<open>The whole token\<close>

definition verify_token ::
  "(bytes \<Rightarrow> string option) \<Rightarrow> (nat \<Rightarrow> string) \<Rightarrow> (string \<Rightarrow> string) \<Rightarrow> string \<Rightarrow> string \<Rightarrow> moment
   \<Rightarrow> booking_error exn + identity" where
  "verify_token other wide fr token secret now =
     (case split_on SEPARATOR token of
        [version, payload, presented] \<Rightarrow>
          if version \<noteq> VERSION_PREFIX then Inl (Domain InvalidTokenError)
          else (case compare_digest (signature payload secret) presented of
              Inl e \<Rightarrow> Inl (Python e)
            | Inr False \<Rightarrow> Inl (Domain InvalidTokenError)
            | Inr True \<Rightarrow> try_bind (claims_of other wide fr payload) (\<lambda>claims. identity_of claims now))
      | _ \<Rightarrow> Inl (Domain InvalidTokenError))"

section \<open>What passes\<close>

lemma split_three:
  "split_on c s = [a, b, d] \<longleftrightarrow> s = a @ c # b @ c # d \<and> c \<notin> set a \<and> c \<notin> set b \<and> c \<notin> set d"
proof
  assume a: "split_on c s = [a, b, d]"
  then have "join [c] [a, b, d] = s" using join_split_on [of c s] by simp
  with split_on_parts_no_sep [of _ c s] a show "s = a @ c # b @ c # d \<and> c \<notin> set a \<and> c \<notin> set b \<and> c \<notin> set d"
    by simp
qed (simp add: split_on_append split_on_no_sep)

definition framed :: "string \<Rightarrow> string \<Rightarrow> string \<Rightarrow> bool" where
  "framed token payload presented \<longleftrightarrow>
     split_on SEPARATOR token = [VERSION_PREFIX, payload, presented]"

lemma framed_iff:
  "framed token payload presented \<longleftrightarrow> token = ''v1.'' @ payload @ ''.'' @ presented
     \<and> CHR ''.'' \<notin> set payload \<and> CHR ''.'' \<notin> set presented"
  by (simp add: framed_def split_three SEPARATOR_def VERSION_PREFIX_def)

lemma signature_facts: "is_ascii (signature payload secret)" "CHR ''.'' \<notin> set (signature payload secret)"
  unfolding signature_def Let_def by (simp_all add: is_ascii_unpadded dot_unpadded byte_list_hmac)

lemma verify_token_framed:
  "framed token payload presented \<Longrightarrow> verify_token other wide fr token secret now =
     (if \<not> is_ascii presented then Inl (Python TypeError)
      else if presented \<noteq> signature payload secret then Inl (Domain InvalidTokenError)
      else try_bind (claims_of other wide fr payload) (\<lambda>claims. identity_of claims now))"
  by (auto simp: framed_def verify_token_def compare_digest_def signature_facts)

lemma verify_token_unframed:
  "\<nexists>payload presented. framed token payload presented \<Longrightarrow>
    verify_token other wide fr token secret now = Inl (Domain InvalidTokenError)"
  by (auto simp: framed_def verify_token_def split: list.splits)

lemma claims_of_error: "claims_of other wide fr payload = Inl e \<Longrightarrow> e = Domain InvalidTokenError"
  by (auto simp: claims_of_def split: option.splits json.splits)

text \<open>The claims the service accepts, whatever their age.\<close>

definition claims_name :: "(string \<times> json) list \<Rightarrow> string \<Rightarrow> role \<Rightarrow> int \<Rightarrow> bool" where
  "claims_name claims s r e \<longleftrightarrow> dict_get claims ''sub'' = JStr s \<and> matches_id s \<and> length s \<le> 64
     \<and> py_str (dict_get claims ''role'') = role_value r \<and> int_value (dict_get claims ''exp'') = Some e"

lemma role_of_value: "role_of v = Some r \<longleftrightarrow> v = role_value r"
  by (cases r) (auto simp: role_of_def)

text \<open>
  The three outcomes of the claims: none of the accepted shape, an accepted one that is too old, an
  accepted one that names the caller.
\<close>

lemma identity_of_Inr:
  "identity_of claims now = Inr who \<longleftrightarrow>
     (\<exists>e. claims_name claims (subject who) (id_role who) e \<and> now < seconds e)"
  by (cases who)
    (auto simp: identity_of_def claims_name_def SUBJECT_CLAIM_def ROLE_CLAIM_def EXPIRES_CLAIM_def
      MAX_EXTERNAL_ID_LENGTH_def matches_id_def role_of_value [symmetric] Let_def
      split: json.splits option.splits)

lemma identity_of_expired:
  "identity_of claims now = Inl (Domain ExpiredTokenError) \<longleftrightarrow>
     (\<exists>s r e. claims_name claims s r e \<and> seconds e \<le> now)"
  by (auto simp: identity_of_def claims_name_def SUBJECT_CLAIM_def ROLE_CLAIM_def EXPIRES_CLAIM_def
      MAX_EXTERNAL_ID_LENGTH_def matches_id_def role_of_value [symmetric] Let_def
      split: json.splits option.splits)

lemma identity_of_error:
  "identity_of claims now = Inl e \<Longrightarrow> e \<in> {Domain InvalidTokenError, Domain ExpiredTokenError}"
  by (auto simp: identity_of_def Let_def split: json.splits option.splits if_splits)

lemma verify_token_signed:
  assumes "x \<noteq> Inl (Domain InvalidTokenError)" "x \<noteq> Inl (Python TypeError)"
  shows "verify_token other wide fr token secret now = x \<longleftrightarrow>
    (\<exists>payload claims. framed token payload (signature payload secret)
      \<and> claims_of other wide fr payload = Inr claims \<and> identity_of claims now = x)"
proof (cases "\<exists>payload presented. framed token payload presented")
  case True
  then obtain payload presented where f: "framed token payload presented" by blast
  then have same: "framed token p s \<longleftrightarrow> p = payload \<and> s = presented" for p s by (auto simp: framed_def)
  show ?thesis
    using assms claims_of_error [of other wide fr payload]
    by (cases "claims_of other wide fr payload")
      (auto simp: verify_token_framed [OF f] same signature_facts)
next
  case False
  then show ?thesis using assms(1) by (simp add: verify_token_unframed)
qed

lemma verify_token_error:
  "verify_token other wide fr token secret now = Inl e \<Longrightarrow>
    e \<in> {Domain InvalidTokenError, Domain ExpiredTokenError, Python TypeError}"
  by (cases "\<exists>payload presented. framed token payload presented")
    (auto simp: verify_token_framed verify_token_unframed try_bind_def
      split: if_splits sum.splits dest: claims_of_error identity_of_error)

lemma verify_token_raises:
  "verify_token other wide fr token secret now = Inl (Python TypeError) \<longleftrightarrow>
    (\<exists>payload presented. framed token payload presented \<and> \<not> is_ascii presented)"
proof (cases "\<exists>payload presented. framed token payload presented")
  case True
  then obtain payload presented where f: "framed token payload presented" by blast
  then have same: "framed token p s \<longleftrightarrow> p = payload \<and> s = presented" for p s by (auto simp: framed_def)
  show ?thesis
    by (auto simp: verify_token_framed [OF f] same try_bind_def split: sum.splits
        dest: claims_of_error identity_of_error)
qed (simp add: verify_token_unframed)

section \<open>Properties\<close>

text \<open>
  C32. Every outcome of \<open>verify_token\<close>. A caller gets an identity exactly with a token whose signature is
  the one of its payload under the service's secret, whose claims name a well-formed subject and a
  known role and which has not expired, a token that expires now counting as expired; an expired token
  is told from an invalid one only when it is signed and well-formed; a signature part with a
  non-ASCII character raises \<open>TypeError\<close>; everything else is \<open>InvalidTokenError\<close>.
\<close>

theorem verify_token_outcome:
  "(verify_token other wide fr token secret now = Inr who \<longleftrightarrow>
      (\<exists>payload claims e. token = ''v1.'' @ payload @ ''.'' @ signature payload secret \<and> CHR ''.'' \<notin> set payload
        \<and> claims_of other wide fr payload = Inr claims \<and> claims_name claims (subject who) (id_role who) e
        \<and> now < seconds e))
   \<and> (verify_token other wide fr token secret now = Inl (Domain ExpiredTokenError) \<longleftrightarrow>
      (\<exists>payload claims s r e. token = ''v1.'' @ payload @ ''.'' @ signature payload secret \<and> CHR ''.'' \<notin> set payload
        \<and> claims_of other wide fr payload = Inr claims \<and> claims_name claims s r e \<and> seconds e \<le> now))
   \<and> (verify_token other wide fr token secret now = Inl (Python TypeError) \<longleftrightarrow>
      (\<exists>payload presented. token = ''v1.'' @ payload @ ''.'' @ presented \<and> CHR ''.'' \<notin> set payload
        \<and> CHR ''.'' \<notin> set presented \<and> \<not> is_ascii presented))
   \<and> verify_token other wide fr token secret now \<in> range Inr \<union>
       {Inl (Domain InvalidTokenError), Inl (Domain ExpiredTokenError), Inl (Python TypeError)}"
    (is "?passes \<and> ?expired \<and> ?raises \<and> ?outcomes")
proof (intro conjI)
  have signed: "framed token payload (signature payload secret) \<longleftrightarrow>
      token = ''v1.'' @ payload @ ''.'' @ signature payload secret \<and> CHR ''.'' \<notin> set payload" for payload
    by (simp add: framed_iff signature_facts)
  show ?passes by (subst verify_token_signed) (simp_all add: identity_of_Inr signed; blast)+
  show ?expired by (subst verify_token_signed) (simp_all add: identity_of_expired signed; blast)+
  show ?raises using verify_token_raises by (simp add: framed_iff)
  show ?outcomes
    by (cases "verify_token other wide fr token secret now") (auto dest: verify_token_error)
qed

end
