(* ===== verification/Http.thy ===== *)
theory Http
  imports Pyvalue
begin

text \<open>
  A call over HTTP as the services see it through their client library. The other side, the network
  and the library are a parameter: a transport takes a request and the state of the world and
  either raises its error or gives a status and a body (\<open>None\<close> when the body is not JSON).
\<close>

record http_request =
  rq_method :: string
  rq_path :: string
  rq_headers :: "(string \<times> string) list"
  rq_json :: "json option"

datatype http_reply = HTTPError | Reply int "json option"

type_synonym 'w transport = "http_request \<Rightarrow> 'w \<Rightarrow> 'w \<times> http_reply"

text \<open>
  \<open>body[key]\<close> of \<open>response.json()\<close>, for a field the contract of the other side declares a string;
  the \<open>TypeError\<close> of a value that is not a string stands for the driver that refuses to store it.
\<close>

definition text_field :: "json option \<Rightarrow> string \<Rightarrow> py_error + string" where
  "text_field body key =
     (case body of
        None \<Rightarrow> Inl ValueError
      | Some (JObj kvs) \<Rightarrow>
          (case map_of kvs key of
             None \<Rightarrow> Inl KeyError
           | Some (JStr s) \<Rightarrow> Inr s
           | Some _ \<Rightarrow> Inl TypeError)
      | Some _ \<Rightarrow> Inl TypeError)"

end
