(* ===== verification/Booking_App.thy ===== *)
theory Booking_App
  imports Booking_Service Booking_Token Http
begin

text \<open>
  \<open>services/booking/src/booking/app.py\<close> with \<open>payments_client.py\<close>: the HTTP interface of the booking
  service. A request is one the framework has routed and validated against the schemas; a response
  is its status and its model, before the framework writes them as JSON, and an error body keeps its
  \<open>code\<close>. An exception no handler is registered for is \<open>Crash\<close>: the server answers 500. The
  network and the other end of it are a transport. The clock is read once for the token and once for
  the use case.
\<close>

section \<open>The client of the payments service\<close>

definition CURRENCY :: string where
  "CURRENCY = ''RUB''"

record payment_answer =
  pa_id :: uuid
  pa_status :: json
  pa_checkout_url :: json

definition payment_request :: "uuid \<Rightarrow> int \<Rightarrow> http_request" where
  "payment_request booking_id amount_minor =
     \<lparr>rq_method = ''POST'', rq_path = ''/payments'', rq_headers = [],
      rq_json = Some (JObj [(''booking_id'', JStr (uuid_str booking_id)), (''amount_minor'', JInt amount_minor),
        (''currency'', JStr CURRENCY)])\<rparr>"

text \<open>\<open>body[key]\<close> of a JSON value, and \<open>uuid.UUID(v)\<close>.\<close>

definition item :: "json \<Rightarrow> string \<Rightarrow> py_error + json" where
  "item v key =
     (case v of
        JObj kvs \<Rightarrow> (case map_of kvs key of None \<Rightarrow> Inl KeyError | Some x \<Rightarrow> Inr x)
      | _ \<Rightarrow> Inl TypeError)"

definition as_uuid :: "json \<Rightarrow> py_error + uuid" where
  "as_uuid v =
     (case v of
        JStr s \<Rightarrow> (case uuid_of_string s of None \<Rightarrow> Inl ValueError | Some u \<Rightarrow> Inr u)
      | JNull \<Rightarrow> Inl TypeError
      | _ \<Rightarrow> Inl AttributeError)"

definition read_payment :: "json option \<Rightarrow> py_error + payment_answer" where
  "read_payment answer =
     (case answer of
        None \<Rightarrow> Inl ValueError
      | Some body \<Rightarrow>
          try_bind (item body ''id'') (\<lambda>i. try_bind (as_uuid i) (\<lambda>u.
          try_bind (item body ''status'') (\<lambda>st. try_bind (item body ''checkout_url'') (\<lambda>url.
            Inr \<lparr>pa_id = u, pa_status = st, pa_checkout_url = url\<rparr>)))))"

definition booking_create_payment ::
  "'w transport \<Rightarrow> uuid \<Rightarrow> int \<Rightarrow> 'w \<Rightarrow> 'w \<times> (booking_error exn + payment_answer)" where
  "booking_create_payment http booking_id amount_minor w =
     (let (w', reply) = http (payment_request booking_id amount_minor) w
      in (w', case reply of
           HTTPError \<Rightarrow> Inl (Domain PaymentsUnavailableError)
         | Reply status answer \<Rightarrow>
             if status = 409 then Inl (Domain PaymentConflictError)
             else if status \<noteq> 200 \<and> status \<noteq> 201 then Inl (Domain PaymentsUnavailableError)
             else (case read_payment answer of Inl e \<Rightarrow> Inl (Python e) | Inr p \<Rightarrow> Inr p)))"

section \<open>Answers\<close>

record slot_out =
  so_id :: uuid
  so_master_id :: string
  so_starts_at :: moment
  so_ends_at :: moment
  so_price_minor :: int
  so_available :: bool

record my_booking_out =
  mb_id :: uuid
  mb_slot_id :: uuid
  mb_client_id :: string
  mb_master_id :: string
  mb_status :: booking_status
  mb_starts_at :: moment
  mb_ends_at :: moment
  mb_price_minor :: int
  mb_created_at :: moment
  mb_updated_at :: moment

record payment_out =
  po_payment_id :: uuid
  po_status :: string
  po_checkout_url :: "string option"

datatype api_body =
  SlotOut slot_out | SlotsOut "slot_out list" | BookingOut booking | MyBookingsOut "my_booking_out list"
| PaymentOut payment_out | ErrorOut string

datatype api_reply = Answer int api_body | Crash "booking_error exn"

definition ERROR_STATUS :: "(booking_error \<times> int) list" where
  "ERROR_STATUS =
     [(SlotNotFoundError, 404), (BookingNotFoundError, 404), (InvalidSlotError, 422),
      (PaymentsUnavailableError, 503), (AuthError, 401), (ForbiddenError, 403)]"

definition error_status :: "booking_error \<Rightarrow> int" where
  "error_status e =
     (case find (\<lambda>(kind, code). is_instance e kind) ERROR_STATUS of None \<Rightarrow> 409 | Some (kind, code) \<Rightarrow> code)"

definition domain_error :: "booking_error \<Rightarrow> api_reply" where
  "domain_error e = Answer (error_status e) (ErrorOut (error_code e))"

definition reply_with :: "int \<Rightarrow> ('a \<Rightarrow> api_body) \<Rightarrow> booking_error exn + 'a \<Rightarrow> api_reply" where
  "reply_with code body r =
     (case r of
        Inr x \<Rightarrow> Answer code (body x)
      | Inl (Domain e) \<Rightarrow> domain_error e
      | Inl e \<Rightarrow> Crash e)"

definition slot_out_of :: "slot \<Rightarrow> bool \<Rightarrow> slot_out" where
  "slot_out_of sl available =
     \<lparr>so_id = sl_id sl, so_master_id = sl_master_id sl, so_starts_at = sl_starts_at sl,
      so_ends_at = sl_ends_at sl, so_price_minor = sl_price_minor sl, so_available = available\<rparr>"

definition my_booking_out_of :: "booking \<times> slot \<Rightarrow> my_booking_out" where
  "my_booking_out_of row =
     (case row of (b, sl) \<Rightarrow>
        \<lparr>mb_id = bk_id b, mb_slot_id = sl_id sl, mb_client_id = bk_client_id b, mb_master_id = sl_master_id sl,
         mb_status = bk_status b, mb_starts_at = sl_starts_at sl, mb_ends_at = sl_ends_at sl,
         mb_price_minor = sl_price_minor sl, mb_created_at = bk_created_at b, mb_updated_at = bk_updated_at b\<rparr>)"

text \<open>\<open>PaymentOut(...)\<close>: the model wants texts, and its \<open>ValidationError\<close> is a \<open>ValueError\<close>.\<close>

definition payment_out_of :: "payment_answer \<Rightarrow> booking_error exn + payment_out" where
  "payment_out_of p =
     (case (pa_status p, pa_checkout_url p) of
        (JStr st, JStr url) \<Rightarrow> Inr \<lparr>po_payment_id = pa_id p, po_status = st, po_checkout_url = Some url\<rparr>
      | (JStr st, JNull) \<Rightarrow> Inr \<lparr>po_payment_id = pa_id p, po_status = st, po_checkout_url = None\<rparr>
      | _ \<Rightarrow> Inl (Python ValueError))"

section \<open>Who is calling\<close>

record api_settings =
  st_auth_secret :: string
  st_pending_ttl :: int

text \<open>The parameters of \<open>verify_token\<close>.\<close>

record text_reader =
  rd_other :: "bytes \<Rightarrow> string option"
  rd_wide :: "nat \<Rightarrow> string"
  rd_float :: "string \<Rightarrow> string"

definition caller ::
  "text_reader \<Rightarrow> api_settings \<Rightarrow> string option \<Rightarrow> moment \<Rightarrow> booking_error exn + identity" where
  "caller rd st credentials now =
     (case credentials of
        None \<Rightarrow> Inl (Domain MissingTokenError)
      | Some token \<Rightarrow> verify_token (rd_other rd) (rd_wide rd) (rd_float rd) token (st_auth_secret st) now)"

definition caller_as ::
  "role \<Rightarrow> text_reader \<Rightarrow> api_settings \<Rightarrow> string option \<Rightarrow> moment \<Rightarrow> booking_error exn + identity" where
  "caller_as required rd st credentials now =
     try_bind (caller rd st credentials now) (\<lambda>who.
       case ensure_role who required of Inl e \<Rightarrow> Inl (Domain e) | Inr _ \<Rightarrow> Inr who)"

definition a_client ::
  "text_reader \<Rightarrow> api_settings \<Rightarrow> string option \<Rightarrow> moment \<Rightarrow> booking_error exn + identity" where
  "a_client = caller_as Client"

definition a_master ::
  "text_reader \<Rightarrow> api_settings \<Rightarrow> string option \<Rightarrow> moment \<Rightarrow> booking_error exn + identity" where
  "a_master = caller_as Master"

section \<open>Endpoints\<close>

text \<open>An endpoint behind a dependency that says who is calling.\<close>

definition guarded ::
  "booking_error exn + identity \<Rightarrow> (identity \<Rightarrow> 's \<times> api_reply) \<Rightarrow> 's \<Rightarrow> 's \<times> api_reply" where
  "guarded who endpoint s =
     (case who of
        Inl e \<Rightarrow> (s, reply_with 200 ErrorOut (Inl e))
      | Inr i \<Rightarrow> endpoint i)"

definition post_slots ::
  "booking_db \<Rightarrow> datetime \<Rightarrow> datetime \<Rightarrow> int \<Rightarrow> moment \<Rightarrow> identity \<Rightarrow> booking_db \<times> api_reply" where
  "post_slots s starts ends price now master =
     (let (s', r) = create_slot s (subject master) starts ends price now
      in (s', reply_with 201 (\<lambda>sl. SlotOut (slot_out_of sl True)) r))"

definition get_slots :: "booking_db \<Rightarrow> string \<Rightarrow> int option \<Rightarrow> moment \<Rightarrow> int \<Rightarrow> api_reply" where
  "get_slots s master day now ttl =
     Answer 200 (SlotsOut (map (\<lambda>(sl, available). slot_out_of sl available) (list_slots s master day now ttl)))"

definition post_bookings ::
  "booking_db \<Rightarrow> uuid \<Rightarrow> moment \<Rightarrow> int \<Rightarrow> identity \<Rightarrow> booking_db \<times> api_reply" where
  "post_bookings s sid now ttl client =
     (let (s', r) = book_slot s sid (subject client) now ttl in (s', reply_with 201 BookingOut r))"

definition get_bookings :: "booking_db \<Rightarrow> identity \<Rightarrow> booking_db \<times> api_reply" where
  "get_bookings s who = (s, Answer 200 (MyBookingsOut (map my_booking_out_of (list_my_bookings s who))))"

definition post_payment ::
  "'w transport \<Rightarrow> uuid \<Rightarrow> moment \<Rightarrow> int \<Rightarrow> identity \<Rightarrow> booking_db \<times> 'w \<Rightarrow> (booking_db \<times> 'w) \<times> api_reply" where
  "post_payment http bid now ttl client sw =
     (case sw of (s, w) \<Rightarrow>
        (case get_payable_booking s bid client now ttl of
           Inl e \<Rightarrow> ((s, w), reply_with 200 ErrorOut (Inl e))
         | Inr (b, sl) \<Rightarrow>
             (let (w', r) = booking_create_payment http bid (sl_price_minor sl) w
              in ((s, w'), reply_with 200 PaymentOut (try_bind r payment_out_of)))))"

definition get_booking_by_id :: "booking_db \<Rightarrow> uuid \<Rightarrow> identity \<Rightarrow> booking_db \<times> api_reply" where
  "get_booking_by_id s bid who =
     (s, reply_with 200 (\<lambda>(b, sl). BookingOut b) (get_owned_booking s bid who))"

definition delete_booking :: "booking_db \<Rightarrow> uuid \<Rightarrow> moment \<Rightarrow> identity \<Rightarrow> booking_db \<times> api_reply" where
  "delete_booking s bid now who =
     (let (s', r) = cancel_booking s bid who now in (s', reply_with 200 BookingOut r))"

definition post_confirm :: "booking_db \<Rightarrow> uuid \<Rightarrow> moment \<Rightarrow> booking_db \<times> api_reply" where
  "post_confirm s bid now =
     (let (s', r) = change_status s bid Confirmed now in (s', reply_with 200 BookingOut r))"

section \<open>The application\<close>

datatype api_request =
  PostSlots "string option" datetime datetime int
| GetSlots string "int option"
| PostBookings "string option" uuid
| GetBookings "string option"
| PostPayment "string option" uuid
| GetBooking "string option" uuid
| DeleteBooking "string option" uuid
| PostConfirm uuid

fun serve ::
  "text_reader \<Rightarrow> api_settings \<Rightarrow> 'w transport \<Rightarrow> moment \<Rightarrow> moment \<Rightarrow> api_request \<Rightarrow> booking_db \<times> 'w
   \<Rightarrow> (booking_db \<times> 'w) \<times> api_reply" where
  "serve rd st http auth_now now (PostSlots c starts ends price) (s, w) =
     (let (s', a) = guarded (a_master rd st c auth_now) (post_slots s starts ends price now) s in ((s', w), a))"
| "serve rd st http auth_now now (GetSlots master day) (s, w) =
     ((s, w), get_slots s master day now (st_pending_ttl st))"
| "serve rd st http auth_now now (PostBookings c sid) (s, w) =
     (let (s', a) = guarded (a_client rd st c auth_now) (post_bookings s sid now (st_pending_ttl st)) s
      in ((s', w), a))"
| "serve rd st http auth_now now (GetBookings c) (s, w) =
     (let (s', a) = guarded (caller rd st c auth_now) (get_bookings s) s in ((s', w), a))"
| "serve rd st http auth_now now (PostPayment c bid) (s, w) =
     guarded (a_client rd st c auth_now) (\<lambda>i. post_payment http bid now (st_pending_ttl st) i (s, w)) (s, w)"
| "serve rd st http auth_now now (GetBooking c bid) (s, w) =
     (let (s', a) = guarded (caller rd st c auth_now) (get_booking_by_id s bid) s in ((s', w), a))"
| "serve rd st http auth_now now (DeleteBooking c bid) (s, w) =
     (let (s', a) = guarded (caller rd st c auth_now) (delete_booking s bid now) s in ((s', w), a))"
| "serve rd st http auth_now now (PostConfirm bid) (s, w) =
     (let (s', a) = post_confirm s bid now in ((s', w), a))"

text \<open>The success status of an endpoint and the errors its \<open>responses\<close> documents.\<close>

fun documented :: "api_request \<Rightarrow> int list" where
  "documented (PostSlots c starts ends price) = 201 # [400, 401, 403, 422]"
| "documented (GetSlots master day) = 200 # [422]"
| "documented (PostBookings c sid) = 201 # [400, 401, 403, 404, 409, 422]"
| "documented (GetBookings c) = 200 # [401, 422]"
| "documented (PostPayment c bid) = 200 # [401, 403, 404, 409, 422, 503]"
| "documented (GetBooking c bid) = 200 # [401, 404, 422]"
| "documented (DeleteBooking c bid) = 200 # [401, 404, 409, 422]"
| "documented (PostConfirm bid) = 200 # [404, 409, 422]"

end
