(* ===== verification/Web_Domain.thy ===== *)
theory Web_Domain
  imports Pytime Pybase64 Pyjson
begin

text \<open>
  \<open>services/web/src/web/domain.py\<close>: what the login form accepts, the session token the web service
  issues, and the time and price conversions of the pages. A naive local time is the moment it would
  be in UTC.
\<close>

section \<open>Constants\<close>

definition WEB_VERSION_PREFIX :: string where
  "WEB_VERSION_PREFIX = ''v1''"

definition WEB_SEPARATOR :: string where
  "WEB_SEPARATOR = ''.''"

definition WEB_SUBJECT_CLAIM :: string where
  "WEB_SUBJECT_CLAIM = ''sub''"

definition WEB_ROLE_CLAIM :: string where
  "WEB_ROLE_CLAIM = ''role''"

definition WEB_EXPIRES_CLAIM :: string where
  "WEB_EXPIRES_CLAIM = ''exp''"

definition SESSION_LIFETIME :: int where
  "SESSION_LIFETIME = minutes (12 * 60)"

definition MAX_NAME_LENGTH :: nat where
  "MAX_NAME_LENGTH = 64"

definition MAX_OFFSET_MINUTES :: int where
  "MAX_OFFSET_MINUTES = 14 * 60"

definition MINOR_UNITS :: int where
  "MINOR_UNITS = 100"

datatype web_role = WebClient | WebMaster

fun web_role_value :: "web_role \<Rightarrow> string" where
  "web_role_value WebClient = ''client''"
| "web_role_value WebMaster = ''master''"

datatype web_error = InvalidInputError

section \<open>The login form\<close>

text \<open>\<open>NAME.fullmatch\<close>.\<close>

definition name_char :: "char \<Rightarrow> bool" where
  "name_char c =
     (let n = of_char c :: nat in
      65 \<le> n \<and> n \<le> 90 \<or> 97 \<le> n \<and> n \<le> 122 \<or> 48 \<le> n \<and> n \<le> 57
      \<or> c \<in> {CHR ''.'', CHR ''_'', CHR '':'', CHR ''@'', CHR ''-''})"

definition matches_name :: "string \<Rightarrow> bool" where
  "matches_name s \<longleftrightarrow> s \<noteq> [] \<and> list_all name_char s"

definition clean_name :: "string \<Rightarrow> web_error + string" where
  "clean_name typed =
     (let name = strip py_space typed in
      if name = [] then Inl InvalidInputError
      else if length name > MAX_NAME_LENGTH then Inl InvalidInputError
      else if \<not> matches_name name then Inl InvalidInputError
      else Inr name)"

definition parse_role :: "string \<Rightarrow> web_error + web_role" where
  "parse_role v =
     (if v = ''client'' then Inr WebClient else if v = ''master'' then Inr WebMaster
      else Inl InvalidInputError)"

section \<open>The session token\<close>

definition b64 :: "bytes \<Rightarrow> string" where
  "b64 raw = unpadded (urlsafe_b64encode raw)"

text \<open>The last moment a \<open>datetime\<close> can hold, 9999-12-31T23:59:59.999999.\<close>

definition MAX_MOMENT :: moment where
  "MAX_MOMENT = 253402300799999999"

text \<open>\<open>int(t.timestamp())\<close>, cut towards zero.\<close>

definition int_timestamp :: "moment \<Rightarrow> int" where
  "int_timestamp t = (if 0 \<le> t then t div seconds 1 else - (- t div seconds 1))"

definition token_claims :: "string \<Rightarrow> web_role \<Rightarrow> int \<Rightarrow> json" where
  "token_claims sub r expires =
     JObj [(WEB_SUBJECT_CLAIM, JStr sub), (WEB_ROLE_CLAIM, JStr (web_role_value r)),
           (WEB_EXPIRES_CLAIM, JInt expires)]"

definition issue_token :: "string \<Rightarrow> web_role \<Rightarrow> string \<Rightarrow> moment \<Rightarrow> py_error + string" where
  "issue_token sub r secret now =
     (if now + SESSION_LIFETIME > MAX_MOMENT then Inl OverflowError
      else
        let claims = token_claims sub r (int_timestamp (now + SESSION_LIFETIME));
            payload = b64 (encode (dump_json '','' '':'' (sort_keys claims)));
            message = WEB_VERSION_PREFIX @ WEB_SEPARATOR @ payload;
            sig = b64 (hmac_sha256 (encode secret) (encode message))
        in Inr (message @ WEB_SEPARATOR @ sig))"

section \<open>Time and money\<close>

text \<open>The first moment a \<open>datetime\<close> can hold, 0001-01-01T00:00:00.\<close>

definition MIN_MOMENT :: moment where
  "MIN_MOMENT = -62135596800000000"

text \<open>The moment a clock reading would be in UTC.\<close>

definition clock_moment :: "datetime \<Rightarrow> moment" where
  "clock_moment dt = the (moment_of (dt\<lparr>dt_offset := Some 0\<rparr>))"

definition to_utc :: "datetime \<Rightarrow> int \<Rightarrow> web_error exn + moment" where
  "to_utc local offset_minutes =
     (if \<bar>offset_minutes\<bar> > MAX_OFFSET_MINUTES then Inl (Domain InvalidInputError)
      else if dt_offset local \<noteq> None then Inl (Domain InvalidInputError)
      else
        let moved = clock_moment local + minutes offset_minutes in
        if moved < MIN_MOMENT \<or> moved > MAX_MOMENT then Inl (Python OverflowError) else Inr moved)"

text \<open>
  \<open>round(float(text) * MINOR_UNITS)\<close> is the parameter \<open>cents\<close>: an amount, the \<open>ValueError\<close> of a text that
  is not a number or of a NaN, or the \<open>OverflowError\<close> of an infinite one.
\<close>

definition price_to_minor :: "(string \<Rightarrow> py_error + int) \<Rightarrow> string \<Rightarrow> web_error exn + int" where
  "price_to_minor cents roubles =
     (case cents (map (\<lambda>c. if c = CHR '','' then CHR ''.'' else c) roubles) of
        Inl ValueError \<Rightarrow> Inl (Domain InvalidInputError)
      | Inl e \<Rightarrow> Inl (Python e)
      | Inr amount \<Rightarrow> if amount \<le> 0 then Inl (Domain InvalidInputError) else Inr amount)"

text \<open>\<open>f"{minor / 100:.2f}"\<close>: exact while the amount is below \<open>2 ^ 52\<close>.\<close>

definition price_to_roubles :: "int \<Rightarrow> string" where
  "price_to_roubles minor =
     (if minor < 0 then ''-'' else [])
     @ show_int (\<bar>minor\<bar> div MINOR_UNITS) @ ''.'' @ fixed_digits 10 2 (nat (\<bar>minor\<bar> mod MINOR_UNITS))"

lemma to_utc_bounds:
  "to_utc l m = Inr u \<Longrightarrow> \<bar>u - clock_moment l\<bar> \<le> minutes (14 * 60) \<and> MIN_MOMENT \<le> u \<and> u \<le> MAX_MOMENT"
  by (auto simp: to_utc_def MAX_OFFSET_MINUTES_def minutes_def seconds_def Let_def split: if_splits)

end
