(* ===== verification/Pyjson_Roundtrip.thy ===== *)
theory Pyjson_Roundtrip
  imports Pyjson
begin

text \<open>
  \<open>json.loads(json.dumps(v)) == v\<close> for values without floats, whose objects have distinct keys and
  whose integers \<open>int()\<close> reads back, for any separators that are a comma and a colon with blanks, and any blanks
  before a closing bracket.
\<close>

section \<open>Strings\<close>

lemma of_char_less [simp]: "(of_char c :: nat) < 256"
  by (rule nat_of_char_less_256)

lemma control_chars:
  "char_of (10 :: nat) = CHR 0x0A" "char_of (13 :: nat) = CHR 0x0D" "char_of (9 :: nat) = CHR 0x09"
  "char_of (12 :: nat) = CHR 0x0C" "char_of (8 :: nat) = CHR 0x08"
  by code_simp+

lemma hex4_fixed: "n < 256 \<Longrightarrow> hex4 (fixed_digits 16 4 n @ t) = Some n"
  by (simp add: hex4_def parse_fixed_digits del: fixed_digits.simps)

lemma drop_fixed: "drop 4 (fixed_digits 16 4 n @ t) = t"
  by (simp del: fixed_digits.simps)

lemma scan_esc_char:
  "scan_string wide (esc_char c @ t) = map_option (\<lambda>(x, r). (c # x, r)) (scan_string wide t)"
proof -
  let ?n = "of_char c :: nat"
  have c: "c = char_of ?n" by simp
  consider "c = CHR 0x22" | "c = CHR 0x5C" | "?n = 10" | "?n = 13" | "?n = 9" | "?n = 12" | "?n = 8"
    | "c \<noteq> CHR 0x22" "c \<noteq> CHR 0x5C" "32 \<le> ?n" "?n < 127"
    | "c \<noteq> CHR 0x22" "c \<noteq> CHR 0x5C" "?n < 32 \<or> 127 \<le> ?n" "?n \<notin> {10, 13, 9, 12, 8}"
    by fastforce
  then show ?thesis
  proof cases
    case 9
    then have "esc_char c = CHR 0x5C # CHR ''u'' # fixed_digits 16 4 ?n"
      by (auto simp: esc_char_def Let_def simp del: fixed_digits.simps)
    moreover have "\<not> (55296 :: nat) \<le> ?n" using nat_of_char_less_256 [of c] by linarith
    ultimately show ?thesis
      by (simp add: hex4_fixed drop_fixed code_point_def del: fixed_digits.simps)
  next
    case 8
    then show ?thesis by (simp add: esc_char_def Let_def)
  next
    case 3
    with c have "c = CHR 0x0A" by (metis control_chars)
    then show ?thesis by (simp add: esc_char_def simple_escape_def)
  next
    case 4
    with c have "c = CHR 0x0D" by (metis control_chars)
    then show ?thesis by (simp add: esc_char_def simple_escape_def)
  next
    case 5
    with c have "c = CHR 0x09" by (metis control_chars)
    then show ?thesis by (simp add: esc_char_def simple_escape_def)
  next
    case 6
    with c have "c = CHR 0x0C" by (metis control_chars)
    then show ?thesis by (simp add: esc_char_def simple_escape_def)
  next
    case 7
    with c have "c = CHR 0x08" by (metis control_chars)
    then show ?thesis by (simp add: esc_char_def simple_escape_def)
  qed (simp_all add: esc_char_def simple_escape_def Let_def)
qed

lemma scan_dump_string: "scan_string wide (concat (map esc_char s) @ CHR 0x22 # rest) = Some (s, rest)"
  by (induction s) (simp_all add: scan_esc_char)

section \<open>Numbers\<close>

lemma digit_char_digit: "d < 10 \<Longrightarrow> is_digit (digit_char d)"
proof -
  have "list_all (\<lambda>d. is_digit (digit_char d)) [0..<10]" by code_simp
  then show "d < 10 \<Longrightarrow> is_digit (digit_char d)" by (simp add: list_all_iff)
qed

lemma show_nat_digits: "list_all is_digit (show_nat n)"
  by (induction n rule: show_nat.induct) (subst show_nat.simps, simp add: digit_char_digit)

lemma digit_char_zero: "d < 10 \<Longrightarrow> digit_char d = CHR ''0'' \<longleftrightarrow> d = 0"
proof -
  have "list_all (\<lambda>d. digit_char d = CHR ''0'' \<longleftrightarrow> d = 0) [0..<10]" by code_simp
  then show "d < 10 \<Longrightarrow> digit_char d = CHR ''0'' \<longleftrightarrow> d = 0" by (simp add: list_all_iff)
qed

lemma show_nat_hd: "hd (show_nat n) = CHR ''0'' \<longleftrightarrow> n = 0"
proof (induction n rule: show_nat.induct)
  case (1 n)
  show ?case
  proof (cases "n < 10")
    case True
    then show ?thesis by (simp add: show_nat.simps [of n] digit_char_zero)
  next
    case False
    with 1 show ?thesis by (simp add: show_nat.simps [of n] hd_append)
  qed
qed

definition number_end :: "string \<Rightarrow> bool" where
  "number_end s \<longleftrightarrow> (case s of [] \<Rightarrow> True | c # _ \<Rightarrow> \<not> is_digit c \<and> c \<notin> {CHR ''.'', CHR ''e'', CHR ''E''})"

lemma number_end_facts:
  assumes "number_end s"
  shows "digits_of s = []" "fraction_of s = []" "exponent_of s = []"
  using assms by (auto simp: number_end_def digits_of_def fraction_of_def exponent_of_def split: list.splits)

lemma digits_of_show_nat: "number_end rest \<Longrightarrow> digits_of (show_nat n @ rest) = show_nat n"
  using show_nat_digits [of n] number_end_facts(1) [of rest]
  by (simp add: digits_of_def takeWhile_append list_all_iff)

lemma not_digit_chars: "\<not> is_digit (CHR ''-'')" "\<not> is_digit (CHR ''n'')" "\<not> is_digit (CHR ''t'')"
  "\<not> is_digit (CHR ''f'')" "\<not> is_digit (CHR ''N'')" "\<not> is_digit (CHR ''I'')" "\<not> is_digit (CHR 0x22)"
  "\<not> is_digit (CHR ''['')" "\<not> is_digit (CHR ''{'')"
  by (simp_all add: is_digit_def)

lemma show_nat_Cons: obtains c cs where "show_nat n = c # cs" "is_digit c"
  using show_nat_digits [of n] by (cases "show_nat n") auto

lemma scan_show_int:
  assumes "number_end rest" "length (show_nat (nat \<bar>i\<bar>)) \<le> MAX_INT_DIGITS"
  shows "scan_number fr (show_int i @ rest) = Some (JInt i, rest)"
proof -
  have main: "scan_number fr ((if neg then ''-'' else []) @ show_nat n @ rest)
      = Some (JInt (if neg then - int n else int n), rest)"
    if "length (show_nat n) \<le> MAX_INT_DIGITS" for n and neg :: bool
  proof -
    obtain c cs where cs: "show_nat n = c # cs" "is_digit c" by (rule show_nat_Cons)
    have ds: "int_digits (show_nat n @ rest) = show_nat n"
    proof (cases "n = 0")
      case True
      then show ?thesis by (simp add: int_digits_def show_nat.simps [of 0] digit_char_def)
    next
      case False
      with show_nat_hd [of n] cs digits_of_show_nat [OF assms(1), of n] show ?thesis
        by (simp add: int_digits_def)
    qed
    have neg: "take 1 (show_nat n @ rest) \<noteq> ''-''"
      using cs not_digit_chars(1) by auto
    show ?thesis
      using ds neg that number_end_facts [OF assms(1)]
      by (cases neg) (simp_all add: scan_number_def Let_def parse_show_nat)
  qed
  show ?thesis
  proof (cases "i < 0")
    case True
    with main [of "nat (- i)" True] assms(2) show ?thesis by (simp add: show_int_def)
  next
    case False
    with main [of "nat i" False] assms(2) show ?thesis by (simp add: show_int_def)
  qed
qed

section \<open>Objects\<close>

lemma dict_put_fresh: "k \<notin> fst ` set kvs \<Longrightarrow> dict_put k v kvs = kvs @ [(k, v)]"
  by (induction kvs) auto

lemma fold_dict_put:
  "distinct (map fst (acc @ kvs)) \<Longrightarrow> fold (\<lambda>(k, v). dict_put k v) kvs acc = acc @ kvs"
proof (induction kvs arbitrary: acc)
  case (Cons kv kvs)
  obtain k v where kv: "kv = (k, v)" by (cases kv)
  with Cons.prems have "dict_put k v acc = acc @ [(k, v)]" by (auto intro!: dict_put_fresh)
  with Cons.IH [of "acc @ [(k, v)]"] Cons.prems kv show ?case by simp
qed simp

lemma dict_of_distinct: "distinct (map fst kvs) \<Longrightarrow> dict_of kvs = kvs"
  by (simp add: dict_of_def fold_dict_put)

section \<open>Values\<close>

text \<open>
  The values that survive: no float, distinct keys in every object, integers of at most
  \<open>MAX_INT_DIGITS\<close> digits.
\<close>

fun plain_json :: "json \<Rightarrow> bool" where
  "plain_json (JFloat t) = False"
| "plain_json (JInt i) = (length (show_nat (nat \<bar>i\<bar>)) \<le> MAX_INT_DIGITS)"
| "plain_json (JArr xs) = list_all plain_json xs"
| "plain_json (JObj kvs) = (distinct (map fst kvs) \<and> list_all (\<lambda>(k, v). plain_json v) kvs)"
| "plain_json v = True"

definition separator :: "char \<Rightarrow> string \<Rightarrow> bool" where
  "separator c s \<longleftrightarrow> (case s of [] \<Rightarrow> False | d # w \<Rightarrow> d = c \<and> list_all (\<lambda>x. x \<in> json_space) w)"

lemma separator_cases:
  assumes "separator c s"
  obtains w where "s = c # w" "set w \<subseteq> json_space"
  using assms by (cases s) (auto simp: separator_def list_all_iff json_space_def)

lemma skip_space_prefix:
  "set w \<subseteq> json_space \<Longrightarrow> skip_space (w @ s) = skip_space s"
  by (induction w) (auto simp: skip_space_def)

lemma number_end_space: "set w \<subseteq> json_space \<Longrightarrow> number_end s \<Longrightarrow> number_end (w @ s)"
  by (cases w) (auto simp: number_end_def json_space_def is_digit_def)

lemma skip_space_Cons: "c \<notin> json_space \<Longrightarrow> skip_space (c # s) = c # s"
  by (simp add: skip_space_def)

text \<open>The first character of a written value tells the reader what is coming.\<close>

definition value_start :: "char \<Rightarrow> bool" where
  "value_start c \<longleftrightarrow> c \<notin> json_space \<and> c \<noteq> CHR '']'' \<and> c \<noteq> CHR ''}''"

lemma digit_value_start: "is_digit c \<Longrightarrow> value_start c"
  by (auto simp: value_start_def json_space_def is_digit_def)

lemma show_int_head:
  obtains c cs where "show_int i = c # cs" "is_digit c \<or> c = CHR ''-'' \<and> cs \<noteq> [] \<and> is_digit (hd cs)"
proof (cases "i < 0")
  case True
  obtain c cs where "show_nat (nat (- i)) = c # cs" "is_digit c" by (rule show_nat_Cons)
  with True that [of "CHR ''-''" "c # cs"] show ?thesis by (simp add: show_int_def)
next
  case False
  obtain c cs where "show_nat (nat i) = c # cs" "is_digit c" by (rule show_nat_Cons)
  with False that [of c cs] show ?thesis by (simp add: show_int_def)
qed

lemma dump_head:
  assumes "plain_json v"
  obtains c cs where "dump_json isep ksep v = c # cs" "value_start c"
proof (cases v)
  case (JInt i)
  obtain c cs where "show_int i = c # cs" "is_digit c \<or> c = CHR ''-'' \<and> cs \<noteq> [] \<and> is_digit (hd cs)"
    by (rule show_int_head)
  moreover have "value_start (CHR ''-'')" by (simp add: value_start_def json_space_def)
  ultimately show ?thesis using JInt that digit_value_start by auto
next
  case (JBool b)
  with that show ?thesis by (cases b) (simp_all add: value_start_def json_space_def)
qed (use assms that in \<open>auto simp: dump_string_def value_start_def json_space_def\<close>)

lemma json_word_number:
  "is_digit c \<or> c = CHR ''-'' \<and> cs \<noteq> [] \<and> is_digit (hd cs) \<Longrightarrow> json_word (c # cs) = None"
proof -
  assume a: "is_digit c \<or> c = CHR ''-'' \<and> cs \<noteq> [] \<and> is_digit (hd cs)"
  then have c: "c \<noteq> CHR ''n''" "c \<noteq> CHR ''t''" "c \<noteq> CHR ''f''" "c \<noteq> CHR ''N''" "c \<noteq> CHR ''I''"
    using not_digit_chars by auto
  have "\<not> (c = CHR ''-'' \<and> take 8 cs = ''Infinity'')"
    using a not_digit_chars by (cases cs) auto
  with c show ?thesis by (simp add: json_word_def startswith_def eval_nat_numeral)
qed

lemma scan_int_value:
  assumes "number_end rest" "length (show_nat (nat \<bar>i\<bar>)) \<le> MAX_INT_DIGITS" "0 < n"
  shows "scan_value wide fr n (show_int i @ rest) = Some (JInt i, rest)"
proof -
  obtain c cs where cs: "show_int i = c # cs" "is_digit c \<or> c = CHR ''-'' \<and> cs \<noteq> [] \<and> is_digit (hd cs)"
    by (rule show_int_head)
  then have w: "json_word (c # cs @ rest) = None"
    by (intro json_word_number) (auto simp: hd_append)
  have "c \<noteq> CHR 0x22" "c \<noteq> CHR ''[''" "c \<noteq> CHR ''{''"
    using cs(2) not_digit_chars by auto
  moreover obtain m where "n = Suc m" using assms(3) by (cases n) auto
  ultimately show ?thesis
    using w scan_show_int [OF assms(1,2)] cs(1) by simp
qed

section \<open>Lists and objects\<close>

lemma scan_items_join:
  assumes sep: "separator (CHR '','') isep"
    and scan: "\<And>x rest n. x \<in> set xs \<Longrightarrow> number_end rest \<Longrightarrow> length (d x) \<le> n \<Longrightarrow>
                 scan_value wide fr n (d x @ rest) = Some (x, rest)"
    and head: "\<And>x. x \<in> set xs \<Longrightarrow> \<exists>c cs. d x = c # cs \<and> value_start c"
    and fuel: "length (join isep (map d xs)) < n"
    and ne: "xs \<noteq> []" and blank: "set z \<subseteq> json_space"
  shows "scan_items wide fr n (join isep (map d xs) @ z @ CHR '']'' # rest) = Some (xs, rest)"
  using scan head fuel ne
proof (induction xs arbitrary: n)
  case (Cons x xs)
  obtain m where n: "n = Suc m" using Cons.prems(3) by (cases n) auto
  obtain w where w: "isep = CHR '','' # w" "set w \<subseteq> json_space" using sep by (rule separator_cases)
  show ?case
  proof (cases xs)
    case Nil
    have "number_end (z @ CHR '']'' # rest)"
      by (rule number_end_space [OF blank]) (simp add: number_end_def is_digit_def)
    moreover have "skip_space (z @ CHR '']'' # rest) = CHR '']'' # rest"
      by (simp add: skip_space_prefix [OF blank] skip_space_Cons json_space_def)
    ultimately show ?thesis using Cons.prems(1) [of x] Cons.prems(3) n Nil by simp
  next
    case (Cons y ys)
    let ?more = "join isep (map d xs) @ z @ CHR '']'' # rest"
    have ne: "number_end (isep @ ?more)" by (simp add: w(1) number_end_def is_digit_def)
    have len: "length (join isep (map d (x # xs))) = length (d x) + length isep + length (join isep (map d xs))"
      using Cons by simp
    obtain c cs where c: "d y = c # cs" "value_start c" using Cons.prems(2) [of y] Cons by auto
    then have y: "\<exists>q. ?more = c # q" using Cons by (cases ys) auto
    have skip: "skip_space (w @ ?more) = ?more"
      using y c(2) by (auto simp: skip_space_prefix [OF w(2)] skip_space_Cons value_start_def)
    have x: "scan_value wide fr m (d x @ isep @ ?more) = Some (x, isep @ ?more)"
      using Cons.prems(1) [of x "isep @ ?more" m] ne Cons.prems(3) n len by simp
    have rec: "scan_items wide fr m ?more = Some (xs, rest)"
      using Cons.IH [of m] Cons.prems n len w(1) Cons by simp
    have "join isep (map d (x # xs)) @ z @ CHR '']'' # rest = d x @ isep @ ?more"
      using Cons by simp
    with x rec skip n w(1) show ?thesis
      by (simp add: skip_space_Cons json_space_def)
  qed
qed simp

text \<open>The same for the members of an object, each a key written by \<open>q\<close>, the separator and a value written by \<open>d\<close>.\<close>

definition member_text ::
  "string \<Rightarrow> (string \<Rightarrow> string) \<Rightarrow> (json \<Rightarrow> string) \<Rightarrow> string \<times> json \<Rightarrow> string" where
  "member_text ksep q d kv = q (fst kv) @ ksep @ d (snd kv)"

definition dump_member :: "string \<Rightarrow> (json \<Rightarrow> string) \<Rightarrow> string \<times> json \<Rightarrow> string" where
  "dump_member ksep d = member_text ksep dump_string d"

lemma scan_members_join:
  assumes isep: "separator (CHR '','') isep" and ksep: "separator (CHR '':'') ksep"
    and scan: "\<And>k v rest n. (k, v) \<in> set kvs \<Longrightarrow> number_end rest \<Longrightarrow> length (d v) \<le> n \<Longrightarrow>
                 scan_value wide fr n (d v @ rest) = Some (v, rest)"
    and head: "\<And>k v. (k, v) \<in> set kvs \<Longrightarrow> \<exists>c cs. d v = c # cs \<and> value_start c"
    and fuel: "length (join isep (map (member_text ksep q d) kvs)) < n"
    and ne: "kvs \<noteq> []" and blank: "set z \<subseteq> json_space"
    and quoted: "\<And>k t. \<exists>x. q k = CHR 0x22 # x \<and> scan_string wide (x @ t) = Some (k, t)"
  shows "scan_members wide fr n (join isep (map (member_text ksep q d) kvs) @ z @ CHR ''}'' # rest) = Some (kvs, rest)"
  using scan head fuel ne
proof (induction kvs arbitrary: n)
  case (Cons kv kvs)
  obtain k v where kv: "kv = (k, v)" by (cases kv)
  obtain m where n: "n = Suc m" using Cons.prems(3) by (cases n) auto
  obtain w where w: "isep = CHR '','' # w" "set w \<subseteq> json_space" using isep by (rule separator_cases)
  obtain w' where w': "ksep = CHR '':'' # w'" "set w' \<subseteq> json_space" using ksep by (rule separator_cases)
  define more where "more = (if kvs = [] then z @ CHR ''}'' # rest
     else isep @ join isep (map (member_text ksep q d) kvs) @ z @ CHR ''}'' # rest)"
  have ne: "number_end more"
    using number_end_space [OF blank, of "CHR ''}'' # rest"] by (simp add: more_def w(1) number_end_def is_digit_def)
  obtain qk where qk: "q k = CHR 0x22 # qk" "\<And>t. scan_string wide (qk @ t) = Some (k, t)"
    using quoted [of k] by (metis list.inject)
  have len: "length (d v) < m"
    using Cons.prems(3) n kv w' qk(1) by (cases kvs) (simp_all add: member_text_def)
  have v: "scan_value wide fr m (d v @ more) = Some (v, more)"
    using Cons.prems(1) [of k v more m] ne len kv by simp
  obtain c cs where c: "d v = c # cs" "value_start c" using Cons.prems(2) [of k v] kv by auto
  have skip: "skip_space (w' @ d v @ more) = d v @ more"
    using c by (simp add: skip_space_prefix [OF w'(2)] skip_space_Cons value_start_def)
  have whole: "join isep (map (member_text ksep q d) (kv # kvs)) @ z @ CHR ''}'' # rest
      = CHR 0x22 # qk @ CHR '':'' # w' @ d v @ more"
    by (cases kvs) (simp_all add: kv member_text_def qk(1) w' more_def)
  have tail: "(case skip_space more of [] \<Rightarrow> None
      | e # u \<Rightarrow> if e = CHR ''}'' then Some ([(k, v)], u)
                else if e = CHR '','' then
                  map_option (\<lambda>(kvs, x). ((k, v) # kvs, x)) (scan_members wide fr m (skip_space u))
                else None) = Some (kv # kvs, rest)"
  proof (cases kvs)
    case Nil
    then show ?thesis by (simp add: more_def skip_space_prefix [OF blank] skip_space_Cons json_space_def kv)
  next
    case (Cons kv' kvs')
    let ?rest = "join isep (map (member_text ksep q d) kvs) @ z @ CHR ''}'' # rest"
    have rec: "scan_members wide fr m ?rest = Some (kvs, rest)"
    proof (rule Cons.IH)
      show "length (join isep (map (member_text ksep q d) kvs)) < m"
        using Cons.prems(3) n w(1) Cons by simp
    qed (use Cons.prems(1,2) Cons in \<open>force+\<close>)
    obtain x where "q (fst kv') = CHR 0x22 # x" using quoted by metis
    then have "\<exists>y. ?rest = CHR 0x22 # y" using Cons by (cases kvs') (simp_all add: member_text_def)
    then have "skip_space (w @ ?rest) = ?rest"
      by (auto simp: skip_space_prefix [OF w(2)] skip_space_Cons json_space_def)
    with rec Cons kv show ?thesis by (simp add: more_def w(1) skip_space_Cons json_space_def)
  qed
  show ?case
    unfolding whole n using v skip tail
    by (simp add: qk(2) skip_space_Cons json_space_def)
qed simp

lemma dump_string_quoted: "\<exists>x. dump_string k = CHR 0x22 # x \<and> scan_string wide (x @ t) = Some (k, t)"
  by (simp add: dump_string_def scan_dump_string)

section \<open>The round trip\<close>

lemma dump_obj: "dump_json isep ksep (JObj kvs)
    = ''{'' @ join isep (map (dump_member ksep (dump_json isep ksep)) kvs) @ ''}''"
  by (simp add: dump_member_def member_text_def [abs_def] case_prod_beta')

lemma scan_dump:
  assumes isep: "separator (CHR '','') isep" and ksep: "separator (CHR '':'') ksep"
  shows "plain_json v \<Longrightarrow> number_end rest \<Longrightarrow> length (dump_json isep ksep v) \<le> n \<Longrightarrow>
    scan_value wide fr n (dump_json isep ksep v @ rest) = Some (v, rest)"
proof (induction v arbitrary: n rest)
  case JNull
  then obtain m where "n = Suc m" by (cases n) auto
  then show ?case by (simp add: json_word_def startswith_def)
next
  case (JBool b)
  then obtain m where "n = Suc m" by (cases n) (auto split: if_splits)
  then show ?case by (cases b) (simp_all add: json_word_def startswith_def)
next
  case (JInt i)
  obtain c cs where "show_int i = c # cs" by (rule show_int_head)
  with JInt show ?case using scan_int_value [of rest i n wide fr] by (cases n) (auto simp del: scan_value.simps)
next
  case (JFloat t)
  then show ?case by simp
next
  case (JStr s)
  then obtain m where "n = Suc m" by (cases n) (auto simp: dump_string_def)
  then show ?case by (simp add: dump_string_def scan_dump_string)
next
  case (JArr xs)
  then obtain m where m: "n = Suc m" by (cases n) auto
  let ?text = "join isep (map (dump_json isep ksep) xs) @ CHR '']'' # rest"
  have head: "\<exists>c cs. dump_json isep ksep x = c # cs \<and> value_start c" if "x \<in> set xs" for x
    using that JArr.prems(1) dump_head [of x] by (auto simp: list_all_iff) metis
  show ?case
  proof (cases xs)
    case Nil
    with m show ?thesis by (simp add: skip_space_Cons json_space_def)
  next
    case (Cons x ys)
    have items: "scan_items wide fr m ?text = Some (xs, rest)"
      using JArr Cons head m isep by (intro scan_items_join [where z = "[]", simplified]) (auto simp: list_all_iff)
    obtain c cs where "dump_json isep ksep x = c # cs" "value_start c"
      using head [of x] Cons by auto
    then have "\<exists>q. ?text = c # q" "value_start c" using Cons by (cases ys; simp)+
    with m items show ?thesis by (auto simp: skip_space_Cons value_start_def)
  qed
next
  case (JObj kvs)
  then obtain m where m: "n = Suc m" by (cases n) auto
  let ?text = "join isep (map (dump_member ksep (dump_json isep ksep)) kvs) @ CHR ''}'' # rest"
  have plain: "plain_json v" if "(k, v) \<in> set kvs" for k v
    using that JObj.prems(1) by (auto simp: list_all_iff)
  have head: "\<exists>c cs. dump_json isep ksep v = c # cs \<and> value_start c" if "(k, v) \<in> set kvs" for k v
    using plain [OF that] dump_head [of v] by metis
  show ?case
  proof (cases kvs)
    case Nil
    with m show ?thesis by (simp add: skip_space_Cons json_space_def)
  next
    case (Cons kv ys)
    have members: "scan_members wide fr m ?text = Some (kvs, rest)"
      using JObj.prems(3) Cons head m isep ksep
      unfolding dump_member_def
      by (intro scan_members_join [where z = "[]", simplified] dump_string_quoted) (auto simp del: dump_json.simps(7) simp: dump_obj dump_member_def intro!: JObj.IH plain)
    have "\<exists>q. ?text = CHR 0x22 # q"
      using Cons by (cases ys) (simp_all add: dump_member_def member_text_def dump_string_def)
    then have "skip_space ?text = ?text" "\<exists>q. ?text = CHR 0x22 # q"
      by (auto simp: skip_space_Cons json_space_def)
    with m members JObj.prems(1) show ?thesis
      by (auto simp: dump_obj dict_of_distinct simp del: dump_json.simps(7))
  qed
qed

lemma loads_dump:
  assumes "separator (CHR '','') isep" "separator (CHR '':'') ksep" "plain_json v"
  shows "json_loads wide fr (dump_json isep ksep v) = Some v"
proof -
  obtain c cs where c: "dump_json isep ksep v = c # cs" "value_start c" using assms(3) by (rule dump_head)
  then have "skip_space (dump_json isep ksep v) = dump_json isep ksep v"
    by (simp add: skip_space_Cons value_start_def)
  moreover have "scan_value wide fr (length (dump_json isep ksep v)) (dump_json isep ksep v) = Some (v, [])"
    using scan_dump [OF assms(1,2), of v "[]"] assms(3) by (simp add: number_end_def)
  ultimately show ?thesis by (simp add: json_loads_def skip_space_def)
qed

lemma separators [simp]:
  "separator (CHR '','') '', ''" "separator (CHR '':'') '': ''" "separator (CHR '','') '',''" "separator (CHR '':'') '':''"
  by (simp_all add: separator_def json_space_def)

lemma loads_dumps: "plain_json v \<Longrightarrow> json_loads wide fr (json_dumps v) = Some v"
  by (simp add: json_dumps_def loads_dump)

interpretation json_text: codec json_dumps "json_loads wide fr" plain_json for wide fr
  by unfold_locales (rule loads_dumps)

end
