(* ===== verification/Web_Sessions.thy ===== *)
theory Web_Sessions
  imports Web_Domain Booking_Token Pyjson_Roundtrip
begin

text \<open>
  The two services together: what \<open>issue_token\<close> of the web service signs, \<open>verify_token\<close> of the
  booking service reads back. The services share no code, only the format.
\<close>

fun booking_role :: "web_role \<Rightarrow> role" where
  "booking_role WebClient = Client"
| "booking_role WebMaster = Master"

section \<open>The payload is plain text\<close>

definition seven_bit :: "char \<Rightarrow> bool" where
  "seven_bit c \<longleftrightarrow> 0 < (of_char c :: nat) \<and> (of_char c :: nat) < 128"

definition seven_bits :: "string \<Rightarrow> bool" where
  "seven_bits s \<longleftrightarrow> list_all seven_bit s"

lemma seven_bits_simps [simp]:
  "seven_bits []" "seven_bits (c # s) \<longleftrightarrow> seven_bit c \<and> seven_bits s"
  "seven_bits (s @ t) \<longleftrightarrow> seven_bits s \<and> seven_bits t"
  by (simp_all add: seven_bits_def)

lemma seven_bits_concat: "(\<And>x. x \<in> set xs \<Longrightarrow> seven_bits (f x)) \<Longrightarrow> seven_bits (concat (map f xs))"
  by (induction xs) simp_all

lemma seven_bits_hex: "seven_bits (fixed_digits 16 w n)"
proof -
  have "list_all seven_bit ''0123456789abcdef''" by (simp add: seven_bit_def)
  then show ?thesis using hex_chars [of w n] by (auto simp: seven_bits_def list_all_iff)
qed

lemma seven_bits_esc_char: "seven_bits (esc_char c)"
  by (auto simp: esc_char_def Let_def seven_bits_hex seven_bit_def simp del: fixed_digits.simps)

lemma seven_bits_dump_string: "seven_bits (dump_string s)"
  by (simp add: dump_string_def seven_bits_concat seven_bits_esc_char seven_bit_def)

lemma seven_bits_show_int: "seven_bits (show_int i)"
proof -
  have "seven_bits (show_nat n)" for n
    using show_nat_digits [of n] by (auto simp: seven_bits_def list_all_iff is_digit_def seven_bit_def)
  then show ?thesis by (simp add: show_int_def seven_bit_def)
qed

lemma seven_bits_encode:
  assumes "seven_bits s"
  shows "encode s = map of_char s" "byte_list (encode s)"
    "bytes_text other (encode s) = Some s"
proof -
  have "is_ascii s" using assms by (auto simp: is_ascii_def seven_bits_def seven_bit_def list_all_iff)
  then show e: "encode s = map of_char s" by (rule encode_ascii)
  have range: "0 < (of_char c :: int) \<and> (of_char c :: int) < 128" if "c \<in> set s" for c
  proof -
    have "0 < (of_char c :: nat)" "(of_char c :: nat) < 128"
      using assms that by (auto simp: seven_bits_def seven_bit_def list_all_iff)
    moreover have "(of_char c :: int) = int (of_char c)" by (simp only: of_nat_of_char)
    ultimately show ?thesis by linarith
  qed
  show "byte_list (encode s)" using range by (fastforce simp: e byte_list_def)
  show "bytes_text other (encode s) = Some s"
    using range by (simp add: e bytes_text_def list_all_iff map_idI)
qed

section \<open>The claims\<close>

lemma length_show_nat: "0 < k \<Longrightarrow> n < 10 ^ k \<Longrightarrow> length (show_nat n) \<le> k"
proof (induction k arbitrary: n)
  case (Suc k)
  show ?case
  proof (cases "n < 10")
    case False
    then have "0 < k" using Suc.prems by (cases k) auto
    moreover have "n div 10 < 10 ^ k" using Suc.prems by (simp add: less_mult_imp_div_less mult.commute)
    ultimately have "length (show_nat (n div 10)) \<le> k" by (rule Suc.IH)
    with False show ?thesis by (simp add: show_nat.simps [of n])
  qed (simp add: show_nat.simps [of n])
qed simp


lemma sorted_claims:
  "sort_keys (token_claims sub r expires) =
    JObj [(''exp'', JInt expires), (''role'', JStr (web_role_value r)), (''sub'', JStr sub)]"
proof -
  have "''exp'' < ''role''" "''role'' < ''sub''" "''exp'' < ''sub''" by code_simp+
  then show ?thesis
    by (simp add: token_claims_def WEB_SUBJECT_CLAIM_def WEB_ROLE_CLAIM_def WEB_EXPIRES_CLAIM_def
        sort_key_def order.strict_implies_not_eq not_le less_imp_le)
qed

definition claims_text :: "string \<Rightarrow> web_role \<Rightarrow> int \<Rightarrow> string" where
  "claims_text sub r expires = dump_json '','' '':'' (sort_keys (token_claims sub r expires))"

lemma seven_bits_claims: "seven_bits (claims_text sub r expires)"
  by (simp add: claims_text_def sorted_claims seven_bits_dump_string seven_bits_show_int seven_bit_def)

lemma loads_claims:
  assumes "\<bar>expires\<bar> < 10 ^ 20"
  shows "json_loads wide fr (claims_text sub r expires) =
    Some (JObj [(''exp'', JInt expires), (''role'', JStr (web_role_value r)), (''sub'', JStr sub)])"
proof -
  have "nat \<bar>expires\<bar> < 10 ^ 20" using assms by simp
  then have "length (show_nat (nat \<bar>expires\<bar>)) \<le> MAX_INT_DIGITS"
    using length_show_nat [of 20 "nat \<bar>expires\<bar>"] by (simp add: MAX_INT_DIGITS_def)
  then show ?thesis unfolding claims_text_def sorted_claims by (intro loads_dump) simp_all
qed

lemma claims_of_issued:
  assumes "\<bar>expires\<bar> < 10 ^ 20"
  shows "claims_of other wide fr (b64 (encode (claims_text sub r expires))) =
    Inr [(''exp'', JInt expires), (''role'', JStr (web_role_value r)), (''sub'', JStr sub)]"
  using seven_bits_encode(2,3) [OF seven_bits_claims]
  by (simp add: claims_of_def b64_def PADDING_def decode_encoded loads_claims [OF assms])

text \<open>The same format on both sides.\<close>

lemma issue_token_framed:
  "issue_token sub r secret now = Inr token \<longleftrightarrow> now + SESSION_LIFETIME \<le> MAX_MOMENT \<and>
     (let payload = b64 (encode (claims_text sub r (int_timestamp (now + SESSION_LIFETIME))))
      in token = ''v1.'' @ payload @ ''.'' @ signature payload secret)"
  by (auto simp: issue_token_def Let_def claims_text_def signature_def b64_def WEB_VERSION_PREFIX_def
      WEB_SEPARATOR_def VERSION_PREFIX_def SEPARATOR_def)

lemma name_char_id_char: "name_char = id_char"
  by (rule ext) (simp add: name_char_def id_char_def)

lemma clean_name_matches: "clean_name typed = Inr name \<Longrightarrow> matches_id name \<and> length name \<le> 64"
  by (auto simp: clean_name_def matches_name_def matches_id_def name_char_id_char
      MAX_NAME_LENGTH_def Let_def split: if_splits)

lemma int_timestamp_bound:
  "MIN_MOMENT \<le> t \<Longrightarrow> t \<le> MAX_MOMENT \<Longrightarrow> \<bar>int_timestamp t\<bar> < 10 ^ 20"
  by (auto simp: int_timestamp_def MIN_MOMENT_def MAX_MOMENT_def seconds_def)

text \<open>A token issued for any identifier, verified under the same secret.\<close>

lemma issued_token_verified:
  assumes "matches_id name" "length name \<le> 64" "issue_token name r secret now = Inr token" "MIN_MOMENT \<le> now"
  shows "verify_token other wide fr token secret later =
    (if later < seconds (int_timestamp (now + minutes (12 * 60)))
     then Inr \<lparr>subject = name, id_role = booking_role r\<rparr> else Inl (Domain ExpiredTokenError))"
proof -
  define expires where "expires = int_timestamp (now + SESSION_LIFETIME)"
  define payload where "payload = b64 (encode (claims_text name r expires))"
  have "now + SESSION_LIFETIME \<le> MAX_MOMENT" and token: "token = ''v1.'' @ payload @ ''.'' @ signature payload secret"
    using assms(3) by (simp_all add: issue_token_framed Let_def expires_def payload_def)
  then have bound: "\<bar>expires\<bar> < 10 ^ 20"
    unfolding expires_def using assms(4) by (intro int_timestamp_bound) (simp_all add: SESSION_LIFETIME_def minutes_def seconds_def)
  have "CHR ''.'' \<notin> set payload"
    unfolding payload_def b64_def by (intro dot_unpadded seven_bits_encode(2) seven_bits_claims)
  then have f: "framed token payload (signature payload secret)"
    by (simp add: framed_iff token signature_facts)
  have "role_of (web_role_value r) = Some (booking_role r)" by (cases r) (simp_all add: role_of_def)
  moreover have "claims_of other wide fr payload =
      Inr [(''exp'', JInt expires), (''role'', JStr (web_role_value r)), (''sub'', JStr name)]"
    unfolding payload_def by (rule claims_of_issued [OF bound])
  ultimately show ?thesis
    using assms(1,2)
    by (simp add: verify_token_framed [OF f] signature_facts identity_of_def dict_get_def SUBJECT_CLAIM_def ROLE_CLAIM_def EXPIRES_CLAIM_def
        MAX_EXTERNAL_ID_LENGTH_def matches_id_def int_value_def expires_def SESSION_LIFETIME_def Let_def)
qed

text \<open>
  What the web service signs for a person is what the booking service reads: for every name the
  login form accepts and every time of login, the token is verified under the same secret, at any
  later moment up to but not including the twelfth hour (cut to a second), as exactly that name and
  role; from then on it is an expired token.
\<close>

theorem session_token_round_trip:
  assumes "clean_name typed = Inr name" "issue_token name r secret now = Inr token" "MIN_MOMENT \<le> now"
  shows "verify_token other wide fr token secret later =
    (if later < seconds (int_timestamp (now + minutes (12 * 60)))
     then Inr \<lparr>subject = name, id_role = booking_role r\<rparr> else Inl (Domain ExpiredTokenError))"
  using clean_name_matches [OF assms(1)] issued_token_verified [OF _ _ assms(2,3)] by blast

lemma session_token_round_trip_witness:
  "\<exists>token. issue_token ''anna'' WebMaster ''golden-secret'' 1789956800000000 = Inr token \<and>
     verify_token (\<lambda>_. None) (\<lambda>_. []) (\<lambda>t. t) token ''golden-secret'' 1789999999999999
       = Inr \<lparr>subject = ''anna'', id_role = Master\<rparr> \<and>
     verify_token (\<lambda>_. None) (\<lambda>_. []) (\<lambda>t. t) token ''golden-secret'' 1790000000000000
       = Inl (Domain ExpiredTokenError)"
proof -
  obtain token where t: "issue_token ''anna'' WebMaster ''golden-secret'' 1789956800000000 = Inr token"
    by (auto simp: issue_token_def SESSION_LIFETIME_def MAX_MOMENT_def minutes_def seconds_def Let_def)
  have name: "clean_name '' anna '' = Inr ''anna''" by code_simp
  have now: "MIN_MOMENT \<le> 1789956800000000" by (simp add: MIN_MOMENT_def)
  have e: "seconds (int_timestamp (1789956800000000 + minutes (12 * 60))) = 1790000000000000"
    by (simp add: int_timestamp_def minutes_def seconds_def)
  show ?thesis
    using session_token_round_trip [OF name t now] t unfolding e by (intro exI [of _ token]) simp
qed

end
