(* ===== verification/Booking_Api.thy ===== *)
theory Booking_Api
  imports Booking_App Booking_Properties Web_Sessions
begin

text \<open>
  What the HTTP interface of booking answers, and on whose behalf it changes anything.
\<close>

section \<open>Statuses of the errors\<close>

lemma error_status_table:
  "error_status SlotNotFoundError = 404" "error_status BookingNotFoundError = 404" "error_status InvalidSlotError = 422"
  "error_status PaymentsUnavailableError = 503" "error_status PaymentConflictError = 409"
  "error_status SlotInPastError = 409" "error_status SlotAlreadyBookedError = 409"
  "error_status InvalidTransitionError = 409" "error_status BookingNotPayableError = 409"
  "error_status MissingTokenError = 401" "error_status InvalidTokenError = 401" "error_status ExpiredTokenError = 401"
  "error_status ForbiddenError = 403"
  by (simp_all add: error_status_def ERROR_STATUS_def is_instance_def)

lemma reply_with_simps [simp]:
  "reply_with code body (Inr x) = Answer code (body x)"
  "reply_with code body (Inl (Domain e)) = Answer (error_status e) (ErrorOut (error_code e))"
  "reply_with code body (Inl (Python p)) = Crash (Python p)"
  "reply_with code body (Inl (IntegrityError c)) = Crash (IntegrityError c)"
  by (simp_all add: reply_with_def domain_error_def)

section \<open>Answers of the endpoints\<close>

text \<open>An answer with one of the statuses, which changed nothing unless it is a success.\<close>

definition answers :: "int list \<Rightarrow> 's \<Rightarrow> 's \<times> api_reply \<Rightarrow> bool" where
  "answers codes s r \<longleftrightarrow>
     (case r of (s', Answer code body) \<Rightarrow> code \<in> set codes \<and> (400 \<le> code \<longrightarrow> s' = s \<and> (\<exists>c. body = ErrorOut c))
      | _ \<Rightarrow> False)"

lemma answers_Answer [simp]:
  "answers codes s (s', Answer code body) \<longleftrightarrow>
     code \<in> set codes \<and> (400 \<le> code \<longrightarrow> s' = s \<and> (\<exists>c. body = ErrorOut c))"
  "\<not> answers codes s (s', Crash e)"
  by (simp_all add: answers_def)

lemma get_owned_error:
  "wf_db s \<Longrightarrow> get_owned_booking s bid who = Inl e \<Longrightarrow> e = Domain BookingNotFoundError"
  unfolding get_owned_booking_def
  by (cases "get_booking s bid")
    (auto simp: get_booking_Inl get_booking_wf ensure_owner_Inl split: sum.splits elim: get_slot_of_booking)






section \<open>Who gets through\<close>

lemma caller_error:
  assumes "caller rd st c now = Inl e"
  shows "e \<in> {Domain MissingTokenError, Domain InvalidTokenError, Domain ExpiredTokenError}
    \<or> e = Python TypeError \<and> (\<exists>token. c = Some token \<and> \<not> is_ascii token)"
proof (cases c)
  case (Some token)
  with assms have v: "verify_token (rd_other rd) (rd_wide rd) (rd_float rd) token (st_auth_secret st) now = Inl e"
    by (simp add: caller_def)
  have "\<not> is_ascii token" if "e = Python TypeError"
    using v verify_token_raises [THEN iffD1, of _ _ _ token] that by (fastforce simp: framed_iff)
  with verify_token_error [OF v] Some show ?thesis by auto
qed (use assms in \<open>simp add: caller_def\<close>)

lemma caller_as_error:
  "caller_as required rd st c now = Inl e \<Longrightarrow> caller rd st c now = Inl e \<or> e = Domain ForbiddenError"
  by (auto simp: caller_as_def ensure_role_def try_bind_def split: sum.splits if_splits)

lemma caller_as_Inr:
  "caller_as required rd st c now = Inr who \<longleftrightarrow> caller rd st c now = Inr who \<and> id_role who = required"
  by (auto simp: caller_as_def ensure_role_def try_bind_def split: sum.splits if_splits)

text \<open>What a request is answered: by one of the statuses, or 500 for a token that is not ASCII.\<close>

definition answered :: "int list \<Rightarrow> string option \<Rightarrow> 's \<Rightarrow> 's \<times> api_reply \<Rightarrow> bool" where
  "answered codes c s r \<longleftrightarrow> answers codes s r
     \<or> r = (s, Crash (Python TypeError)) \<and> (\<exists>token. c = Some token \<and> \<not> is_ascii token)"


lemma guarded_caller_as_answers:
  assumes "\<And>who. caller_as required rd st c now = Inr who \<Longrightarrow> answers codes s (endpoint who)"
    "401 \<in> set codes" "403 \<in> set codes"
  shows "answered codes c s (guarded (caller_as required rd st c now) endpoint s)"
  using assms caller_error [of rd st c now] caller_as_error [of required rd st c now]
  by (cases "caller_as required rd st c now") (auto simp: guarded_def answered_def error_status_table)

section \<open>Paying\<close>

definition client_unreadable :: "py_error set" where
  "client_unreadable = {ValueError, KeyError, TypeError, AttributeError}"

lemma item_error: "item v key = Inl e \<Longrightarrow> e \<in> client_unreadable"
  by (auto simp: item_def client_unreadable_def split: json.splits option.splits)

lemma as_uuid_error: "as_uuid v = Inl e \<Longrightarrow> e \<in> client_unreadable"
  by (auto simp: as_uuid_def client_unreadable_def split: json.splits option.splits)

lemma read_payment_error: "read_payment answer = Inl e \<Longrightarrow> e \<in> client_unreadable"
  by (auto simp: read_payment_def try_bind_def split: option.splits sum.splits dest: item_error as_uuid_error)
    (simp add: client_unreadable_def)

lemma payment_out_of_error: "payment_out_of p = Inl e \<Longrightarrow> e = Python ValueError"
  by (auto simp: payment_out_of_def split: json.splits)

lemma booking_create_payment_error:
  "booking_create_payment http bid amount w = (w', Inl e) \<Longrightarrow>
    e \<in> {Domain PaymentsUnavailableError, Domain PaymentConflictError} \<union> Python ` client_unreadable"
  by (auto simp: booking_create_payment_def Let_def split: prod.splits http_reply.splits if_splits sum.splits
      dest: read_payment_error)

lemma payable_error:
  assumes "wf_db s" "get_payable_booking s bid who now ttl = Inl e"
  shows "e \<in> {Domain BookingNotFoundError, Domain BookingNotPayableError}"
  using assms(2) get_owned_error [OF assms(1), of bid who]
  by (cases "get_owned_booking s bid who") (auto simp: get_payable_booking_def split: if_splits)

lemma post_payment_answers:
  assumes "wf_db s" "post_payment http bid now ttl who (s, w) = ((s', w'), reply)"
  shows "s' = s" "answers [200, 404, 409, 503] s (s', reply) \<or> reply \<in> Crash ` Python ` client_unreadable"
    "w' \<noteq> w \<Longrightarrow> \<exists>b sl. get_payable_booking s bid who now ttl = Inr (b, sl)"
proof -
  have "s' = s \<and> (answers [200, 404, 409, 503] s (s', reply) \<or> reply \<in> Crash ` Python ` client_unreadable)
    \<and> (w' \<noteq> w \<longrightarrow> (\<exists>b sl. get_payable_booking s bid who now ttl = Inr (b, sl)))"
  proof (cases "get_payable_booking s bid who now ttl")
    case (Inl e)
    with assms payable_error [OF assms(1) Inl] show ?thesis by (auto simp: post_payment_def error_status_table)
  next
    case (Inr row)
    obtain b sl where row: "row = (b, sl)" by fastforce
    obtain w2 r where r: "booking_create_payment http bid (sl_price_minor sl) w = (w2, r)" by fastforce
    show ?thesis
    proof (cases r)
      case (Inl e)
      then have "e \<in> {Domain PaymentsUnavailableError, Domain PaymentConflictError} \<union> Python ` client_unreadable"
        using booking_create_payment_error [of http bid "sl_price_minor sl" w w2 e] r by simp
      with assms(2) Inr row r Inl show ?thesis by (auto simp: post_payment_def error_status_table)
    next
      case payment: (Inr p)
      show ?thesis
      proof (cases "payment_out_of p")
        case (Inl e)
        then have "e = Python ValueError" by (rule payment_out_of_error)
        with assms(2) Inr row r payment Inl show ?thesis by (auto simp: post_payment_def client_unreadable_def)
      next
        case (Inr q)
        with assms(2) \<open>get_payable_booking s bid who now ttl = Inr row\<close> row r payment show ?thesis
          by (auto simp: post_payment_def)
      qed
    qed
  qed
  then show "s' = s" "answers [200, 404, 409, 503] s (s', reply) \<or> reply \<in> Crash ` Python ` client_unreadable"
    "w' \<noteq> w \<Longrightarrow> \<exists>b sl. get_payable_booking s bid who now ttl = Inr (b, sl)" by blast+
qed

section \<open>The documented interface\<close>

fun credentials :: "api_request \<Rightarrow> string option" where
  "credentials (PostSlots c starts ends price) = c"
| "credentials (GetSlots master day) = None"
| "credentials (PostBookings c sid) = c"
| "credentials (GetBookings c) = c"
| "credentials (PostPayment c bid) = c"
| "credentials (GetBooking c bid) = c"
| "credentials (DeleteBooking c bid) = c"
| "credentials (PostConfirm bid) = None"

lemma answers_mono: "answers codes s r \<Longrightarrow> set codes \<subseteq> set codes' \<Longrightarrow> answers codes' s r"
  by (auto simp: answers_def split: prod.splits api_reply.splits)


lemma serve_payment:
  assumes "wf_db s" "serve rd st http auth_now now (PostPayment c bid) (s, w) = ((s', w'), reply)"
  shows "s' = s \<and> (answered (documented (PostPayment c bid)) c s (s', reply) \<or> reply \<in> Crash ` Python ` client_unreadable)"
proof (cases "a_client rd st c auth_now")
  case (Inl e)
  have "answered (documented (PostPayment c bid)) c s (guarded (a_client rd st c auth_now) (\<lambda>i. (s, Answer 200 (ErrorOut []))) s)"
    unfolding a_client_def by (rule guarded_caller_as_answers) auto
  with Inl assms(2) show ?thesis by (auto simp: guarded_def)
next
  case (Inr who)
  with assms(2) have p: "post_payment http bid now (st_pending_ttl st) who (s, w) = ((s', w'), reply)"
    by (simp add: guarded_def)
  from post_payment_answers(1,2) [OF assms(1) p] show ?thesis
    by (auto simp: answered_def intro: answers_mono)
qed

section \<open>On whose behalf\<close>

definition owns :: "booking_db \<Rightarrow> identity \<Rightarrow> uuid \<Rightarrow> bool" where
  "owns s who bid \<longleftrightarrow> (\<exists>b \<in> set (bookings s). \<exists>sl \<in> set (slots s).
     bk_id b = bid \<and> sl_id sl = bk_slot_id b \<and> is_side_of who (bk_client_id b) (sl_master_id sl))"

lemma get_owned_owns:
  "wf_db s \<Longrightarrow> get_owned_booking s bid who = Inr (b, sl) \<Longrightarrow> owns s who bid"
  by (auto simp: get_owned_Inr get_booking_wf get_slot_wf ensure_owner_Inr owns_def)

lemma post_slots_change:
  assumes "wf_db s" "post_slots s starts ends price now who = (s', reply)" "s' \<noteq> s"
  shows "bookings s' = bookings s \<and> (\<exists>sl. slots s' = slots s @ [sl] \<and> sl_master_id sl = subject who)"
  using assms(2,3) by (auto simp: post_slots_def create_slot_cases [OF assms(1)] Let_def split: option.splits if_splits)

lemma post_bookings_change:
  assumes "wf_db s" "post_bookings s sid now ttl who = (s', reply)" "s' \<noteq> s"
  shows "slots s' = slots s \<and> (\<exists>old b. bookings s' = old @ [b] \<and> bk_client_id b = subject who \<and> bk_slot_id b = sid)"
  using assms(2,3)
  by (auto simp: post_bookings_def book_slot_cases [OF assms(1)] Let_def insert_booking_simps apply_change_simps
      new_booking_simps split: option.splits if_splits)

lemma delete_change:
  assumes "wf_db s" "delete_booking s bid now who = (s', reply)" "s' \<noteq> s"
  shows "owns s who bid \<and> slots s' = slots s
    \<and> bookings s' = map (\<lambda>r. if bk_id r = bid then set_status Cancelled now r else r) (bookings s)"
proof -
  obtain r where r: "cancel_booking s bid who now = (s', r)"
    using assms(2) by (cases "cancel_booking s bid who now") (simp add: delete_booking_def)
  obtain b sl where o: "get_owned_booking s bid who = Inr (b, sl)"
    using r assms(3) by (cases "get_owned_booking s bid who") (auto simp: cancel_booking_def)
  then have b: "bk_id b = bid" "get_by bk_id bid (bookings s) = Some b"
    using get_by_SomeD by (fastforce simp: get_owned_Inr get_booking_Inr)+
  with r o have "change_status s bid Cancelled now = (s', r)" by (simp add: cancel_booking_def)
  with b assms(3) have "slots s' = slots s \<and> bookings s' = update_where (row_is b) (set_status Cancelled now) (bookings s)"
    by (auto simp: change_status_cases [OF assms(1)] apply_change_simps split: if_splits)
  moreover have "b \<in> set (bookings s)" using o by (simp add: get_owned_Inr get_booking_wf [OF assms(1)])
  ultimately have "slots s' = slots s \<and> bookings s' = map (\<lambda>r. if bk_id r = bid then set_status Cancelled now r else r) (bookings s)"
    using update_row_is [OF assms(1)] b(1) by simp
  with get_owned_owns [OF assms(1) o] show ?thesis by simp
qed

text \<open>What a request may do to the database for the caller it proves.\<close>

fun within_rights :: "moment \<Rightarrow> api_request \<Rightarrow> identity \<Rightarrow> booking_db \<Rightarrow> booking_db \<Rightarrow> bool" where
  "within_rights now (PostSlots c starts ends price) who s s' \<longleftrightarrow>
     id_role who = Master \<and> bookings s' = bookings s
     \<and> (\<exists>sl. slots s' = slots s @ [sl] \<and> sl_master_id sl = subject who)"
| "within_rights now (PostBookings c sid) who s s' \<longleftrightarrow>
     id_role who = Client \<and> slots s' = slots s
     \<and> (\<exists>old b. bookings s' = old @ [b] \<and> bk_client_id b = subject who \<and> bk_slot_id b = sid)"
| "within_rights now (PostPayment c bid) who s s' \<longleftrightarrow> id_role who = Client \<and> owns s who bid \<and> s' = s"
| "within_rights now (DeleteBooking c bid) who s s' \<longleftrightarrow>
     owns s who bid \<and> slots s' = slots s
     \<and> bookings s' = map (\<lambda>r. if bk_id r = bid then set_status Cancelled now r else r) (bookings s)"
| "within_rights now req who s s' \<longleftrightarrow> False"

lemma guarded_changes:
  "guarded who endpoint s = (s', reply) \<Longrightarrow> s' \<noteq> s \<Longrightarrow> \<exists>i. who = Inr i \<and> endpoint i = (s', reply)"
  by (cases who) (auto simp: guarded_def)

section \<open>Properties\<close>


definition example_reader :: text_reader where
  "example_reader = \<lparr>rd_other = (\<lambda>bs. None), rd_wide = (\<lambda>n. []), rd_float = (\<lambda>t. t)\<rparr>"

definition example_settings :: api_settings where
  "example_settings = \<lparr>st_auth_secret = ''golden-secret'', st_pending_ttl = 100\<rparr>"

definition no_network :: "unit transport" where
  "no_network request w = (w, HTTPError)"

text \<open>The token of a person, issued by the web service at the epoch.\<close>

lemma example_token:
  assumes "matches_id name" "length name \<le> 64"
  obtains token where "caller example_reader example_settings (Some token) 20 = Inr \<lparr>subject = name, id_role = booking_role r\<rparr>"
proof -
  obtain token where t: "issue_token name r ''golden-secret'' 0 = Inr token"
    by (auto simp: issue_token_def SESSION_LIFETIME_def MAX_MOMENT_def minutes_def seconds_def Let_def)
  have "(20::int) < seconds (int_timestamp (0 + minutes (12 * 60)))"
    by (simp add: int_timestamp_def minutes_def seconds_def)
  then have "verify_token other wide fr token ''golden-secret'' 20 = Inr \<lparr>subject = name, id_role = booking_role r\<rparr>" for other wide fr
    using issued_token_verified [OF assms t, of other wide fr 20] by (simp add: MIN_MOMENT_def)
  then show ?thesis by (intro that [of token]) (simp add: caller_def example_settings_def)
qed


text \<open>
  C9. Whoever calls, the tables and the payments service are only touched within the rights of a
  verified caller: a slot is published in the name of the master who sent it, a booking is made in
  the name of the client who sent it, a booking is cancelled by one of its two sides, a payment is
  started by the client of the booking. The one exception is the internal confirmation, which takes
  no token.
\<close>

theorem changes_within_rights:
  assumes "wf_db s" "serve rd st http auth_now now req (s, w) = ((s', w'), reply)" "(s', w') \<noteq> (s, w)"
  shows "(\<exists>bid. req = PostConfirm bid)
    \<or> (\<exists>who. caller rd st (credentials req) auth_now = Inr who \<and> within_rights now req who s s')"
proof (cases req)
  case (PostSlots c starts ends price)
  with assms(2,3) have "guarded (a_master rd st c auth_now) (post_slots s starts ends price now) s = (s', reply)"
    "s' \<noteq> s" by (auto simp: Let_def split: prod.splits)
  from guarded_changes [OF this] \<open>s' \<noteq> s\<close> PostSlots show ?thesis
    by (auto simp: a_master_def caller_as_Inr dest!: post_slots_change [OF assms(1)])
next
  case (PostBookings c sid)
  with assms(2,3) have "guarded (a_client rd st c auth_now) (post_bookings s sid now (st_pending_ttl st)) s = (s', reply)"
    "s' \<noteq> s" by (auto simp: Let_def split: prod.splits)
  from guarded_changes [OF this] \<open>s' \<noteq> s\<close> PostBookings show ?thesis
    by (auto simp: a_client_def caller_as_Inr dest!: post_bookings_change [OF assms(1)])
next
  case (DeleteBooking c bid)
  with assms(2,3) have "guarded (caller rd st c auth_now) (delete_booking s bid now) s = (s', reply)" "s' \<noteq> s"
    by (auto simp: Let_def split: prod.splits)
  from guarded_changes [OF this] \<open>s' \<noteq> s\<close> DeleteBooking show ?thesis
    by (auto dest!: delete_change [OF assms(1)])
next
  case (PostPayment c bid)
  then have "w' \<noteq> w" "s' = s" using assms(3) serve_payment [OF assms(1), of rd st http auth_now now c bid w s' w' reply] assms(2)
    by auto
  with assms(2) PostPayment obtain who where who: "a_client rd st c auth_now = Inr who"
    and p: "post_payment http bid now (st_pending_ttl st) who (s, w) = ((s', w'), reply)"
    by (auto dest: guarded_changes)
  from post_payment_answers(3) [OF assms(1) p \<open>w' \<noteq> w\<close>] obtain b sl
    where "get_payable_booking s bid who now (st_pending_ttl st) = Inr (b, sl)" by blast
  then have "owns s who bid"
    by (auto simp: get_payable_booking_def try_bind_Inr_iff split: if_splits intro: get_owned_owns [OF assms(1)])
  with who PostPayment \<open>s' = s\<close> show ?thesis by (auto simp: a_client_def caller_as_Inr)
qed (use assms(2,3) in \<open>auto simp: guarded_def get_bookings_def get_booking_by_id_def split: sum.splits prod.splits\<close>)

theorem changes_within_rights_witness:
  "\<exists>token s' reply. serve example_reader example_settings no_network 20 20 (DeleteBooking (Some token) 1) (example_db, ())
       = ((s', ()), reply) \<and> s' \<noteq> example_db
     \<and> within_rights 20 (DeleteBooking (Some token) 1) \<lparr>subject = ''c'', id_role = Client\<rparr> example_db s'"
proof -
  let ?who = "\<lparr>subject = ''c'', id_role = Client\<rparr>"
  have "matches_id ''c''" by code_simp
  then obtain token where t: "caller example_reader example_settings (Some token) 20 = Inr ?who"
    by (rule example_token [where r = WebClient]) simp_all
  obtain s' r where r: "cancel_booking example_db 1 ?who 20 = (s', r)" by fastforce
  have "get_owned_booking example_db 1 ?who = Inr (example_booking, example_slot)"
    by (simp add: get_owned_Inr get_booking_def get_slot_def ensure_owner_Inr is_side_of_def example_defs)
  with r have "change_status example_db 1 Cancelled 20 = (s', r)" by (simp add: cancel_booking_def example_booking_def)
  moreover have "get_by bk_id 1 (bookings example_db) = Some example_booking" by (simp add: example_defs)
  ultimately have "bookings s' = update_where (row_is example_booking) (set_status Cancelled 20) (bookings example_db)"
    by (auto simp: change_status_cases [OF example_wf] example_booking_def)
  then have "bookings s' \<noteq> bookings example_db"
    by (simp add: example_defs row_is_def set_status_def update_where_def)
  then have changed: "(s', ()) \<noteq> (example_db, ())" by auto
  have s: "serve example_reader example_settings no_network 20 20 (DeleteBooking (Some token) 1) (example_db, ())
      = ((s', ()), reply_with 200 BookingOut r)"
    using r by (simp add: guarded_def t delete_booking_def)
  have "within_rights 20 (DeleteBooking (Some token) 1) ?who example_db s'"
    using changes_within_rights [OF example_wf s changed] t by (simp del: within_rights.simps)
  with s changed show ?thesis by (intro exI conjI) auto
qed

end
