(* ===== verification/Payments_Domain.thy ===== *)
theory Payments_Domain
  imports Pytime Pyhash
begin

text \<open>
  \<open>services/payments/src/payments/domain.py\<close>: the statuses of a payment, the events of the
  provider, the errors, and the signature of a webhook.
\<close>

section \<open>Statuses and events\<close>

datatype payment_status = PayPending | PaySucceeded | PayFailed

fun payment_status_value :: "payment_status \<Rightarrow> string" where
  "payment_status_value PayPending = ''pending''"
| "payment_status_value PaySucceeded = ''succeeded''"
| "payment_status_value PayFailed = ''failed''"

fun PAYMENT_TRANSITIONS :: "payment_status \<Rightarrow> payment_status list" where
  "PAYMENT_TRANSITIONS PayPending = [PaySucceeded, PayFailed]"
| "PAYMENT_TRANSITIONS PaySucceeded = []"
| "PAYMENT_TRANSITIONS PayFailed = []"

definition EVENT_TARGET_STATUS :: "(string \<times> payment_status) list" where
  "EVENT_TARGET_STATUS = [(''charge.succeeded'', PaySucceeded), (''charge.failed'', PayFailed)]"

definition SIGNATURE_PREFIX :: string where
  "SIGNATURE_PREFIX = ''sha256=''"

definition CONFIRM_BOOKING :: string where
  "CONFIRM_BOOKING = ''booking.confirm''"

definition REFUND_PAYMENT :: string where
  "REFUND_PAYMENT = ''payment.refund''"

definition target_status :: "string \<Rightarrow> payment_status option" where
  "target_status ty = map_of EVENT_TARGET_STATUS ty"

definition can_transition :: "payment_status \<Rightarrow> payment_status \<Rightarrow> bool" where
  "can_transition current target \<longleftrightarrow> target \<in> set (PAYMENT_TRANSITIONS current)"

section \<open>Errors\<close>

datatype payment_error =
  PayDomainError | InvalidSignatureError | InvalidEventError | PaymentNotFoundError
| PayConflictError | ProviderUnavailableError | BookingUnavailableError | BookingRejectedError

fun payment_error_code :: "payment_error \<Rightarrow> string" where
  "payment_error_code PayDomainError = ''domain_error''"
| "payment_error_code InvalidSignatureError = ''invalid_signature''"
| "payment_error_code InvalidEventError = ''invalid_event''"
| "payment_error_code PaymentNotFoundError = ''payment_not_found''"
| "payment_error_code PayConflictError = ''payment_conflict''"
| "payment_error_code ProviderUnavailableError = ''provider_unavailable''"
| "payment_error_code BookingUnavailableError = ''booking_unavailable''"
| "payment_error_code BookingRejectedError = ''booking_rejected''"

section \<open>The signature of a webhook\<close>

definition sign :: "bytes \<Rightarrow> string \<Rightarrow> string" where
  "sign body secret = SIGNATURE_PREFIX @ hexdigest (hmac_sha256 (encode secret) body)"

definition verify_signature :: "bytes \<Rightarrow> string option \<Rightarrow> string \<Rightarrow> payment_error exn + unit" where
  "verify_signature body header secret =
     (case header of
        None \<Rightarrow> Inl (Domain InvalidSignatureError)
      | Some h \<Rightarrow>
          (case compare_digest h (sign body secret) of
             Inl e \<Rightarrow> Inl (Python e)
           | Inr same \<Rightarrow> if \<not> same then Inl (Domain InvalidSignatureError) else Inr ()))"

section \<open>Facts\<close>

fun payment_rank :: "payment_status \<Rightarrow> nat" where
  "payment_rank PayPending = 0"
| "payment_rank PaySucceeded = 1"
| "payment_rank PayFailed = 1"

interpretation pay: status_machine can_transition payment_rank 1
proof unfold_locales
  fix a b
  show "can_transition a b \<Longrightarrow> payment_rank a < payment_rank b"
    by (cases a; cases b) (simp_all add: can_transition_def)
  show "payment_rank a \<le> 1" by (cases a) simp_all
qed

lemma target_status_iff:
  "target_status ty = Some t \<longleftrightarrow>
     (ty = ''charge.succeeded'' \<and> t = PaySucceeded) \<or> (ty = ''charge.failed'' \<and> t = PayFailed)"
  by (auto simp: target_status_def EVENT_TARGET_STATUS_def)

lemma can_transition_iff: "can_transition a b \<longleftrightarrow> a = PayPending \<and> b \<noteq> PayPending"
  by (cases a; cases b) (simp_all add: can_transition_def)

lemma sign_ascii: "is_ascii (sign body secret)"
  by (simp add: sign_def SIGNATURE_PREFIX_def)

lemma length_sign: "length (sign body secret) = 71"
  by (simp add: sign_def SIGNATURE_PREFIX_def length_hexdigest hmac_sha256_def)

text \<open>
  A webhook is accepted exactly when its header is the signature of its body under the secret;
  a missing header and any other ASCII header are refused, but a header with a character outside ASCII
  is neither: the comparison raises, which nobody catches.
\<close>

theorem verify_signature_outcome:
  "(verify_signature body header secret = Inr () \<longleftrightarrow> header = Some (sign body secret))
   \<and> (verify_signature body header secret = Inl (Domain InvalidSignatureError) \<longleftrightarrow>
        header = None \<or> (\<exists>h. header = Some h \<and> is_ascii h \<and> h \<noteq> sign body secret))
   \<and> (verify_signature body header secret = Inl (Python TypeError) \<longleftrightarrow>
        (\<exists>h. header = Some h \<and> \<not> is_ascii h))"
  by (auto simp: verify_signature_def compare_digest_def sign_ascii split: option.splits)

end
