(* ===== verification/Payments_Clients.thy ===== *)
theory Payments_Clients
  imports Payments_Domain Http
begin

text \<open>
  \<open>services/payments/src/payments/paystub.py\<close> and \<open>booking_client.py\<close>: the requests payments makes
  and how it reads the answers.
\<close>

record charge =
  ch_id :: string
  ch_checkout_url :: string

record refund =
  rf_id :: string
  rf_status :: string

definition charge_request :: "uuid \<Rightarrow> int \<Rightarrow> string \<Rightarrow> json" where
  "charge_request payment_id amount_minor currency =
     JObj [(''amount'', JInt amount_minor), (''currency'', JStr currency),
           (''reference'', JStr (uuid_str payment_id))]"

definition refund_request :: "string \<Rightarrow> int \<Rightarrow> json" where
  "refund_request charge_id amount_minor =
     JObj [(''charge_id'', JStr charge_id), (''amount'', JInt amount_minor)]"

text \<open>A POST to PayStub under an idempotency key, and the two fields read from its answer.\<close>

definition paystub_post ::
  "'w transport \<Rightarrow> string \<Rightarrow> uuid \<Rightarrow> json \<Rightarrow> string \<Rightarrow> string \<Rightarrow> 'w
   \<Rightarrow> 'w \<times> (payment_error exn + string \<times> string)" where
  "paystub_post http path payment_id body field1 field2 w =
     (let (w', reply) = http \<lparr>rq_method = ''POST'', rq_path = path,
            rq_headers = [(''Idempotency-Key'', uuid_str payment_id)], rq_json = Some body\<rparr> w
      in (w', case reply of
           HTTPError \<Rightarrow> Inl (Domain ProviderUnavailableError)
         | Reply status answer \<Rightarrow>
             if status \<noteq> 200 \<and> status \<noteq> 201 then Inl (Domain ProviderUnavailableError)
             else (case text_field answer field1 of
                     Inl e \<Rightarrow> Inl (Python e)
                   | Inr a \<Rightarrow> (case text_field answer field2 of
                                Inl e \<Rightarrow> Inl (Python e)
                              | Inr b \<Rightarrow> Inr (a, b)))))"

definition create_charge ::
  "'w transport \<Rightarrow> uuid \<Rightarrow> int \<Rightarrow> string \<Rightarrow> 'w \<Rightarrow> 'w \<times> (payment_error exn + charge)" where
  "create_charge http payment_id amount_minor currency w =
     (let (w', r) = paystub_post http ''/v1/charges'' payment_id
            (charge_request payment_id amount_minor currency) ''id'' ''checkout_url'' w
      in (w', case r of Inl e \<Rightarrow> Inl e
                      | Inr (a, b) \<Rightarrow> Inr \<lparr>ch_id = a, ch_checkout_url = b\<rparr>))"

definition create_refund ::
  "'w transport \<Rightarrow> uuid \<Rightarrow> string \<Rightarrow> int \<Rightarrow> 'w \<Rightarrow> 'w \<times> (payment_error exn + refund)" where
  "create_refund http payment_id charge_id amount_minor w =
     (let (w', r) = paystub_post http ''/v1/refunds'' payment_id
            (refund_request charge_id amount_minor) ''id'' ''status'' w
      in (w', case r of Inl e \<Rightarrow> Inl e | Inr (a, b) \<Rightarrow> Inr \<lparr>rf_id = a, rf_status = b\<rparr>))"

definition confirm_request :: "uuid \<Rightarrow> http_request" where
  "confirm_request booking_id =
     \<lparr>rq_method = ''POST'', rq_path = ''/internal/bookings/'' @ uuid_str booking_id @ ''/confirm'',
      rq_headers = [], rq_json = None\<rparr>"

text \<open>\<open>BookingClient.confirm\<close>.\<close>

definition confirm :: "'w transport \<Rightarrow> uuid \<Rightarrow> 'w \<Rightarrow> 'w \<times> (payment_error exn + unit)" where
  "confirm http booking_id w =
     (let (w', reply) = http (confirm_request booking_id) w
      in (w', case reply of
           HTTPError \<Rightarrow> Inl (Domain BookingUnavailableError)
         | Reply status _ \<Rightarrow>
             if status = 409 then Inl (Domain BookingRejectedError)
             else if status \<noteq> 200 then Inl (Domain BookingUnavailableError)
             else Inr ()))"

end
