(* ===== verification/Payments_Service.thy ===== *)
theory Payments_Service
  imports Payments_Clients
begin

text \<open>
  \<open>services/payments/src/payments/models.py\<close> and \<open>service.py\<close>: the tables with their constraints and
  the use cases. A use case that calls PayStub commits before the call and again after it; the
  halves are definitions of their own, so that other requests can run in between.
\<close>

section \<open>Tables\<close>

record payment =
  pm_id :: uuid
  pm_booking_id :: uuid
  pm_amount_minor :: int
  pm_currency :: string
  pm_status :: payment_status
  pm_provider_charge_id :: "string option"
  pm_checkout_url :: "string option"
  pm_needs_refund :: bool
  pm_provider_refund_id :: "string option"
  pm_refunded_at :: "moment option"
  pm_created_at :: moment
  pm_updated_at :: moment

record provider_event =
  pe_event_id :: string
  pe_event_type :: string
  pe_received_at :: moment

record command =
  cm_id :: uuid
  cm_topic :: string
  cm_payload :: "(string \<times> json) list"
  cm_published_at :: "moment option"
  cm_attempts :: int
  cm_last_error :: "string option"

record pay_db =
  payments :: "payment list"
  provider_events :: "provider_event list"
  commands :: "command list"
  pay_next_uuid :: uuid

definition ONE_PAYMENT_PER_BOOKING :: string where
  "ONE_PAYMENT_PER_BOOKING = ''uq_payments_booking_id''"

definition pay_violated_constraint :: "pay_db \<Rightarrow> string option" where
  "pay_violated_constraint s =
     (if \<not> list_all (\<lambda>p. 0 < pm_amount_minor p) (payments s) then Some ''ck_payments_amount_positive''
      else if \<not> distinct (map pm_id (payments s)) then Some ''payments_pkey''
      else if \<not> distinct (map pm_booking_id (payments s)) then Some ONE_PAYMENT_PER_BOOKING
      else if \<not> distinct (map pe_event_id (provider_events s)) then Some ''provider_events_pkey''
      else if \<not> distinct (map cm_id (commands s)) then Some ''outbox_messages_pkey''
      else None)"

text \<open>\<open>session.add(OutboxMessage(...))\<close>: a new row, under the next UUID.\<close>

definition add_command :: "string \<Rightarrow> (string \<times> json) list \<Rightarrow> pay_db \<Rightarrow> pay_db" where
  "add_command topic payload s =
     s\<lparr>commands := commands s @ [\<lparr>cm_id = pay_next_uuid s, cm_topic = topic, cm_payload = payload,
         cm_published_at = None, cm_attempts = 0, cm_last_error = None\<rparr>],
       pay_next_uuid := Suc (pay_next_uuid s)\<rparr>"

definition update_payment :: "uuid \<Rightarrow> (payment \<Rightarrow> payment) \<Rightarrow> pay_db \<Rightarrow> pay_db" where
  "update_payment pid f s = s\<lparr>payments := update_where (\<lambda>p. pm_id p = pid) f (payments s)\<rparr>"

section \<open>Creating a payment\<close>

text \<open>Up to the call of PayStub: the payment and whether this call created it.\<close>

definition reserve_payment ::
  "pay_db \<Rightarrow> uuid \<Rightarrow> int \<Rightarrow> string \<Rightarrow> moment \<Rightarrow> pay_db \<times> (payment_error exn + payment \<times> bool)" where
  "reserve_payment s bid amount currency now =
     (let p = \<lparr>pm_id = pay_next_uuid s, pm_booking_id = bid, pm_amount_minor = amount,
               pm_currency = currency, pm_status = PayPending, pm_provider_charge_id = None,
               pm_checkout_url = None, pm_needs_refund = False, pm_provider_refund_id = None,
               pm_refunded_at = None, pm_created_at = now, pm_updated_at = now\<rparr>;
          s1 = s\<lparr>payments := payments s @ [p], pay_next_uuid := Suc (pay_next_uuid s)\<rparr>
      in case pay_violated_constraint s1 of
           None \<Rightarrow> (s1, Inr (p, True))
         | Some c \<Rightarrow>
             if c \<noteq> ONE_PAYMENT_PER_BOOKING then (s, Inl (IntegrityError c))
             else (case get_by pm_booking_id bid (payments s) of
                     None \<Rightarrow> (s, Inl (Python NoResultFound))
                   | Some q \<Rightarrow>
                       if (pm_amount_minor q, pm_currency q) \<noteq> (amount, currency)
                       then (s, Inl (Domain PayConflictError)) else (s, Inr (q, False))))"

text \<open>
  What PayStub answered is stored, unless a concurrent request stored it first. The columns are VARCHARs: a
  value that does not fit is an error of the driver.
\<close>

definition fits_charge :: "charge \<Rightarrow> bool" where
  "fits_charge charge \<longleftrightarrow> length (ch_id charge) \<le> 64 \<and> length (ch_checkout_url charge) \<le> 512"

definition store_charge :: "uuid \<Rightarrow> charge \<Rightarrow> moment \<Rightarrow> pay_db \<Rightarrow> pay_db" where
  "store_charge pid charge now s =
     s\<lparr>payments := update_where (\<lambda>p. pm_id p = pid \<and> pm_provider_charge_id p = None)
         (\<lambda>p. p\<lparr>pm_provider_charge_id := Some (ch_id charge),
               pm_checkout_url := Some (ch_checkout_url charge), pm_updated_at := now\<rparr>) (payments s)\<rparr>"

definition create_payment ::
  "'w transport \<Rightarrow> pay_db \<Rightarrow> 'w \<Rightarrow> uuid \<Rightarrow> int \<Rightarrow> string \<Rightarrow> moment
   \<Rightarrow> pay_db \<times> 'w \<times> (payment_error exn + payment \<times> bool)" where
  "create_payment http s w bid amount currency now =
     (case reserve_payment s bid amount currency now of
        (s1, Inl e) \<Rightarrow> (s1, w, Inl e)
      | (s1, Inr (p, created)) \<Rightarrow>
          if pm_provider_charge_id p \<noteq> None then (s1, w, Inr (p, created))
          else (case create_charge http (pm_id p) amount currency w of
                  (w', Inl e) \<Rightarrow> (s1, w', Inl e)
                | (w', Inr charge) \<Rightarrow>
                    if \<not> fits_charge charge then (s1, w', Inl (Python DataError))
                    else
                    (let s2 = store_charge (pm_id p) charge now s1
                     in (s2, w', case get_by pm_id (pm_id p) (payments s2) of
                           None \<Rightarrow> Inl (Python NoResultFound)
                         | Some q \<Rightarrow> Inr (q, created)))))"

definition get_payment :: "pay_db \<Rightarrow> uuid \<Rightarrow> payment_error exn + payment" where
  "get_payment s pid =
     (case get_by pm_id pid (payments s) of
        None \<Rightarrow> Inl (Domain PaymentNotFoundError)
      | Some p \<Rightarrow> Inr p)"

section \<open>Webhooks\<close>

datatype webhook_outcome = Processed | Duplicate | Ignored

fun outcome_value :: "webhook_outcome \<Rightarrow> string" where
  "outcome_value Processed = ''processed''"
| "outcome_value Duplicate = ''duplicate''"
| "outcome_value Ignored = ''ignored''"

definition find_payment :: "pay_db \<Rightarrow> string \<Rightarrow> payment option" where
  "find_payment s reference =
     (case uuid_of_string reference of
        None \<Rightarrow> None
      | Some pid \<Rightarrow> get_by pm_id pid (payments s))"

text \<open>\<open>INSERT ... ON CONFLICT DO NOTHING\<close>: \<open>None\<close> when the event is already recorded.\<close>

definition record_event :: "string \<Rightarrow> string \<Rightarrow> moment \<Rightarrow> pay_db \<Rightarrow> pay_db option" where
  "record_event eid ty now s =
     (if eid \<in> pe_event_id ` set (provider_events s) then None
      else Some (s\<lparr>provider_events := provider_events s @
        [\<lparr>pe_event_id = eid, pe_event_type = ty, pe_received_at = now\<rparr>]\<rparr>))"

definition handle_webhook ::
  "pay_db \<Rightarrow> string \<Rightarrow> string \<Rightarrow> string \<Rightarrow> moment \<Rightarrow> pay_db \<times> webhook_outcome" where
  "handle_webhook s eid ty reference now =
     (case target_status ty of
        None \<Rightarrow> (s, Ignored)
      | Some target \<Rightarrow>
          (case record_event eid ty now s of
             None \<Rightarrow> (s, Duplicate)
           | Some s1 \<Rightarrow>
               (case find_payment s1 reference of
                  None \<Rightarrow> (s1, Ignored)
                | Some p \<Rightarrow>
                    if \<not> can_transition (pm_status p) target then (s1, Ignored)
                    else
                      (let s2 = update_payment (pm_id p)
                             (\<lambda>q. q\<lparr>pm_status := target, pm_updated_at := now\<rparr>) s1;
                           s3 = (if target = PaySucceeded
                                 then add_command CONFIRM_BOOKING
                                   [(''payment_id'', JStr (uuid_str (pm_id p))),
                                    (''booking_id'', JStr (uuid_str (pm_booking_id p)))] s2
                                 else s2)
                       in (s3, Processed)))))"

end
