(* ===== verification/Payments_Relay.thy ===== *)
theory Payments_Relay
  imports Payments_Service Relay_Loop
begin

text \<open>
  \<open>services/payments/src/payments/relay.py\<close>: the relay that delivers the commands of the outbox to
  booking and to PayStub. \<open>describe\<close> is the text of an exception.
\<close>

definition PAY_MAX_ERROR_LENGTH :: nat where
  "PAY_MAX_ERROR_LENGTH = 200"

definition PAY_BATCH_SIZE :: nat where
  "PAY_BATCH_SIZE = 100"

definition pending_commands :: "(uuid \<Rightarrow> bool) \<Rightarrow> nat \<Rightarrow> command list \<Rightarrow> command list" where
  "pending_commands locked batch_size cs =
     take batch_size
       (sort_key cm_id (filter (\<lambda>c. cm_published_at c = None \<and> \<not> locked (cm_id c)) cs))"

definition update_command :: "uuid \<Rightarrow> (command \<Rightarrow> command) \<Rightarrow> pay_db \<Rightarrow> pay_db" where
  "update_command cid f s = s\<lparr>commands := update_where (\<lambda>c. cm_id c = cid) f (commands s)\<rparr>"

text \<open>\<open>uuid.UUID(payload[key])\<close>.\<close>

definition uuid_field :: "(string \<times> json) list \<Rightarrow> string \<Rightarrow> payment_error exn + uuid" where
  "uuid_field payload key =
     (case map_of payload key of
        None \<Rightarrow> Inl (Python KeyError)
      | Some (JStr s) \<Rightarrow>
          (case uuid_of_string s of None \<Rightarrow> Inl (Python ValueError) | Some u \<Rightarrow> Inr u)
      | Some JNull \<Rightarrow> Inl (Python TypeError)
      | Some _ \<Rightarrow> Inl (Python AttributeError))"

section \<open>Delivering a command\<close>

type_synonym 'w delivery = "pay_db \<times> 'w \<times> (payment_error exn + unit)"

definition confirm_booking ::
  "'w transport \<Rightarrow> moment \<Rightarrow> (string \<times> json) list \<Rightarrow> pay_db \<Rightarrow> 'w \<Rightarrow> 'w delivery" where
  "confirm_booking booking now payload s w =
     (case uuid_field payload ''payment_id'' of
        Inl e \<Rightarrow> (s, w, Inl e)
      | Inr pid \<Rightarrow>
          (case uuid_field payload ''booking_id'' of
             Inl e \<Rightarrow> (s, w, Inl e)
           | Inr bid \<Rightarrow>
               (case confirm booking bid w of
                  (w', Inr _) \<Rightarrow> (s, w', Inr ())
                | (w', Inl e) \<Rightarrow>
                    if e = Domain BookingRejectedError
                    then (add_command REFUND_PAYMENT [(''payment_id'', JStr (uuid_str pid))]
                            (update_payment pid (\<lambda>p. p\<lparr>pm_needs_refund := True, pm_updated_at := now\<rparr>) s),
                          w', Inr ())
                    else (s, w', Inl e))))"

definition refund_payment ::
  "'w transport \<Rightarrow> moment \<Rightarrow> (string \<times> json) list \<Rightarrow> pay_db \<Rightarrow> 'w \<Rightarrow> 'w delivery" where
  "refund_payment paystub now payload s w =
     (case uuid_field payload ''payment_id'' of
        Inl e \<Rightarrow> (s, w, Inl e)
      | Inr pid \<Rightarrow>
          (case get_by pm_id pid (payments s) of
             None \<Rightarrow> (s, w, Inl (Python NoResultFound))
           | Some p \<Rightarrow>
               if pm_refunded_at p \<noteq> None then (s, w, Inr ())
               else (case pm_provider_charge_id p of
                       None \<Rightarrow> (s, w, Inl (Python ValueError))
                     | Some charge \<Rightarrow>
                         (case create_refund paystub (pm_id p) charge (pm_amount_minor p) w of
                            (w', Inl e) \<Rightarrow> (s, w', Inl e)
                          | (w', Inr refund) \<Rightarrow>
                              if length (rf_id refund) > 64 then (s, w', Inl (Python DataError))
                              else
                              (update_payment (pm_id p)
                                 (\<lambda>q. q\<lparr>pm_needs_refund := False, pm_provider_refund_id := Some (rf_id refund),
                                       pm_refunded_at := Some now, pm_updated_at := now\<rparr>) s,
                               w', Inr ())))))"

definition deliver ::
  "'w transport \<Rightarrow> 'w transport \<Rightarrow> moment \<Rightarrow> command \<Rightarrow> pay_db \<Rightarrow> 'w \<Rightarrow> 'w delivery" where
  "deliver booking paystub now c s w =
     (if cm_topic c = CONFIRM_BOOKING then confirm_booking booking now (cm_payload c) s w
      else if cm_topic c = REFUND_PAYMENT then refund_payment paystub now (cm_payload c) s w
      else (s, w, Inl (Python ValueError)))"

section \<open>The loop\<close>

definition pay_record_failure ::
  "(payment_error exn \<Rightarrow> string) \<Rightarrow> command \<Rightarrow> payment_error exn \<Rightarrow> pay_db \<Rightarrow> pay_db" where
  "pay_record_failure describe c e =
     update_command (cm_id c)
       (\<lambda>r. r\<lparr>cm_attempts := cm_attempts r + 1,
              cm_last_error := Some (take PAY_MAX_ERROR_LENGTH (describe e))\<rparr>)"

definition pay_mark :: "moment \<Rightarrow> command \<Rightarrow> pay_db \<Rightarrow> pay_db" where
  "pay_mark now c = update_command (cm_id c) (\<lambda>r. r\<lparr>cm_published_at := Some now\<rparr>)"

fun process_loop ::
  "'w transport \<Rightarrow> 'w transport \<Rightarrow> (payment_error exn \<Rightarrow> string) \<Rightarrow> moment
   \<Rightarrow> pay_db \<Rightarrow> pay_db \<Rightarrow> 'w \<Rightarrow> int \<Rightarrow> command list \<Rightarrow> pay_db \<times> 'w \<times> int" where
  "process_loop booking paystub describe now committed s w done [] = (s, w, done)"
| "process_loop booking paystub describe now committed s w done (c # cs) =
     (case deliver booking paystub now c s w of
        (s', w', Inl e) \<Rightarrow> (pay_record_failure describe c e committed, w', done)
      | (s', w', Inr _) \<Rightarrow>
          process_loop booking paystub describe now committed (pay_mark now c s') w' (done + 1) cs)"

definition process_pending ::
  "'w transport \<Rightarrow> 'w transport \<Rightarrow> (payment_error exn \<Rightarrow> string) \<Rightarrow> (uuid \<Rightarrow> bool) \<Rightarrow> moment \<Rightarrow> nat
   \<Rightarrow> pay_db \<Rightarrow> 'w \<Rightarrow> pay_db \<times> 'w \<times> int" where
  "process_pending booking paystub describe locked now batch_size s w =
     process_loop booking paystub describe now s s w 0 (pending_commands locked batch_size (commands s))"

definition pay_relay_cycle ::
  "'w transport \<Rightarrow> 'w transport \<Rightarrow> (payment_error exn \<Rightarrow> string) \<Rightarrow> (uuid \<Rightarrow> bool) \<Rightarrow> moment
   \<Rightarrow> pay_db \<Rightarrow> 'w \<Rightarrow> pay_db \<times> 'w \<times> bool" where
  "pay_relay_cycle booking paystub describe locked now s w =
     (case process_pending booking paystub describe locked now PAY_BATCH_SIZE s w of
        (s', w', count) \<Rightarrow> (s', w', count = 0))"

interpretation pay_relay: relay_loop "process_loop booking paystub describe now"
    "deliver booking paystub now" "pay_mark now" "pay_record_failure describe"
  for booking paystub :: "'w transport" and describe :: "payment_error exn \<Rightarrow> string" and now :: moment
  by unfold_locales (auto split: prod.splits sum.splits)

end
