(* ===== verification/Payments_Invariant.thy ===== *)
theory Payments_Invariant
  imports Payments_Relay
begin

text \<open>
  What every request, webhook and turn of the relay keeps: the constraints of the database, and a
  ledger that ties the state of a payment to the commands written about it. A succeeded payment has
  one command to confirm its booking; a payment whose booking was refused has one command to give
  the money back, delivered exactly when the refund is recorded.
\<close>

section \<open>The invariant\<close>

definition confirm_payload :: "payment \<Rightarrow> (string \<times> json) list" where
  "confirm_payload p = [(''payment_id'', JStr (uuid_str (pm_id p))),
                        (''booking_id'', JStr (uuid_str (pm_booking_id p)))]"

definition refund_payload :: "payment \<Rightarrow> (string \<times> json) list" where
  "refund_payload p = [(''payment_id'', JStr (uuid_str (pm_id p)))]"

definition about_payment :: "uuid \<Rightarrow> command \<Rightarrow> bool" where
  "about_payment pid c \<longleftrightarrow> map_of (cm_payload c) ''payment_id'' = Some (JStr (uuid_str pid))"

definition commands_about :: "string \<Rightarrow> uuid \<Rightarrow> command list \<Rightarrow> command list" where
  "commands_about topic pid cs = filter (\<lambda>c. cm_topic c = topic \<and> about_payment pid c) cs"

definition ledger :: "payment \<Rightarrow> command list \<Rightarrow> command list \<Rightarrow> bool" where
  "ledger p confirms refunds \<longleftrightarrow>
     map cm_payload confirms = (if pm_status p = PaySucceeded then [confirm_payload p] else [])
     \<and> (case refunds of
          [] \<Rightarrow> \<not> pm_needs_refund p \<and> pm_refunded_at p = None
        | [r] \<Rightarrow> cm_payload r = refund_payload p \<and> pm_status p = PaySucceeded
                 \<and> (\<forall>c \<in> set confirms. cm_published_at c \<noteq> None)
                 \<and> (pm_needs_refund p \<longleftrightarrow> cm_published_at r = None)
                 \<and> (pm_refunded_at p = None \<longleftrightarrow> cm_published_at r = None)
        | _ \<Rightarrow> False)"

definition pay_wf :: "pay_db \<Rightarrow> bool" where
  "pay_wf s \<longleftrightarrow>
     pay_violated_constraint s = None
     \<and> (\<forall>p \<in> set (payments s). pm_id p < pay_next_uuid s \<and> pm_booking_id p < 2 ^ 128)
     \<and> (\<forall>c \<in> set (commands s). cm_id c < pay_next_uuid s)
     \<and> pay_next_uuid s \<le> 2 ^ 128"

definition command_known :: "payment list \<Rightarrow> command \<Rightarrow> bool" where
  "command_known ps c \<longleftrightarrow>
     (\<exists>p \<in> set ps. (cm_topic c = CONFIRM_BOOKING \<and> cm_payload c = confirm_payload p)
                 \<or> (cm_topic c = REFUND_PAYMENT \<and> cm_payload c = refund_payload p))"

definition ledger_ok :: "pay_db \<Rightarrow> bool" where
  "ledger_ok s \<longleftrightarrow>
     (\<forall>p \<in> set (payments s). ledger p (commands_about CONFIRM_BOOKING (pm_id p) (commands s))
                                    (commands_about REFUND_PAYMENT (pm_id p) (commands s)))
     \<and> (\<forall>c \<in> set (commands s). command_known (payments s) c)"

text \<open>Ids are taken from 128 bits; what happens after the last one is not described.\<close>

definition pay_inv :: "pay_db \<Rightarrow> bool" where
  "pay_inv s \<longleftrightarrow> pay_next_uuid s \<le> 2 ^ 128 \<longrightarrow> pay_wf s \<and> ledger_ok s"

lemma pay_violated_constraint_None:
  "pay_violated_constraint s = None \<longleftrightarrow>
     (\<forall>p \<in> set (payments s). 0 < pm_amount_minor p)
     \<and> distinct (map pm_id (payments s)) \<and> distinct (map pm_booking_id (payments s))
     \<and> distinct (map pe_event_id (provider_events s)) \<and> distinct (map cm_id (commands s))"
  by (auto simp: pay_violated_constraint_def list_all_iff)

lemma pay_wfD:
  assumes "pay_wf s"
  shows "distinct (map pm_id (payments s))" "distinct (map pm_booking_id (payments s))"
    "distinct (map pe_event_id (provider_events s))" "distinct (map cm_id (commands s))"
    "\<And>p. p \<in> set (payments s) \<Longrightarrow> 0 < pm_amount_minor p"
    "\<And>p. p \<in> set (payments s) \<Longrightarrow> pm_id p < pay_next_uuid s"
    "\<And>p. p \<in> set (payments s) \<Longrightarrow> pm_id p < 2 ^ 128"
    "\<And>p. p \<in> set (payments s) \<Longrightarrow> pm_booking_id p < 2 ^ 128"
    "\<And>c. c \<in> set (commands s) \<Longrightarrow> cm_id c < pay_next_uuid s"
    "pay_next_uuid s \<le> 2 ^ 128"
  using assms by (auto simp: pay_wf_def pay_violated_constraint_None intro: less_le_trans)

section \<open>Commands about a payment\<close>

lemma commands_about_append [simp]:
  "commands_about t pid (xs @ ys) = commands_about t pid xs @ commands_about t pid ys"
  by (simp add: commands_about_def)

lemma commands_about_update:
  assumes "\<And>c. cm_topic (f c) = cm_topic c" "\<And>c. cm_payload (f c) = cm_payload c"
  shows "commands_about t pid (update_where P f cs) = update_where P f (commands_about t pid cs)"
  unfolding commands_about_def
  by (induction cs) (simp_all add: update_where_simps(1,2) about_payment_def assms)

lemma about_payloads [simp]:
  "cm_payload c = confirm_payload q \<Longrightarrow> about_payment pid c \<longleftrightarrow> uuid_str (pm_id q) = uuid_str pid"
  "cm_payload c = refund_payload q \<Longrightarrow> about_payment pid c \<longleftrightarrow> uuid_str (pm_id q) = uuid_str pid"
  by (auto simp: about_payment_def confirm_payload_def refund_payload_def)

lemma topics_differ [simp]: "CONFIRM_BOOKING \<noteq> REFUND_PAYMENT" "REFUND_PAYMENT \<noteq> CONFIRM_BOOKING"
  by (simp_all add: CONFIRM_BOOKING_def REFUND_PAYMENT_def)

lemma ledger_publish_confirm:
  assumes "ledger p cs rs" "\<And>c. cm_payload (f c) = cm_payload c"
    and "\<And>c. c \<in> set cs \<Longrightarrow> cm_published_at c \<noteq> None \<Longrightarrow> cm_published_at (f c) \<noteq> None"
  shows "ledger p (map f cs) rs"
  using assms by (auto simp: ledger_def comp_def split: list.splits if_splits)

section \<open>Steps on the database\<close>

lemma add_command_simps [simp]:
  "payments (add_command t pl s) = payments s"
  "provider_events (add_command t pl s) = provider_events s"
  "pay_next_uuid (add_command t pl s) = Suc (pay_next_uuid s)"
  "commands (add_command t pl s) = commands s @ [\<lparr>cm_id = pay_next_uuid s, cm_topic = t,
     cm_payload = pl, cm_published_at = None, cm_attempts = 0, cm_last_error = None\<rparr>]"
  by (simp_all add: add_command_def)

lemma update_payment_simps [simp]:
  "payments (update_payment pid f s) = update_where (\<lambda>p. pm_id p = pid) f (payments s)"
  "provider_events (update_payment pid f s) = provider_events s"
  "commands (update_payment pid f s) = commands s"
  "pay_next_uuid (update_payment pid f s) = pay_next_uuid s"
  by (simp_all add: update_payment_def)

lemma update_command_simps [simp]:
  "payments (update_command cid f s) = payments s"
  "provider_events (update_command cid f s) = provider_events s"
  "commands (update_command cid f s) = update_where (\<lambda>c. cm_id c = cid) f (commands s)"
  "pay_next_uuid (update_command cid f s) = pay_next_uuid s"
  by (simp_all add: update_command_def)

text \<open>Changes that touch no key column keep the tables well-formed.\<close>

definition same_row :: "payment \<Rightarrow> payment \<Rightarrow> bool" where
  "same_row p q \<longleftrightarrow> pm_id q = pm_id p \<and> pm_booking_id q = pm_booking_id p
     \<and> pm_amount_minor q = pm_amount_minor p"

lemma pay_wf_update_payments:
  assumes "pay_wf s" "\<And>p. same_row p (f p)"
  shows "pay_wf (s\<lparr>payments := update_where P f (payments s)\<rparr>)"
  using assms
  by (auto simp: pay_wf_def pay_violated_constraint_None same_row_def map_update_where set_update_where)

lemma pay_wf_update_payment:
  "pay_wf s \<Longrightarrow> (\<And>p. same_row p (f p)) \<Longrightarrow> pay_wf (update_payment pid f s)"
  by (simp add: update_payment_def pay_wf_update_payments)

lemma pay_wf_update_command:
  assumes "pay_wf s" "\<And>c. cm_id (f c) = cm_id c"
  shows "pay_wf (update_command cid f s)"
  using assms
  by (auto simp: pay_wf_def pay_violated_constraint_None map_update_where set_update_where)

lemma pay_wf_add_command:
  assumes "pay_wf s" "Suc (pay_next_uuid s) \<le> 2 ^ 128"
  shows "pay_wf (add_command t pl s)"
proof -
  have "pay_next_uuid s \<notin> cm_id ` set (commands s)" using pay_wfD(9) [OF assms(1)] by fastforce
  with assms show ?thesis
    by (auto simp: pay_wf_def pay_violated_constraint_None less_Suc_eq)
qed

text \<open>
  One step of the ledger: one payment changes, some commands about it are marked, commands about it
  are added. Every operation is an instance.
\<close>

lemma known_one:
  "command_known [q] c \<Longrightarrow> about_payment pid c \<longleftrightarrow> uuid_str (pm_id q) = uuid_str pid"
  by (auto simp: command_known_def)

lemma command_known_mono:
  assumes "command_known ps c" "cm_topic d = cm_topic c" "cm_payload d = cm_payload c"
    and "\<And>p. p \<in> set ps \<Longrightarrow> \<exists>q \<in> set qs. pm_id q = pm_id p \<and> pm_booking_id q = pm_booking_id p"
  shows "command_known qs d"
  using assms unfolding command_known_def confirm_payload_def refund_payload_def by metis

lemma ledger_ok_step:
  assumes wf: "pay_wf s" and ok: "ledger_ok s" and q: "q \<in> set (payments s)"
    and f: "\<And>p. same_row p (f p)"
    and g: "\<And>c. cm_topic (g c) = cm_topic c" "\<And>c. cm_payload (g c) = cm_payload c"
    and ps: "payments s' = update_where (\<lambda>p. pm_id p = pm_id q) f (payments s)"
    and cs: "commands s' = update_where P g (commands s) @ new"
    and new: "\<And>c. c \<in> set new \<Longrightarrow> command_known [q] c"
    and marked: "\<And>c. c \<in> set (commands s) \<Longrightarrow> P c \<Longrightarrow> command_known [q] c"
    and led: "ledger (f q)
      (update_where P g (commands_about CONFIRM_BOOKING (pm_id q) (commands s))
        @ commands_about CONFIRM_BOOKING (pm_id q) new)
      (update_where P g (commands_about REFUND_PAYMENT (pm_id q) (commands s))
        @ commands_about REFUND_PAYMENT (pm_id q) new)"
  shows "ledger_ok s'"
proof -
  note w = pay_wfD [OF wf]
  have about: "commands_about t pid (commands s')
      = update_where P g (commands_about t pid (commands s)) @ commands_about t pid new" for t pid
    by (simp add: cs commands_about_update g)
  have other: "commands_about t (pm_id r) (commands s') = commands_about t (pm_id r) (commands s)"
    if r: "r \<in> set (payments s)" and ne: "pm_id r \<noteq> pm_id q" for t r
  proof -
    have differ: "uuid_str (pm_id q) \<noteq> uuid_str (pm_id r)"
      using ne uuid_text.encode_eq_iff w(7) q r by metis
    have strange: "\<not> about_payment (pm_id r) c" if "command_known [q] c" for c
      using known_one [OF that] differ by simp
    have "commands_about t (pm_id r) new = []"
      using new strange by (auto simp: commands_about_def filter_empty_conv)
    moreover have "update_where P g (commands_about t (pm_id r) (commands s)) = commands_about t (pm_id r) (commands s)"
      by (rule update_where_none) (use marked strange in \<open>auto simp: commands_about_def\<close>)
    ultimately show ?thesis by (simp add: about)
  qed
  have ids: "pm_id (f p) = pm_id p" "pm_booking_id (f p) = pm_booking_id p" for p
    using f by (simp_all add: same_row_def)
  have "ledger p (commands_about CONFIRM_BOOKING (pm_id p) (commands s'))
      (commands_about REFUND_PAYMENT (pm_id p) (commands s'))" if p: "p \<in> set (payments s')" for p
  proof -
    from p obtain r where r: "r \<in> set (payments s)" "p = (if pm_id r = pm_id q then f r else r)"
      by (auto simp: ps set_update_where)
    show ?thesis
    proof (cases "pm_id r = pm_id q")
      case True
      then have "r = q" using distinct_key_eq [OF w(1) r(1) q] by simp
      with r led True show ?thesis by (simp add: about ids)
    next
      case False
      with r ok other show ?thesis by (simp add: ledger_ok_def)
    qed
  qed
  moreover have "command_known (payments s') c" if c: "c \<in> set (commands s')" for c
  proof -
    have kept: "\<exists>p' \<in> set (payments s'). pm_id p' = pm_id p \<and> pm_booking_id p' = pm_booking_id p"
      if "p \<in> set (payments s)" for p
      unfolding ps set_update_where using that ids by (intro bexI [where x = "if pm_id p = pm_id q then f p else p"]) auto
    show ?thesis
    proof (cases "c \<in> set new")
      case True
      then show ?thesis
        using kept q by (intro command_known_mono [OF new]) auto
    next
      case False
      with c obtain d where d: "d \<in> set (commands s)" "c = (if P d then g d else d)"
        by (auto simp: cs set_update_where)
      then have "command_known (payments s) d" using ok by (simp add: ledger_ok_def)
      then show ?thesis
        by (rule command_known_mono) (use d g kept in auto)
    qed
  qed
  ultimately show ?thesis unfolding ledger_ok_def by blast
qed

section \<open>The use cases keep it\<close>

definition new_payment :: "pay_db \<Rightarrow> uuid \<Rightarrow> int \<Rightarrow> string \<Rightarrow> moment \<Rightarrow> payment" where
  "new_payment s bid amount cur now =
     \<lparr>pm_id = pay_next_uuid s, pm_booking_id = bid, pm_amount_minor = amount,
      pm_currency = cur, pm_status = PayPending, pm_provider_charge_id = None,
      pm_checkout_url = None, pm_needs_refund = False, pm_provider_refund_id = None,
      pm_refunded_at = None, pm_created_at = now, pm_updated_at = now\<rparr>"

text \<open>What the insert does, the constraints of the table decided.\<close>

lemma reserve_payment_run:
  assumes "pay_wf s"
  shows "reserve_payment s bid amount cur now =
    (if \<not> 0 < amount then (s, Inl (IntegrityError ''ck_payments_amount_positive''))
     else if bid \<in> pm_booking_id ` set (payments s) then
       (case get_by pm_booking_id bid (payments s) of
          None \<Rightarrow> (s, Inl (Python NoResultFound))
        | Some q \<Rightarrow> if (pm_amount_minor q, pm_currency q) \<noteq> (amount, cur)
                    then (s, Inl (Domain PayConflictError)) else (s, Inr (q, False)))
     else (s\<lparr>payments := payments s @ [new_payment s bid amount cur now], pay_next_uuid := Suc (pay_next_uuid s)\<rparr>,
           Inr (new_payment s bid amount cur now, True)))"
proof -
  define p where "p = new_payment s bid amount cur now"
  note w = pay_wfD [OF assms]
  have "pay_next_uuid s \<notin> pm_id ` set (payments s)" using w(6) by fastforce
  then have "pay_violated_constraint (s\<lparr>payments := payments s @ [p], pay_next_uuid := Suc (pay_next_uuid s)\<rparr>)
      = (if \<not> 0 < amount then Some ''ck_payments_amount_positive''
         else if bid \<in> pm_booking_id ` set (payments s) then Some ONE_PAYMENT_PER_BOOKING else None)"
    using w(1-5) by (auto simp: pay_violated_constraint_def list_all_iff p_def new_payment_def)
  then show ?thesis
    unfolding reserve_payment_def Let_def new_payment_def [symmetric] p_def [symmetric]
    by (simp add: ONE_PAYMENT_PER_BOOKING_def)
qed

lemma reserve_payment_cases:
  assumes wf: "pay_wf s" and room: "Suc (pay_next_uuid s) \<le> 2 ^ 128" and bid: "bid < 2 ^ 128"
  obtains (refused) e where "reserve_payment s bid amount cur now = (s, Inl e)"
  | (found) p where "reserve_payment s bid amount cur now = (s, Inr (p, False))"
      "p \<in> set (payments s)" "pm_booking_id p = bid" "pm_amount_minor p = amount" "pm_currency p = cur"
  | (fresh) p where
      "reserve_payment s bid amount cur now
        = (s\<lparr>payments := payments s @ [p], pay_next_uuid := Suc (pay_next_uuid s)\<rparr>, Inr (p, True))"
      "pm_id p = pay_next_uuid s" "pm_booking_id p = bid" "pm_amount_minor p = amount"
      "pm_currency p = cur" "pm_status p = PayPending" "pm_provider_charge_id p = None"
      "\<not> pm_needs_refund p" "pm_refunded_at p = None" "0 < amount"
      "bid \<notin> pm_booking_id ` set (payments s)"
proof (cases "0 < amount \<and> bid \<notin> pm_booking_id ` set (payments s)")
  case True
  with fresh [of "new_payment s bid amount cur now"] reserve_payment_run [OF wf, of bid amount cur now]
  show thesis by (simp add: new_payment_def)
next
  case False
  with refused found reserve_payment_run [OF wf, of bid amount cur now] show thesis
    by (auto split: option.splits if_splits dest: get_by_SomeD)
qed

end
