(* ===== verification/Payments_App.thy ===== *)
theory Payments_App
  imports Payments_Service Payments_Invariant
begin

text \<open>
  \<open>services/payments/src/payments/app.py\<close> and \<open>schemas.py\<close>: the HTTP interface of the payments
  service. A request is one the framework has routed and validated, except the webhook, whose body
  the handler parses itself after checking its signature: \<open>read_json\<close> is the framework's JSON parser.
  An unhandled exception is \<open>PayCrash\<close>, a 500.
\<close>

section \<open>Schemas\<close>

definition MAX_AMOUNT_MINOR :: int where
  "MAX_AMOUNT_MINOR = 1000000000"

definition is_upper_letter :: "char \<Rightarrow> bool" where
  "is_upper_letter c \<longleftrightarrow> 65 \<le> (of_char c :: nat) \<and> (of_char c :: nat) \<le> 90"

text \<open>\<open>PaymentCreate\<close>: a UUID, a positive amount with a limit, three capital letters.\<close>

definition valid_payment_create :: "uuid \<Rightarrow> int \<Rightarrow> string \<Rightarrow> bool" where
  "valid_payment_create bid amount_minor currency \<longleftrightarrow>
     bid < 2 ^ 128 \<and> 0 < amount_minor \<and> amount_minor \<le> MAX_AMOUNT_MINOR
     \<and> length currency = 3 \<and> list_all is_upper_letter currency"

record webhook_event =
  we_id :: string
  we_type :: string
  we_reference :: string

definition printable :: "char \<Rightarrow> bool" where
  "printable c \<longleftrightarrow> 32 \<le> (of_char c :: nat) \<and> (of_char c :: nat) \<le> 126"

definition short_text :: "json \<Rightarrow> string option" where
  "short_text v =
     (case v of
        JStr s \<Rightarrow> if 1 \<le> length s \<and> length s \<le> 64 \<and> list_all printable s then Some s else None
      | _ \<Rightarrow> None)"

definition any_text :: "json \<Rightarrow> string option" where
  "any_text v = (case v of JStr s \<Rightarrow> Some s | _ \<Rightarrow> None)"

text \<open>\<open>WebhookEvent.model_validate_json\<close>, \<open>None\<close> for a \<open>ValidationError\<close>.\<close>

definition parse_webhook :: "(bytes \<Rightarrow> json option) \<Rightarrow> bytes \<Rightarrow> webhook_event option" where
  "parse_webhook read_json body =
     (case read_json body of
        Some (JObj kvs) \<Rightarrow>
          (case (short_text (dict_get kvs ''id''), short_text (dict_get kvs ''type''), dict_get kvs ''data'') of
             (Some i, Some t, JObj data) \<Rightarrow>
               (case (any_text (dict_get data ''charge_id''), any_text (dict_get data ''reference'')) of
                  (Some _, Some r) \<Rightarrow> Some \<lparr>we_id = i, we_type = t, we_reference = r\<rparr>
                | _ \<Rightarrow> None)
           | _ \<Rightarrow> None)
      | _ \<Rightarrow> None)"

section \<open>Answers\<close>

text \<open>\<open>PaymentOut\<close> is a row of the table, \<open>WebhookAck\<close> an outcome.\<close>

datatype pay_body = PayOut payment | AckOut webhook_outcome | PayErrorOut string

datatype pay_reply = PayAnswer int pay_body | PayCrash "payment_error exn"

definition PAY_ERROR_STATUS :: "(payment_error \<times> int) list" where
  "PAY_ERROR_STATUS =
     [(InvalidSignatureError, 401), (InvalidEventError, 422), (PaymentNotFoundError, 404),
      (ProviderUnavailableError, 503)]"

definition pay_domain_error :: "payment_error \<Rightarrow> pay_reply" where
  "pay_domain_error e =
     (let code = (case map_of PAY_ERROR_STATUS e of None \<Rightarrow> 409 | Some c \<Rightarrow> c)
      in PayAnswer code (PayErrorOut (payment_error_code e)))"

definition pay_failure :: "payment_error exn \<Rightarrow> pay_reply" where
  "pay_failure e = (case e of Domain d \<Rightarrow> pay_domain_error d | _ \<Rightarrow> PayCrash e)"

section \<open>Endpoints\<close>

definition post_payments ::
  "'w transport \<Rightarrow> pay_db \<Rightarrow> 'w \<Rightarrow> uuid \<Rightarrow> int \<Rightarrow> string \<Rightarrow> moment \<Rightarrow> (pay_db \<times> 'w) \<times> pay_reply" where
  "post_payments http s w bid amount_minor currency now =
     (let (s', w', r) = create_payment http s w bid amount_minor currency now
      in ((s', w'), case r of
           Inl e \<Rightarrow> pay_failure e
         | Inr (p, created) \<Rightarrow> PayAnswer (if \<not> created then 200 else 201) (PayOut p)))"

definition get_payment_by_id :: "pay_db \<Rightarrow> uuid \<Rightarrow> pay_reply" where
  "get_payment_by_id s pid = (case get_payment s pid of Inl e \<Rightarrow> pay_failure e | Inr p \<Rightarrow> PayAnswer 200 (PayOut p))"

definition paystub_webhook ::
  "(bytes \<Rightarrow> json option) \<Rightarrow> string \<Rightarrow> pay_db \<Rightarrow> bytes \<Rightarrow> string option \<Rightarrow> moment \<Rightarrow> pay_db \<times> pay_reply" where
  "paystub_webhook read_json webhook_secret s body signature now =
     (case verify_signature body signature webhook_secret of
        Inl e \<Rightarrow> (s, pay_failure e)
      | Inr _ \<Rightarrow>
          (case parse_webhook read_json body of
             None \<Rightarrow> (s, pay_domain_error InvalidEventError)
           | Some ev \<Rightarrow>
               (let (s', outcome) = handle_webhook s (we_id ev) (we_type ev) (we_reference ev) now
                in (s', PayAnswer 200 (AckOut outcome)))))"

section \<open>The application\<close>

datatype pay_request =
  PostPayments uuid int string
| GetPayment uuid
| PostWebhook bytes "string option"

fun pay_serve ::
  "(bytes \<Rightarrow> json option) \<Rightarrow> string \<Rightarrow> 'w transport \<Rightarrow> moment \<Rightarrow> pay_request \<Rightarrow> pay_db \<times> 'w
   \<Rightarrow> (pay_db \<times> 'w) \<times> pay_reply" where
  "pay_serve read_json secret http now (PostPayments bid amount_minor currency) (s, w) =
     post_payments http s w bid amount_minor currency now"
| "pay_serve read_json secret http now (GetPayment pid) (s, w) = ((s, w), get_payment_by_id s pid)"
| "pay_serve read_json secret http now (PostWebhook body signature) (s, w) =
     (let (s', a) = paystub_webhook read_json secret s body signature now in ((s', w), a))"

fun pay_documented :: "pay_request \<Rightarrow> int list" where
  "pay_documented (PostPayments bid amount_minor currency) = 201 # 200 # [400, 409, 422, 503]"
| "pay_documented (GetPayment pid) = 200 # [404, 422]"
| "pay_documented (PostWebhook body signature) = 200 # [401, 422]"

section \<open>What the interface answers\<close>

lemma pay_failure_simps [simp]:
  "pay_failure (Domain d) = pay_domain_error d" "pay_failure (Python p) = PayCrash (Python p)"
  "pay_failure (IntegrityError c) = PayCrash (IntegrityError c)"
  by (simp_all add: pay_failure_def)

lemma pay_domain_error_table:
  "pay_domain_error InvalidSignatureError = PayAnswer 401 (PayErrorOut ''invalid_signature'')"
  "pay_domain_error InvalidEventError = PayAnswer 422 (PayErrorOut ''invalid_event'')"
  "pay_domain_error PaymentNotFoundError = PayAnswer 404 (PayErrorOut ''payment_not_found'')"
  "pay_domain_error ProviderUnavailableError = PayAnswer 503 (PayErrorOut ''provider_unavailable'')"
  "pay_domain_error PayConflictError = PayAnswer 409 (PayErrorOut ''payment_conflict'')"
  by (simp_all add: pay_domain_error_def PAY_ERROR_STATUS_def)

definition pay_unreadable :: "py_error set" where
  "pay_unreadable = {ValueError, KeyError, TypeError}"

lemma text_field_error: "text_field body key = Inl e \<Longrightarrow> e \<in> pay_unreadable"
  by (auto simp: text_field_def pay_unreadable_def split: option.splits json.splits)

lemma create_charge_error:
  "create_charge http pid amount currency w = (w', Inl e) \<Longrightarrow>
    e \<in> insert (Domain ProviderUnavailableError) (Python ` pay_unreadable)"
  by (auto simp: create_charge_def paystub_post_def Let_def
      split: prod.splits http_reply.splits if_splits sum.splits dest: text_field_error)

lemma verify_signature_error:
  "verify_signature body header secret = Inl e \<Longrightarrow> e = Domain InvalidSignatureError
    \<or> e = Python TypeError \<and> (\<exists>h. header = Some h \<and> \<not> is_ascii h)"
  by (auto simp: verify_signature_def compare_digest_def sign_ascii split: option.splits if_splits)

lemma verify_signature_Inr: "verify_signature body header secret = Inr u \<longleftrightarrow> header = Some (sign body secret)"
  by (auto simp: verify_signature_def compare_digest_def sign_ascii split: option.splits)

end
