(* ===== verification/Payments_Steps.thy ===== *)
theory Payments_Steps
  imports Payments_Invariant
begin

text \<open>
  Every operation of the payments service keeps the invariant of \<open>Payments_Invariant\<close>; for the
  relay, delivering one command together with its mark does.
\<close>

section \<open>Requests\<close>

lemma ledger_same_state:
  "pm_status q = pm_status p \<Longrightarrow> pm_needs_refund q = pm_needs_refund p \<Longrightarrow>
     pm_refunded_at q = pm_refunded_at p \<Longrightarrow> same_row p q \<Longrightarrow> ledger q cs rs = ledger p cs rs"
  by (auto simp: ledger_def same_row_def confirm_payload_def refund_payload_def split: list.splits)

lemma reserve_fresh_inv:
  assumes wf: "pay_wf s" and ok: "ledger_ok s" and room: "Suc (pay_next_uuid s) \<le> 2 ^ 128"
    and p: "pm_id p = pay_next_uuid s" "pm_booking_id p < 2 ^ 128" "0 < pm_amount_minor p"
      "pm_booking_id p \<notin> pm_booking_id ` set (payments s)" "pm_status p = PayPending"
      "\<not> pm_needs_refund p" "pm_refunded_at p = None"
  shows "pay_wf (s\<lparr>payments := payments s @ [p], pay_next_uuid := Suc (pay_next_uuid s)\<rparr>)
    \<and> ledger_ok (s\<lparr>payments := payments s @ [p], pay_next_uuid := Suc (pay_next_uuid s)\<rparr>)"
proof
  note w = pay_wfD [OF wf]
  have "pay_next_uuid s \<notin> pm_id ` set (payments s)" using w(6) by fastforce
  then show "pay_wf (s\<lparr>payments := payments s @ [p], pay_next_uuid := Suc (pay_next_uuid s)\<rparr>)"
    using wf p room by (auto simp: pay_wf_def pay_violated_constraint_None less_Suc_eq)
  have "\<not> about_payment (pay_next_uuid s) c" if c: "c \<in> set (commands s)" for c
  proof -
    from ok c have "command_known (payments s) c" by (simp add: ledger_ok_def)
    then obtain q where q: "q \<in> set (payments s)" "command_known [q] c"
      by (auto simp: command_known_def)
    with w(6,7) [OF q(1)] room have "uuid_str (pm_id q) \<noteq> uuid_str (pay_next_uuid s)"
      using uuid_text.encode_eq_iff [of "pm_id q" "pay_next_uuid s"] by simp
    with known_one [OF q(2)] show ?thesis by simp
  qed
  then have none: "commands_about t (pay_next_uuid s) (commands s) = []" for t
    by (auto simp: commands_about_def filter_empty_conv)
  have "command_known (payments s @ [p]) c" if "c \<in> set (commands s)" for c
    using ok that by (auto simp: ledger_ok_def command_known_def)
  then show "ledger_ok (s\<lparr>payments := payments s @ [p], pay_next_uuid := Suc (pay_next_uuid s)\<rparr>)"
    using ok p by (auto simp: ledger_ok_def none ledger_def)
qed

lemma reserve_payment_inv:
  assumes inv: "pay_inv s" and bid: "bid < 2 ^ 128"
  shows "pay_inv (fst (reserve_payment s bid amount cur now))"
proof (cases "Suc (pay_next_uuid s) \<le> 2 ^ 128")
  case True
  with inv have ok: "pay_wf s" "ledger_ok s" by (auto simp: pay_inv_def)
  from ok(1) True bid show ?thesis
  proof (cases rule: reserve_payment_cases [of s bid amount cur now])
    case (refused e)
    with inv show ?thesis by simp
  next
    case (found p)
    with inv show ?thesis by simp
  next
    case (fresh p)
    have "pay_wf (s\<lparr>payments := payments s @ [p], pay_next_uuid := Suc (pay_next_uuid s)\<rparr>)
      \<and> ledger_ok (s\<lparr>payments := payments s @ [p], pay_next_uuid := Suc (pay_next_uuid s)\<rparr>)"
      by (rule reserve_fresh_inv [OF ok True]) (use fresh bid in simp_all)
    with fresh(1) show ?thesis by (simp add: pay_inv_def)
  qed
next
  case False
  have "fst (reserve_payment s bid amount cur now) = s
    \<or> pay_next_uuid (fst (reserve_payment s bid amount cur now)) = Suc (pay_next_uuid s)"
    by (auto simp: reserve_payment_def Let_def split: option.splits)
  with inv False show ?thesis by (auto simp: pay_inv_def)
qed

lemma store_charge_inv:
  assumes inv: "pay_inv s"
  shows "pay_inv (store_charge pid ch now s)"
proof -
  let ?f = "\<lambda>p. p\<lparr>pm_provider_charge_id := Some (ch_id ch),
    pm_checkout_url := Some (ch_checkout_url ch), pm_updated_at := now\<rparr>"
  let ?P = "\<lambda>p. pm_id p = pid \<and> pm_provider_charge_id p = None"
  have row: "same_row p (?f p)" for p by (simp add: same_row_def)
  have led: "ledger (?f p) cs rs = ledger p cs rs" for p cs rs
    by (rule ledger_same_state) (simp_all add: row)
  have "pay_wf (store_charge pid ch now s)" if "pay_wf s"
    unfolding store_charge_def using that row by (rule pay_wf_update_payments)
  moreover have "ledger_ok (store_charge pid ch now s)" if ok: "ledger_ok s"
  proof -
    have "command_known (update_where ?P ?f (payments s)) c" if "c \<in> set (commands s)" for c
    proof (rule command_known_mono)
      show "command_known (payments s) c" using ok that by (simp add: ledger_ok_def)
      show "\<exists>q \<in> set (update_where ?P ?f (payments s)). pm_id q = pm_id p \<and> pm_booking_id q = pm_booking_id p"
        if "p \<in> set (payments s)" for p
        unfolding set_update_where
        using that by (intro bexI [where x = "if ?P p then ?f p else p"]) auto
    qed simp_all
    moreover have "ledger p (commands_about CONFIRM_BOOKING (pm_id p) (commands s))
        (commands_about REFUND_PAYMENT (pm_id p) (commands s))"
      if p: "p \<in> set (update_where ?P ?f (payments s))" for p
    proof -
      from p obtain r where "r \<in> set (payments s)" "p = (if ?P r then ?f r else r)"
        by (auto simp: set_update_where)
      with ok led show ?thesis by (auto simp: ledger_ok_def)
    qed
    ultimately show ?thesis by (simp add: ledger_ok_def store_charge_def)
  qed
  ultimately show ?thesis using inv by (simp add: pay_inv_def store_charge_def)
qed

section \<open>Webhooks\<close>

lemma find_payment_Some:
  "find_payment s reference = Some p \<Longrightarrow> p \<in> set (payments s)"
  by (auto simp: find_payment_def dest: get_by_SomeD split: option.splits)

lemma no_update: "update_where (\<lambda>_. False) g xs = xs"
  by (simp add: update_where_none)

lemma succeed_inv:
  assumes wf: "pay_wf s" and ok: "ledger_ok s" and p: "p \<in> set (payments s)"
    and status: "pm_status p = PayPending" and target: "target \<noteq> PayPending"
    and room: "Suc (pay_next_uuid s) \<le> 2 ^ 128 \<or> target \<noteq> PaySucceeded"
  shows "let s2 = update_payment (pm_id p) (\<lambda>q. q\<lparr>pm_status := target, pm_updated_at := now\<rparr>) s;
             s3 = (if target = PaySucceeded then add_command CONFIRM_BOOKING
                     [(''payment_id'', JStr (uuid_str (pm_id p))),
                      (''booking_id'', JStr (uuid_str (pm_booking_id p)))] s2 else s2)
         in pay_wf s3 \<and> ledger_ok s3"
proof -
  let ?f = "\<lambda>q. q\<lparr>pm_status := target, pm_updated_at := now\<rparr>"
  let ?s2 = "update_payment (pm_id p) ?f s"
  let ?new = "\<lparr>cm_id = pay_next_uuid s, cm_topic = CONFIRM_BOOKING,
     cm_payload = confirm_payload p, cm_published_at = None, cm_attempts = 0, cm_last_error = None\<rparr>"
  have row: "same_row q (?f q)" for q by (simp add: same_row_def)
  have wf2: "pay_wf ?s2" by (rule pay_wf_update_payment [OF wf row])
  have led: "ledger p (commands_about CONFIRM_BOOKING (pm_id p) (commands s))
      (commands_about REFUND_PAYMENT (pm_id p) (commands s))"
    using ok p by (simp add: ledger_ok_def)
  with status have none: "commands_about CONFIRM_BOOKING (pm_id p) (commands s) = []"
    "commands_about REFUND_PAYMENT (pm_id p) (commands s) = []"
    "\<not> pm_needs_refund p" "pm_refunded_at p = None"
    by (auto simp: ledger_def split: list.splits)
  show ?thesis
  proof (cases "target = PaySucceeded")
    case True
    let ?s3 = "add_command CONFIRM_BOOKING (confirm_payload p) ?s2"
    have "pay_wf ?s3" by (rule pay_wf_add_command [OF wf2]) (use True room in simp)
    moreover have "commands_about CONFIRM_BOOKING (pm_id p) [?new] = [?new]"
      "commands_about REFUND_PAYMENT (pm_id p) [?new] = []" "command_known [p] ?new"
      by (simp_all add: commands_about_def about_payment_def confirm_payload_def command_known_def)
    moreover have "ledger (?f p) [?new] []"
      using True none by (simp add: ledger_def confirm_payload_def)
    ultimately have "ledger_ok ?s3"
      by (intro ledger_ok_step [OF wf ok p row, where g = "\<lambda>c. c" and P = "\<lambda>_. False" and new = "[?new]"])
        (simp_all add: no_update none)
    note \<open>pay_wf ?s3\<close>
    moreover note \<open>ledger_ok ?s3\<close>
    ultimately show ?thesis using True by (simp add: confirm_payload_def)
  next
    case False
    have "ledger_ok ?s2"
      by (rule ledger_ok_step [OF wf ok p row, where g = "\<lambda>c. c" and P = "\<lambda>_. False" and new = "[]"])
        (use False none target in \<open>simp_all add: no_update commands_about_def ledger_def\<close>)
    with False wf2 show ?thesis by simp
  qed
qed

lemma record_event_inv:
  assumes "record_event eid ty now s = Some s1"
  shows "(pay_wf s \<longrightarrow> pay_wf s1) \<and> (ledger_ok s \<longrightarrow> ledger_ok s1)
    \<and> payments s1 = payments s \<and> commands s1 = commands s \<and> pay_next_uuid s1 = pay_next_uuid s"
  using assms by (auto simp: record_event_def pay_wf_def pay_violated_constraint_None ledger_ok_def
      split: if_splits)

lemma handle_webhook_inv:
  assumes inv: "pay_inv s"
  shows "pay_inv (fst (handle_webhook s eid ty reference now))"
proof (cases "target_status ty")
  case (Some target)
  show ?thesis
  proof (cases "record_event eid ty now s")
    case None
    with Some inv show ?thesis by (simp add: handle_webhook_def)
  next
    case (Some s1)
    note rec = record_event_inv [OF Some]
    with inv have inv1: "pay_inv s1" by (simp add: pay_inv_def)
    show ?thesis
    proof (cases "find_payment s1 reference")
      case None
      with Some \<open>target_status ty = Some target\<close> inv1 show ?thesis by (simp add: handle_webhook_def)
    next
      case (Some p)
      show ?thesis
      proof (cases "can_transition (pm_status p) target")
        case False
        with Some \<open>record_event eid ty now s = Some s1\<close> \<open>target_status ty = Some target\<close> inv1
        show ?thesis by (simp add: handle_webhook_def)
      next
        case True
        define s2 where "s2 = update_payment (pm_id p) (\<lambda>q. q\<lparr>pm_status := target, pm_updated_at := now\<rparr>) s1"
        define s3 where "s3 = (if target = PaySucceeded then add_command CONFIRM_BOOKING
          [(''payment_id'', JStr (uuid_str (pm_id p))),
           (''booking_id'', JStr (uuid_str (pm_booking_id p)))] s2 else s2)"
        have "fst (handle_webhook s eid ty reference now) = s3"
          using True Some \<open>record_event eid ty now s = Some s1\<close> \<open>target_status ty = Some target\<close>
          by (simp add: handle_webhook_def Let_def s2_def s3_def)
        moreover have "pay_wf s3 \<and> ledger_ok s3" if n: "pay_next_uuid s3 \<le> 2 ^ 128"
        proof -
          have ok: "pay_wf s1" "ledger_ok s1"
            using inv1 n by (auto simp: pay_inv_def s2_def s3_def split: if_splits)
          show ?thesis
            using succeed_inv [OF ok find_payment_Some [OF Some], of target now] True n
            by (auto simp: can_transition_iff s2_def s3_def Let_def split: if_splits)
        qed
        ultimately show ?thesis by (simp add: pay_inv_def)
      qed
    qed
  qed
qed (simp add: handle_webhook_def inv)

section \<open>Delivering one command\<close>

lemma uuid_field_payloads:
  "pm_id q < 2 ^ 128 \<Longrightarrow> uuid_field (confirm_payload q) ''payment_id'' = Inr (pm_id q)"
  "pm_booking_id q < 2 ^ 128 \<Longrightarrow> uuid_field (confirm_payload q) ''booking_id'' = Inr (pm_booking_id q)"
  "pm_id q < 2 ^ 128 \<Longrightarrow> uuid_field (refund_payload q) ''payment_id'' = Inr (pm_id q)"
  by (simp_all add: uuid_field_def confirm_payload_def refund_payload_def uuid_roundtrip)

lemma the_confirm:
  assumes ok: "ledger_ok s" and q: "q \<in> set (payments s)" and c: "c \<in> set (commands s)"
    and k: "cm_topic c = CONFIRM_BOOKING" "cm_payload c = confirm_payload q"
  shows "commands_about CONFIRM_BOOKING (pm_id q) (commands s) = [c]" "pm_status q = PaySucceeded"
    "cm_published_at c = None \<Longrightarrow> commands_about REFUND_PAYMENT (pm_id q) (commands s) = []
       \<and> \<not> pm_needs_refund q \<and> pm_refunded_at q = None"
proof -
  let ?cs = "commands_about CONFIRM_BOOKING (pm_id q) (commands s)"
  from ok q have led: "ledger q ?cs (commands_about REFUND_PAYMENT (pm_id q) (commands s))"
    by (simp add: ledger_ok_def)
  have "c \<in> set ?cs" using c k by (simp add: commands_about_def)
  moreover from led have "length ?cs \<le> 1" by (auto simp: ledger_def dest: arg_cong [where f = length])
  ultimately show one: "?cs = [c]" by (cases ?cs; cases "tl ?cs") auto
  from led one show "pm_status q = PaySucceeded" by (simp add: ledger_def split: if_splits)
  show "cm_published_at c = None \<Longrightarrow> commands_about REFUND_PAYMENT (pm_id q) (commands s) = []
       \<and> \<not> pm_needs_refund q \<and> pm_refunded_at q = None"
    using led one by (auto simp: ledger_def split: list.splits)
qed

lemma the_refund:
  assumes ok: "ledger_ok s" and q: "q \<in> set (payments s)" and c: "c \<in> set (commands s)"
    and k: "cm_topic c = REFUND_PAYMENT" "cm_payload c = refund_payload q"
  shows "commands_about REFUND_PAYMENT (pm_id q) (commands s) = [c]"
    "pm_needs_refund q \<longleftrightarrow> cm_published_at c = None" "pm_refunded_at q = None \<longleftrightarrow> cm_published_at c = None"
proof -
  let ?rs = "commands_about REFUND_PAYMENT (pm_id q) (commands s)"
  from ok q have led: "ledger q (commands_about CONFIRM_BOOKING (pm_id q) (commands s)) ?rs"
    by (simp add: ledger_ok_def)
  have "c \<in> set ?rs" using c k by (simp add: commands_about_def)
  with led show one: "?rs = [c]" by (auto simp: ledger_def split: list.splits)
  from led show "pm_needs_refund q \<longleftrightarrow> cm_published_at c = None"
    "pm_refunded_at q = None \<longleftrightarrow> cm_published_at c = None"
    unfolding one by (simp_all add: ledger_def)
qed

lemma known_obtain:
  assumes "ledger_ok s" "c \<in> set (commands s)"
  obtains (confirm) q where "q \<in> set (payments s)" "cm_topic c = CONFIRM_BOOKING" "cm_payload c = confirm_payload q"
  | (refund) q where "q \<in> set (payments s)" "cm_topic c = REFUND_PAYMENT" "cm_payload c = refund_payload q"
  using assms by (auto simp: ledger_ok_def command_known_def)

lemma mark_confirmed:
  assumes wf: "pay_wf s" and ok: "ledger_ok s" and c: "c \<in> set (commands s)" "cm_published_at c = None"
    and q: "q \<in> set (payments s)" and k: "cm_topic c = CONFIRM_BOOKING" "cm_payload c = confirm_payload q"
  shows "ledger_ok (pay_mark now c s)"
proof (rule ledger_ok_step [OF wf ok q, where f = "\<lambda>p. p" and new = "[]"
      and g = "\<lambda>r. r\<lparr>cm_published_at := Some now\<rparr>" and P = "\<lambda>r. cm_id r = cm_id c"])
  note t = the_confirm [OF ok q c(1) k]
  show "command_known [q] x" if "x \<in> set (commands s)" "cm_id x = cm_id c" for x
    using distinct_key_eq [OF pay_wfD(4) [OF wf] that(1) c(1) that(2)] k by (simp add: command_known_def)
  show "ledger q
     (update_where (\<lambda>r. cm_id r = cm_id c) (\<lambda>r. r\<lparr>cm_published_at := Some now\<rparr>)
       (commands_about CONFIRM_BOOKING (pm_id q) (commands s)) @ commands_about CONFIRM_BOOKING (pm_id q) [])
     (update_where (\<lambda>r. cm_id r = cm_id c) (\<lambda>r. r\<lparr>cm_published_at := Some now\<rparr>)
       (commands_about REFUND_PAYMENT (pm_id q) (commands s)) @ commands_about REFUND_PAYMENT (pm_id q) [])"
    using t(1,2) t(3) [OF c(2)] k by (simp add: ledger_def update_where_simps(1,2) commands_about_def)
qed (simp_all add: pay_mark_def same_row_def update_where_def)

lemma mark_rejected:
  assumes wf: "pay_wf s" and ok: "ledger_ok s" and c: "c \<in> set (commands s)" "cm_published_at c = None"
    and q: "q \<in> set (payments s)" and k: "cm_topic c = CONFIRM_BOOKING" "cm_payload c = confirm_payload q"
  shows "ledger_ok (pay_mark now c (add_command REFUND_PAYMENT (refund_payload q)
     (update_payment (pm_id q) (\<lambda>p. p\<lparr>pm_needs_refund := True, pm_updated_at := now\<rparr>) s)))"
proof -
  let ?new = "\<lparr>cm_id = pay_next_uuid s, cm_topic = REFUND_PAYMENT, cm_payload = refund_payload q,
    cm_published_at = None, cm_attempts = 0, cm_last_error = None\<rparr>"
  let ?f = "\<lambda>p. p\<lparr>pm_needs_refund := True, pm_updated_at := now\<rparr>"
  let ?g = "\<lambda>r. r\<lparr>cm_published_at := Some now\<rparr>"
  let ?P = "\<lambda>r. cm_id r = cm_id c"
  note t = the_confirm [OF ok q c(1) k]
  have row: "same_row p (?f p)" for p by (simp add: same_row_def)
  have fresh: "pay_next_uuid s \<noteq> cm_id c" using pay_wfD(9) [OF wf c(1)] by simp
  have about_new: "commands_about REFUND_PAYMENT (pm_id q) [?new] = [?new]"
    "commands_about CONFIRM_BOOKING (pm_id q) [?new] = []" "command_known [q] ?new"
    by (simp_all add: commands_about_def about_payment_def refund_payload_def command_known_def)
  have known: "command_known [q] x" if "x \<in> set (commands s)" "cm_id x = cm_id c" for x
    using distinct_key_eq [OF pay_wfD(4) [OF wf] that(1) c(1) that(2)] k by (simp add: command_known_def)
  have led: "ledger (?f q) (update_where ?P ?g [c]) [?new]"
    using t(2) t(3) [OF c(2)] k
    by (simp add: ledger_def update_where_def confirm_payload_def refund_payload_def)
  show ?thesis
    by (rule ledger_ok_step [OF wf ok q row, where g = ?g and P = ?P and new = "[?new]"])
      (use fresh about_new known led t(1) t(3) [OF c(2)] in
        \<open>simp_all add: pay_mark_def update_where_simps\<close>)
qed

lemma mark_refunded:
  assumes wf: "pay_wf s" and ok: "ledger_ok s" and c: "c \<in> set (commands s)" "cm_published_at c = None"
    and q: "q \<in> set (payments s)" and k: "cm_topic c = REFUND_PAYMENT" "cm_payload c = refund_payload q"
  shows "ledger_ok (pay_mark now c (update_payment (pm_id q)
     (\<lambda>p. p\<lparr>pm_needs_refund := False, pm_provider_refund_id := rid, pm_refunded_at := Some now,
           pm_updated_at := now\<rparr>) s))"
proof -
  let ?f = "\<lambda>p. p\<lparr>pm_needs_refund := False, pm_provider_refund_id := rid, pm_refunded_at := Some now,
           pm_updated_at := now\<rparr>"
  let ?g = "\<lambda>r. r\<lparr>cm_published_at := Some now\<rparr>"
  let ?P = "\<lambda>r. cm_id r = cm_id c"
  let ?cs = "commands_about CONFIRM_BOOKING (pm_id q) (commands s)"
  note t = the_refund [OF ok q c(1) k]
  have row: "same_row p (?f p)" for p by (simp add: same_row_def)
  have known: "command_known [q] x" if "x \<in> set (commands s)" "cm_id x = cm_id c" for x
    using distinct_key_eq [OF pay_wfD(4) [OF wf] that(1) c(1) that(2)] k by (simp add: command_known_def)
  have led0: "ledger q ?cs [c]" using ok q unfolding ledger_ok_def t(1) [symmetric] by blast
  have same: "update_where ?P ?g ?cs = ?cs"
  proof (rule update_where_none)
    fix x assume "x \<in> set ?cs"
    then have "x \<in> set (commands s)" "cm_topic x = CONFIRM_BOOKING" by (auto simp: commands_about_def)
    then show "\<not> cm_id x = cm_id c"
      using distinct_key_eq [OF pay_wfD(4) [OF wf] _ c(1)] k by fastforce
  qed
  have led: "ledger (?f q) ?cs (update_where ?P ?g [c])"
    using led0 k by (auto simp: ledger_def update_where_def confirm_payload_def refund_payload_def)
  show ?thesis
    by (rule ledger_ok_step [OF wf ok q row, where g = ?g and P = ?P and new = "[]"])
      (use known led same t(1) in \<open>simp_all add: pay_mark_def commands_about_def [of _ _ "[]"]\<close>)
qed

lemma pay_mark_simps [simp]:
  "payments (pay_mark now c s) = payments s" "provider_events (pay_mark now c s) = provider_events s"
  "pay_next_uuid (pay_mark now c s) = pay_next_uuid s"
  by (simp_all add: pay_mark_def)

lemma pay_wf_mark: "pay_wf s \<Longrightarrow> pay_wf (pay_mark now c s)"
  unfolding pay_mark_def by (erule pay_wf_update_command) simp

lemma row_kept: "x \<in> set (commands s) \<Longrightarrow> cm_id x \<noteq> cm_id c \<Longrightarrow> x \<in> set (commands (pay_mark now c s))"
  by (force simp: pay_mark_def set_update_where)

text \<open>What a successful delivery of a command of the ledger can have been.\<close>

lemma deliver_cases:
  assumes wf: "pay_wf s" and ok: "ledger_ok s" and c: "c \<in> set (commands s)" "cm_published_at c = None"
    and d: "deliver booking paystub now c s w = (s', w', r)"
  obtains (confirmed) q where "q \<in> set (payments s)" "cm_topic c = CONFIRM_BOOKING"
      "cm_payload c = confirm_payload q" "r = Inr ()" "s' = s"
      "confirm booking (pm_booking_id q) w = (w', Inr ())"
  | (rejected) q where "q \<in> set (payments s)" "cm_topic c = CONFIRM_BOOKING"
      "cm_payload c = confirm_payload q" "r = Inr ()"
      "s' = add_command REFUND_PAYMENT (refund_payload q)
         (update_payment (pm_id q) (\<lambda>p. p\<lparr>pm_needs_refund := True, pm_updated_at := now\<rparr>) s)"
      "confirm booking (pm_booking_id q) w = (w', Inl (Domain BookingRejectedError))"
  | (refunded) q ch rf where "q \<in> set (payments s)" "cm_topic c = REFUND_PAYMENT"
      "cm_payload c = refund_payload q" "r = Inr ()" "pm_provider_charge_id q = Some ch"
      "s' = update_payment (pm_id q) (\<lambda>p. p\<lparr>pm_needs_refund := False,
         pm_provider_refund_id := Some (rf_id rf), pm_refunded_at := Some now, pm_updated_at := now\<rparr>) s"
      "create_refund paystub (pm_id q) ch (pm_amount_minor q) w = (w', Inr rf)"
  | (failed) e where "r = Inl e" "s' = s"
  using ok c(1)
proof (cases rule: known_obtain)
  case (confirm q)
  note small = pay_wfD(7,8) [OF wf confirm(1)]
  obtain v x where v: "confirm booking (pm_booking_id q) w = (v, x)" by fastforce
  have run: "deliver booking paystub now c s w =
    (case x of Inr _ \<Rightarrow> (s, v, Inr ())
     | Inl e \<Rightarrow> if e = Domain BookingRejectedError
         then (add_command REFUND_PAYMENT (refund_payload q)
           (update_payment (pm_id q) (\<lambda>p. p\<lparr>pm_needs_refund := True, pm_updated_at := now\<rparr>) s), v, Inr ())
         else (s, v, Inl e))"
    using v small confirm
    by (simp add: deliver_def confirm_booking_def uuid_field_payloads refund_payload_def split: sum.splits)
  show thesis
  proof (cases x)
    case (Inl e)
    then show thesis
      using run d v confirm rejected [OF confirm] failed [of e]
      by (cases "e = Domain BookingRejectedError") auto
  next
    case (Inr u)
    then show thesis using run d v confirmed [OF confirm] by auto
  qed
next
  case (refund q)
  note small = pay_wfD(7) [OF wf refund(1)]
  have none: "pm_refunded_at q = None" using the_refund(3) [OF ok refund(1) c(1) refund(2,3)] c(2) by simp
  have got: "get_by pm_id (pm_id q) (payments s) = Some q"
    by (rule get_by_eq_Some [OF pay_wfD(1) [OF wf] refund(1)])
  show thesis
  proof (cases "pm_provider_charge_id q")
    case None
    with got none small refund d failed show thesis
      by (auto simp: deliver_def refund_payment_def uuid_field_payloads)
  next
    case (Some ch)
    obtain v x where v: "create_refund paystub (pm_id q) ch (pm_amount_minor q) w = (v, x)" by fastforce
    show thesis
    proof (cases x)
      case (Inl e)
      with Some v got none small refund d failed show thesis
        by (auto simp: deliver_def refund_payment_def uuid_field_payloads)
    next
      case (Inr rf)
      with Some v got none small refund d refunded [OF refund _ Some, of rf] failed show thesis
        by (auto simp: deliver_def refund_payment_def uuid_field_payloads split: if_splits)
    qed
  qed
qed

lemma deliver_mark_inv:
  assumes inv: "pay_inv s" and c: "c \<in> set (commands s)" "cm_published_at c = None"
    and d: "deliver booking paystub now c s w = (s', w', Inr u)"
    and room: "pay_next_uuid s' \<le> 2 ^ 128" "pay_next_uuid s \<le> 2 ^ 128"
  shows "pay_inv (pay_mark now c s') \<and> pay_next_uuid s \<le> pay_next_uuid s'
    \<and> (\<forall>x \<in> set (commands s). cm_id x \<noteq> cm_id c \<longrightarrow> x \<in> set (commands (pay_mark now c s')))"
proof -
  from inv room have ok: "pay_wf s" "ledger_ok s" by (auto simp: pay_inv_def)
  from ok c d show ?thesis
  proof (cases rule: deliver_cases)
    case (confirmed q)
    then show ?thesis
      using mark_confirmed [OF ok c confirmed(1-3)] pay_wf_mark [OF ok(1)] row_kept
      by (auto simp: pay_inv_def)
  next
    case (rejected q)
    let ?s2 = "update_payment (pm_id q) (\<lambda>p. p\<lparr>pm_needs_refund := True, pm_updated_at := now\<rparr>) s"
    have "pay_wf ?s2" by (rule pay_wf_update_payment [OF ok(1)]) (simp add: same_row_def)
    then have "pay_wf s'" unfolding rejected(5) by (rule pay_wf_add_command) (use room rejected in simp)
    moreover have "x \<in> set (commands s')" if "x \<in> set (commands s)" for x
      using that by (simp add: rejected(5))
    ultimately show ?thesis
      using mark_rejected [OF ok c rejected(1-3)] pay_wf_mark row_kept
      by (auto simp: pay_inv_def rejected(5))
  next
    case (refunded q ch rf)
    have "pay_wf s'" unfolding refunded(6)
      by (rule pay_wf_update_payment [OF ok(1)]) (simp add: same_row_def)
    then show ?thesis
      using mark_refunded [OF ok c refunded(1-3)] pay_wf_mark row_kept [of _ s' c now]
      by (auto simp: pay_inv_def refunded(6))
  next
    case (failed e)
    then show ?thesis by simp
  qed
qed

section \<open>A turn of the relay\<close>

lemma deliver_grow:
  "deliver booking paystub now c s w = (s', w', r) \<Longrightarrow> pay_next_uuid s \<le> pay_next_uuid s'"
  by (auto simp: deliver_def confirm_booking_def refund_payment_def
      split: if_splits sum.splits prod.splits option.splits)

lemma delivered_grow:
  "delivered (deliver booking paystub now) (pay_mark now) cs s w = Some (s', w') \<Longrightarrow>
     pay_next_uuid s \<le> pay_next_uuid s'"
proof (induction cs arbitrary: s w)
  case (Cons c cs)
  obtain t v r where d: "deliver booking paystub now c s w = (t, v, r)" by (metis prod_cases3)
  then obtain u where "r = Inr u" using Cons.prems by (cases r) simp_all
  with d Cons.prems have "delivered (deliver booking paystub now) (pay_mark now) cs (pay_mark now c t) v
      = Some (s', w')" by simp
  from Cons.IH [OF this] deliver_grow [OF d] show ?case by simp
qed simp

lemma delivered_pay_inv:
  assumes "delivered (deliver booking paystub now) (pay_mark now) cs s w = Some (s', w')"
    and "pay_inv s" "pay_next_uuid s' \<le> 2 ^ 128" "distinct (map cm_id cs)"
    and "\<And>c. c \<in> set cs \<Longrightarrow> c \<in> set (commands s) \<and> cm_published_at c = None"
  shows "pay_inv s'"
  using assms
proof (induction cs arbitrary: s w)
  case (Cons c cs)
  obtain t v r where d: "deliver booking paystub now c s w = (t, v, r)" by (metis prod_cases3)
  then obtain u where r: "r = Inr u" using Cons.prems(1) by (cases r) simp_all
  with d Cons.prems(1) have rest: "delivered (deliver booking paystub now) (pay_mark now) cs (pay_mark now c t) v
      = Some (s', w')" by simp
  have "pay_next_uuid t \<le> 2 ^ 128" "pay_next_uuid s \<le> 2 ^ 128"
    using delivered_grow [OF rest] deliver_grow [OF d] Cons.prems(3) by simp_all
  from deliver_mark_inv [OF Cons.prems(2) _ _ d [unfolded r] this] Cons.prems(5)
  have step: "pay_inv (pay_mark now c t)"
    "x \<in> set (commands s) \<Longrightarrow> cm_id x \<noteq> cm_id c \<Longrightarrow> x \<in> set (commands (pay_mark now c t))" for x
    by auto
  have "x \<in> set (commands (pay_mark now c t)) \<and> cm_published_at x = None" if "x \<in> set cs" for x
  proof -
    have "cm_id x \<noteq> cm_id c" using that Cons.prems(4) by (auto simp: rev_image_eqI)
    with that Cons.prems(5) step(2) show ?thesis by simp
  qed
  with Cons.IH [OF rest step(1) Cons.prems(3)] Cons.prems(4) show ?case by simp
qed simp

lemma pending_commandsD:
  "c \<in> set (pending_commands locked n cs) \<Longrightarrow> c \<in> set cs \<and> cm_published_at c = None \<and> \<not> locked (cm_id c)"
  by (auto simp: pending_commands_def dest: in_set_takeD)

lemma pending_commands_distinct:
  "distinct (map cm_id cs) \<Longrightarrow> distinct (map cm_id (pending_commands locked n cs))"
proof -
  assume "distinct (map cm_id cs)"
  then have "distinct (map cm_id (sort_key cm_id (filter P cs)))" for P
    by (simp add: distinct_map inj_on_def)
  then show ?thesis unfolding pending_commands_def take_map [symmetric] by (rule distinct_take)
qed

lemma ledger_map:
  assumes "\<And>x. cm_payload (h x) = cm_payload x" "\<And>x. cm_published_at (h x) = cm_published_at x"
  shows "ledger p (map h cs) (map h rs) = ledger p cs rs"
  unfolding ledger_def by (cases rs; cases "tl rs") (simp_all add: assms comp_def)

lemma pay_record_failure_inv:
  assumes "pay_inv s"
  shows "pay_inv (pay_record_failure describe c e s)"
proof -
  let ?g = "\<lambda>r. r\<lparr>cm_attempts := cm_attempts r + 1, cm_last_error := Some (take PAY_MAX_ERROR_LENGTH (describe e))\<rparr>"
  let ?U = "update_where (\<lambda>r. cm_id r = cm_id c) ?g"
  have led: "ledger p (?U cs) (?U rs) = ledger p cs rs" for p cs rs
    unfolding update_where_def by (rule ledger_map) simp_all
  have about: "commands_about t pid (?U cs) = ?U (commands_about t pid cs)" for t pid cs
    by (rule commands_about_update) simp_all
  have "pay_wf (pay_record_failure describe c e s)" if "pay_wf s"
    unfolding pay_record_failure_def by (rule pay_wf_update_command [OF that]) simp
  moreover have "ledger_ok (pay_record_failure describe c e s)" if "ledger_ok s"
  proof -
    have "command_known (payments s) (if cm_id x = cm_id c then ?g x else x)" if "x \<in> set (commands s)" for x
    proof (rule command_known_mono)
      show "command_known (payments s) x" using \<open>ledger_ok s\<close> that by (simp add: ledger_ok_def)
    qed (simp, simp, blast)
    then have "\<forall>x \<in> set (?U (commands s)). command_known (payments s) x"
      unfolding set_update_where by blast
    with that show ?thesis
      unfolding ledger_ok_def pay_record_failure_def update_command_simps about led by blast
  qed
  ultimately show ?thesis using assms by (simp add: pay_inv_def pay_record_failure_def)
qed

lemma process_pending_inv:
  assumes inv: "pay_inv s"
  shows "pay_inv (fst (process_pending booking paystub describe locked now n s w))"
proof (rule pay_relay.loop_cases [of booking paystub now "pending_commands locked n (commands s)" s w])
  fix s' w'
  assume d: "delivered (deliver booking paystub now) (pay_mark now)
    (pending_commands locked n (commands s)) s w = Some (s', w')"
  have "fst (process_pending booking paystub describe locked now n s w) = s'"
    by (simp add: process_pending_def pay_relay.loop_all [OF d])
  moreover have "pay_inv s'"
  proof (cases "pay_next_uuid s \<le> 2 ^ 128")
    case True
    then have "pay_wf s" using inv by (simp add: pay_inv_def)
    from pending_commands_distinct [OF pay_wfD(4) [OF this]] show ?thesis
      using delivered_pay_inv [OF d inv] pending_commandsD
      by (cases "pay_next_uuid s' \<le> 2 ^ 128") (blast, simp add: pay_inv_def)
  next
    case False
    with delivered_grow [OF d] show ?thesis by (simp add: pay_inv_def)
  qed
  ultimately show ?thesis by simp
next
  fix pre c post s1 w1 s2 w2 e
  assume "pending_commands locked n (commands s) = pre @ c # post"
    and d: "delivered (deliver booking paystub now) (pay_mark now) pre s w = Some (s1, w1)"
    and f: "deliver booking paystub now c s1 w1 = (s2, w2, Inl e)"
  then show ?thesis
    by (simp add: process_pending_def pay_relay.loop_stops [OF d f] pay_record_failure_inv inv)
qed

end
