(* ===== verification/Payments_System.thy ===== *)
theory Payments_System
  imports Payments_Steps
begin

text \<open>
  The payments service as a whole: requests that wait for PayStub between two transactions,
  webhooks, and the relay, which may crash after its neighbours have acted.
\<close>

record 'w pay_world =
  pdb :: pay_db
  waiting :: "(uuid \<times> int \<times> string) list"
  net :: 'w

definition empty_pay_db :: pay_db where
  "empty_pay_db = \<lparr>payments = [], provider_events = [], commands = [], pay_next_uuid = 0\<rparr>"

definition pay_starts :: "'w pay_world \<Rightarrow> bool" where
  "pay_starts w \<longleftrightarrow> pdb w = empty_pay_db \<and> waiting w = []"

inductive pay_step ::
  "'w transport \<Rightarrow> 'w transport \<Rightarrow> (payment_error exn \<Rightarrow> string) \<Rightarrow> 'w pay_world \<Rightarrow> 'w pay_world \<Rightarrow> bool"
  for booking paystub :: "'w transport" and describe :: "payment_error exn \<Rightarrow> string" where
  pay_reserve:
    "bid < 2 ^ 128 \<Longrightarrow> reserve_payment (pdb w) bid amount currency now = (s, Inr (p, created)) \<Longrightarrow>
     pay_step booking paystub describe w
       (w\<lparr>pdb := s, waiting := (if pm_provider_charge_id p = None
            then (pm_id p, amount, currency) # waiting w else waiting w)\<rparr>)"
| pay_charge:
    "(pid, amount, currency) \<in> set (waiting w) \<Longrightarrow>
     create_charge paystub pid amount currency (net w) = (v, Inr charge) \<Longrightarrow> fits_charge charge \<Longrightarrow>
     pay_step booking paystub describe w
       (w\<lparr>pdb := store_charge pid charge now (pdb w),
          waiting := remove1 (pid, amount, currency) (waiting w), net := v\<rparr>)"
| pay_charge_fails:
    "(pid, amount, currency) \<in> set (waiting w) \<Longrightarrow>
     create_charge paystub pid amount currency (net w) = (v, r) \<Longrightarrow>
     (\<forall>charge. r = Inr charge \<longrightarrow> \<not> fits_charge charge) \<Longrightarrow>
     pay_step booking paystub describe w
       (w\<lparr>waiting := remove1 (pid, amount, currency) (waiting w), net := v\<rparr>)"
| pay_webhook:
    "pay_step booking paystub describe w (w\<lparr>pdb := fst (handle_webhook (pdb w) eid ty reference now)\<rparr>)"
| pay_relay:
    "process_pending booking paystub describe locked now n (pdb w) (net w) = (s, v, count) \<Longrightarrow>
     pay_step booking paystub describe w (w\<lparr>pdb := s, net := v\<rparr>)"
| pay_relay_crash:
    "pending_commands locked n (commands (pdb w)) = pre @ post \<Longrightarrow>
     delivered (deliver booking paystub now) (pay_mark now) pre (pdb w) (net w) = Some (s, v) \<Longrightarrow>
     pay_step booking paystub describe w (w\<lparr>net := v\<rparr>)"

inductive_cases pay_stepE: "pay_step booking paystub describe w w'"

lemma empty_pay_inv: "pay_inv empty_pay_db"
  by (simp add: pay_inv_def pay_wf_def pay_violated_constraint_def ledger_ok_def empty_pay_db_def)

interpretation pay_system: invariant_system pay_starts "pay_step booking paystub describe" "\<lambda>w. pay_inv (pdb w)"
  for booking paystub :: "'w transport" and describe :: "payment_error exn \<Rightarrow> string"
proof unfold_locales
  fix w :: "'w pay_world"
  assume "pay_starts w"
  then show "pay_inv (pdb w)" by (simp add: pay_starts_def empty_pay_inv)
next
  fix w w' :: "'w pay_world"
  assume inv: "pay_inv (pdb w)" and "pay_step booking paystub describe w w'"
  from this(2) show "pay_inv (pdb w')"
  proof (cases rule: pay_step.cases)
    case (pay_reserve bid amount currency now s p created)
    then show ?thesis using reserve_payment_inv [OF inv pay_reserve(2), of amount currency now] by simp
  next
    case (pay_charge pid amount currency v charge now)
    then show ?thesis using store_charge_inv [OF inv] by simp
  next
    case (pay_charge_fails pid amount currency v e)
    then show ?thesis using inv by simp
  next
    case (pay_webhook eid ty reference now)
    then show ?thesis using handle_webhook_inv [OF inv] by simp
  next
    case (pay_relay locked now n s v count)
    then show ?thesis
      using process_pending_inv [OF inv, of booking paystub describe locked now n "net w"] by simp
  next
    case (pay_relay_crash locked n pre post now s v)
    then show ?thesis using inv by simp
  qed
qed

end
