(* ===== verification/Payments_Properties.thy ===== *)
theory Payments_Properties
  imports Payments_System
begin

text \<open>
  The theorems about payments: idempotent creation, webhooks applied once, the ledger in every
  reachable state, and what the relay does with a command, failures included.
\<close>

section \<open>An example\<close>

definition example_payment :: payment where
  "example_payment = \<lparr>pm_id = 0, pm_booking_id = 7, pm_amount_minor = 100, pm_currency = ''RUB'',
     pm_status = PayPending, pm_provider_charge_id = Some ''ch'', pm_checkout_url = Some ''u'',
     pm_needs_refund = False, pm_provider_refund_id = None, pm_refunded_at = None,
     pm_created_at = 5, pm_updated_at = 5\<rparr>"

text \<open>A provider that answers every request with the same charge.\<close>

definition example_paystub :: "unit transport" where
  "example_paystub request w = (w, Reply 201 (Some (JObj [(''id'', JStr ''ch''), (''checkout_url'', JStr ''u''),
     (''status'', JStr ''succeeded'')])))"

definition example_pay_db :: pay_db where
  "example_pay_db = \<lparr>payments = [example_payment], provider_events = [], commands = [], pay_next_uuid = 1\<rparr>"

lemma example_charge_fits [simp]: "fits_charge \<lparr>ch_id = ''ch'', ch_checkout_url = ''u''\<rparr>"
  by (simp add: fits_charge_def)

lemma example_create:
  "create_payment example_paystub empty_pay_db () 7 100 ''RUB'' 5
     = (example_pay_db, (), Inr (example_payment, True))"
  by (simp add: create_payment_def reserve_payment_def empty_pay_db_def pay_violated_constraint_def
      create_charge_def paystub_post_def example_paystub_def text_field_def store_charge_def
      update_where_def example_payment_def example_pay_db_def Let_def)

lemma example_pay_wf: "pay_wf example_pay_db"
  by (simp add: pay_wf_def pay_violated_constraint_def example_pay_db_def example_payment_def)

lemma empty_pay_wf: "pay_wf empty_pay_db"
  by (simp add: pay_wf_def pay_violated_constraint_def empty_pay_db_def)

section \<open>Creating a payment\<close>

lemma reserve_again:
  assumes wf: "pay_wf s" and p: "p \<in> set (payments s)" and room: "Suc (pay_next_uuid s) \<le> 2 ^ 128"
    and amount: "0 < amount" and bid: "pm_booking_id p = bid"
  shows "reserve_payment s bid amount currency now =
    (if (pm_amount_minor p, pm_currency p) = (amount, currency) then (s, Inr (p, False))
     else (s, Inl (Domain PayConflictError)))"
proof -
  note w = pay_wfD [OF wf]
  have got: "get_by pm_booking_id bid (payments s) = Some p"
    using get_by_eq_Some [OF w(2) p] bid by simp
  have "pay_next_uuid s \<notin> pm_id ` set (payments s)" using w(6) by fastforce
  then show ?thesis
    using w(1-5) p bid got amount
    by (auto simp: reserve_payment_def Let_def pay_violated_constraint_def list_all_iff
        ONE_PAYMENT_PER_BOOKING_def)
qed

lemma reserve_room:
  "reserve_payment s bid amount currency now = (s', r) \<Longrightarrow> pay_next_uuid s' \<le> Suc (pay_next_uuid s)"
  by (auto simp: reserve_payment_def Let_def split: option.splits if_splits)

text \<open>The row a successful call returns.\<close>

lemma created_payment_row:
  assumes "pay_wf s" and "Suc (Suc (pay_next_uuid s)) \<le> 2 ^ 128" and "bid < 2 ^ 128"
    and "create_payment http s w bid amount currency now = (s1, w1, Inr (p, created))"
  shows "pay_wf s1 \<and> p \<in> set (payments s1) \<and> pm_booking_id p = bid \<and> pm_amount_minor p = amount
    \<and> pm_currency p = currency \<and> pm_provider_charge_id p \<noteq> None \<and> 0 < amount
    \<and> Suc (pay_next_uuid s1) \<le> 2 ^ 128"
proof -
  have room: "Suc (pay_next_uuid s) \<le> 2 ^ 128" using assms(2) by simp
  obtain q s0 where res: "reserve_payment s bid amount currency now = (s0, Inr (q, created))"
    using assms(4) by (auto simp: create_payment_def Let_def split: prod.splits sum.splits if_splits option.splits)
  have s0: "pay_wf s0 \<and> q \<in> set (payments s0) \<and> pm_booking_id q = bid \<and> pm_amount_minor q = amount
      \<and> pm_currency q = currency \<and> 0 < amount"
    using assms(1) room assms(3)
  proof (cases rule: reserve_payment_cases [of s bid amount currency now])
    case (refused e)
    with res show ?thesis by simp
  next
    case (found p')
    with res assms(1) pay_wfD(5) [OF assms(1)] show ?thesis by auto
  next
    case (fresh p')
    have "pay_next_uuid s \<notin> pm_id ` set (payments s)" using pay_wfD(6) [OF assms(1)] by fastforce
    with fresh res assms(1,3) room show ?thesis
      by (auto simp: pay_wf_def pay_violated_constraint_None less_Suc_eq)
  qed
  moreover have "Suc (pay_next_uuid s0) \<le> 2 ^ 128" using reserve_room [OF res] assms(2) by simp
  moreover have "pay_next_uuid s1 = pay_next_uuid s0 \<and> pay_wf s1 \<and> p \<in> set (payments s1) \<and> pm_booking_id p = bid
      \<and> pm_amount_minor p = amount \<and> pm_currency p = currency \<and> pm_provider_charge_id p \<noteq> None"
  proof (cases "pm_provider_charge_id q")
    case (Some ch)
    with assms(4) res s0 show ?thesis by (auto simp: create_payment_def)
  next
    case None
    with assms(4) res obtain ch where
      s1: "s1 = store_charge (pm_id q) ch now s0" and
      got: "get_by pm_id (pm_id q) (payments s1) = Some p"
      by (auto simp: create_payment_def Let_def split: prod.splits sum.splits option.splits if_splits)
    have "get_by pm_id (pm_id q) (payments s0) = Some q"
      using get_by_eq_Some [OF pay_wfD(1)] s0 by blast
    with got None have "p = q\<lparr>pm_provider_charge_id := Some (ch_id ch),
        pm_checkout_url := Some (ch_checkout_url ch), pm_updated_at := now\<rparr>"
      by (simp add: s1 store_charge_def get_by_update_where)
    moreover have "pay_wf s1" unfolding s1 store_charge_def
      by (rule pay_wf_update_payments) (use s0 in \<open>simp_all add: same_row_def\<close>)
    ultimately show ?thesis using s0 got by (auto simp: s1 store_charge_def dest: get_by_SomeD)
  qed
  ultimately show ?thesis by simp
qed

text \<open>
  C18. Creating the payment of a booking is idempotent: after a call that returned a payment, the same
  call returns the same payment, says it did not create it, does not ask PayStub and writes nothing;
  a call with another amount or currency is refused as a conflict and writes nothing. There is one
  payment of the booking, and a fresh one carries the charge PayStub gave for the key of its id.
\<close>

theorem create_payment_idempotent:
  assumes "pay_wf s" and "Suc (Suc (pay_next_uuid s)) \<le> 2 ^ 128" and "bid < 2 ^ 128"
    and "create_payment http s w bid amount currency now = (s1, w1, Inr (p, created))"
  shows "create_payment http s1 w1 bid amount currency later = (s1, w1, Inr (p, False))
    \<and> (0 < amount' \<and> (amount', currency') \<noteq> (amount, currency) \<longrightarrow>
         create_payment http s1 w1 bid amount' currency' later = (s1, w1, Inl (Domain PayConflictError)))
    \<and> filter (\<lambda>q. pm_booking_id q = bid) (payments s1) = [p]
    \<and> pm_amount_minor p = amount \<and> pm_currency p = currency \<and> pm_provider_charge_id p \<noteq> None"
proof -
  have s1: "pay_wf s1" "p \<in> set (payments s1)" "pm_booking_id p = bid" "pm_amount_minor p = amount"
    "pm_currency p = currency" "pm_provider_charge_id p \<noteq> None" "0 < amount" "Suc (pay_next_uuid s1) \<le> 2 ^ 128"
    using created_payment_row [OF assms] by auto
  have "filter (\<lambda>q. pm_booking_id q = bid) (payments s1) = [p]"
    by (rule filter_unique_key [OF pay_wfD(2) [OF s1(1)] s1(2)]) (use s1(3) in simp_all)
  then show ?thesis
    using reserve_again [OF s1(1,2,8) _ s1(3)] s1 by (auto simp: create_payment_def)
qed

theorem create_payment_idempotent_witness:
  "create_payment example_paystub example_pay_db () 7 100 ''RUB'' 9
     = (example_pay_db, (), Inr (example_payment, False))
   \<and> create_payment example_paystub example_pay_db () 7 200 ''RUB'' 9
     = (example_pay_db, (), Inl (Domain PayConflictError))"
  using create_payment_idempotent [OF empty_pay_wf _ _ example_create, of 9 200 "''RUB''"]
  by (simp add: empty_pay_db_def)

section \<open>Webhooks\<close>

text \<open>
  C19. A webhook is applied exactly once, on every branch. An event type nobody acts on is ignored and
  leaves no trace; an event whose id was recorded before is a duplicate and changes nothing; an
  event about an unknown or already settled payment is recorded and ignored; otherwise the pending
  payment gets the status of the event, and a command to confirm its booking is written exactly when the
  money arrived. Whatever the outcome, delivering an acted-on event again is a duplicate.
\<close>

theorem webhook_applied_once:
  assumes "pay_wf s" and "handle_webhook s eid ty reference now = (s', outcome)"
  shows "case target_status ty of
      None \<Rightarrow> s' = s \<and> outcome = Ignored
    | Some target \<Rightarrow>
        handle_webhook s' eid ty again later = (s', Duplicate)
        \<and> (if eid \<in> pe_event_id ` set (provider_events s) then s' = s \<and> outcome = Duplicate
           else map pe_event_id (provider_events s') = map pe_event_id (provider_events s) @ [eid]
             \<and> (case find_payment s reference of
                  None \<Rightarrow> outcome = Ignored \<and> payments s' = payments s \<and> commands s' = commands s
                | Some p \<Rightarrow>
                    if pm_status p \<noteq> PayPending
                    then outcome = Ignored \<and> payments s' = payments s \<and> commands s' = commands s
                    else outcome = Processed
                      \<and> payments s' = map (\<lambda>q. if pm_id q = pm_id p
                            then q\<lparr>pm_status := target, pm_updated_at := now\<rparr> else q) (payments s)
                      \<and> map cm_payload (commands s') = map cm_payload (commands s)
                          @ (if ty = ''charge.succeeded'' then [confirm_payload p] else [])))"
proof (cases "target_status ty")
  case None
  with assms(2) show ?thesis by (simp add: handle_webhook_def)
next
  case (Some target)
  then have pend: "target \<noteq> PayPending" and succ: "target = PaySucceeded \<longleftrightarrow> ty = ''charge.succeeded''"
    by (auto simp: target_status_iff)
  show ?thesis
  proof (cases "eid \<in> pe_event_id ` set (provider_events s)")
    case True
    then have "record_event eid ty t s = None" for t by (simp add: record_event_def)
    with assms(2) Some True show ?thesis by (simp add: handle_webhook_def)
  next
    case False
    define s1 where "s1 = s\<lparr>provider_events := provider_events s @
      [\<lparr>pe_event_id = eid, pe_event_type = ty, pe_received_at = now\<rparr>]\<rparr>"
    have rec: "record_event eid ty now s = Some s1"
      using False by (simp add: record_event_def s1_def)
    have find: "find_payment s1 reference = find_payment s reference"
      by (simp add: find_payment_def s1_def split: option.splits)
    have events: "provider_events s' = provider_events s1"
      using assms(2) Some rec by (auto simp: handle_webhook_def Let_def split: option.splits if_splits)
    then have "record_event eid ty later s' = None" by (simp add: record_event_def s1_def)
    then have again: "handle_webhook s' eid ty again later = (s', Duplicate)"
      using Some by (simp add: handle_webhook_def)
    show ?thesis
      using assms(2) Some rec find False again events pend succ
      by (auto simp: handle_webhook_def Let_def can_transition_iff s1_def confirm_payload_def
          update_where_def split: option.splits if_splits)
  qed
qed

theorem webhook_applied_once_witness:
  "outcome_value (snd (handle_webhook example_pay_db ''e1'' ''charge.failed'' (uuid_str 0) 9)) = ''processed''"
proof -
  have find: "find_payment example_pay_db (uuid_str 0) = Some example_payment"
    by (simp add: find_payment_def uuid_roundtrip example_pay_db_def example_payment_def)
  have target: "target_status ''charge.failed'' = Some PayFailed" by (simp add: target_status_iff)
  obtain s' r where "handle_webhook example_pay_db ''e1'' ''charge.failed'' (uuid_str 0) 9 = (s', r)"
    by fastforce
  with webhook_applied_once [OF example_pay_wf this] find target show ?thesis
    by (simp add: example_pay_db_def example_payment_def)
qed

section \<open>The ledger\<close>

text \<open>
  C21. In every reachable state, whatever fails and wherever the relay crashes, the commands account
  for the money. A payment has a command to confirm its booking exactly when it succeeded, and then
  one; it has a command to refund it only when it succeeded and its confirmation was delivered (and
  refused), and then one; it waits for a refund exactly while that command is undelivered, and is
  marked refunded exactly when it is delivered. There is one payment per booking.
\<close>

theorem ledger_accounts_for_money:
  assumes "reachable_from pay_starts (pay_step booking paystub describe) w"
    and "pay_next_uuid (pdb w) \<le> 2 ^ 128" and "p \<in> set (payments (pdb w))"
  shows "let confirms = commands_about CONFIRM_BOOKING (pm_id p) (commands (pdb w));
             refunds = commands_about REFUND_PAYMENT (pm_id p) (commands (pdb w))
    in length confirms = (if pm_status p = PaySucceeded then 1 else 0)
     \<and> length refunds \<le> length confirms
     \<and> (refunds \<noteq> [] \<longrightarrow> (\<forall>c \<in> set confirms. cm_published_at c \<noteq> None))
     \<and> (pm_needs_refund p \<longleftrightarrow> (\<exists>r \<in> set refunds. cm_published_at r = None))
     \<and> (pm_refunded_at p \<noteq> None \<longleftrightarrow> (\<exists>r \<in> set refunds. cm_published_at r \<noteq> None))
     \<and> filter (\<lambda>q. pm_booking_id q = pm_booking_id p) (payments (pdb w)) = [p]"
proof -
  have "pay_inv (pdb w)" using assms(1) by (rule pay_system.reachable_inv)
  with assms(2) have ok: "pay_wf (pdb w)" "ledger_ok (pdb w)" by (auto simp: pay_inv_def)
  let ?cs = "commands_about CONFIRM_BOOKING (pm_id p) (commands (pdb w))"
  let ?rs = "commands_about REFUND_PAYMENT (pm_id p) (commands (pdb w))"
  have led: "ledger p ?cs ?rs" using ok(2) assms(3) by (simp add: ledger_ok_def)
  have "length ?cs = length (map cm_payload ?cs)" by simp
  also have "\<dots> = (if pm_status p = PaySucceeded then 1 else 0)"
    using led unfolding ledger_def by auto
  finally have len: "length ?cs = (if pm_status p = PaySucceeded then 1 else 0)" .
  have "filter (\<lambda>q. pm_booking_id q = pm_booking_id p) (payments (pdb w)) = [p]"
    by (rule filter_unique_key [OF pay_wfD(2) [OF ok(1)] assms(3)]) simp_all
  with led len show ?thesis
    unfolding ledger_def Let_def by (cases ?rs; cases "tl ?rs") auto
qed

lemma example_pay_reachable:
  "reachable_from pay_starts (pay_step booking example_paystub describe)
     \<lparr>pdb = example_pay_db, waiting = [], net = ()\<rparr>"
proof -
  let ?R = "reachable_from pay_starts (pay_step booking example_paystub describe)"
  let ?p = "example_payment\<lparr>pm_provider_charge_id := None, pm_checkout_url := None\<rparr>"
  let ?s = "\<lparr>payments = [?p], provider_events = [], commands = [], pay_next_uuid = Suc 0\<rparr>"
  have onward: "?R b" if "?R a" "pay_step booking example_paystub describe a b" for a b
    using that by (rule reach_step)
  have start: "?R \<lparr>pdb = empty_pay_db, waiting = [], net = ()\<rparr>"
    by (rule reach_start) (simp add: pay_starts_def)
  have step: "pay_step booking example_paystub describe \<lparr>pdb = empty_pay_db, waiting = [], net = ()\<rparr>
      (\<lparr>pdb = empty_pay_db, waiting = [], net = ()\<rparr>\<lparr>pdb := ?s, waiting := (if pm_provider_charge_id ?p = None
        then (pm_id ?p, 100, ''RUB'') # waiting \<lparr>pdb = empty_pay_db, waiting = [], net = ()\<rparr>
        else waiting \<lparr>pdb = empty_pay_db, waiting = [], net = ()\<rparr>)\<rparr>)"
    by (rule pay_reserve [where bid = 7 and now = 5 and created = True])
      (simp_all add: reserve_payment_def empty_pay_db_def pay_violated_constraint_def example_payment_def Let_def)
  have r: "?R \<lparr>pdb = ?s, waiting = [(0, 100, ''RUB'')], net = ()\<rparr>"
    using onward [OF start step] by (simp add: example_payment_def)
  have "pay_step booking example_paystub describe \<lparr>pdb = ?s, waiting = [(0, 100, ''RUB'')], net = ()\<rparr>
      (\<lparr>pdb = ?s, waiting = [(0, 100, ''RUB'')], net = ()\<rparr>
        \<lparr>pdb := store_charge 0 \<lparr>ch_id = ''ch'', ch_checkout_url = ''u''\<rparr> 5 ?s,
         waiting := remove1 (0, 100, ''RUB'') [(0, 100, ''RUB'')], net := ()\<rparr>)"
    using pay_charge [of 0 100 "''RUB''" "\<lparr>pdb = ?s, waiting = [(0, 100, ''RUB'')], net = ()\<rparr>" example_paystub
      "()" "\<lparr>ch_id = ''ch'', ch_checkout_url = ''u''\<rparr>" booking describe 5]
    by (simp add: create_charge_def paystub_post_def example_paystub_def text_field_def)
  moreover have "store_charge 0 \<lparr>ch_id = ''ch'', ch_checkout_url = ''u''\<rparr> 5 ?s = example_pay_db"
    by (simp add: store_charge_def update_where_def example_payment_def example_pay_db_def)
  ultimately show ?thesis using onward [OF r] by fastforce
qed

theorem ledger_accounts_for_money_witness:
  "length (commands_about CONFIRM_BOOKING 0 (commands example_pay_db)) = 0"
proof -
  have "pay_next_uuid example_pay_db \<le> 2 ^ 128" "example_payment \<in> set (payments example_pay_db)"
    "pm_id example_payment = 0" "pm_status example_payment = PayPending"
    by (simp_all add: example_pay_db_def example_payment_def)
  with ledger_accounts_for_money [OF example_pay_reachable [of example_paystub "\<lambda>_. []"], of example_payment]
  show ?thesis by (simp add: Let_def)
qed

end
