(* ===== verification/Payments_Api.thy ===== *)
theory Payments_Api
  imports Payments_App Payments_Properties
begin

text \<open>
  What the HTTP interface of payments answers, and that only PayStub moves a payment.
\<close>

section \<open>Creating a payment\<close>

lemma reserve_error:
  assumes "pay_wf s" "0 < amount" "reserve_payment s bid amount currency now = (s', Inl e)"
  shows "s' = s \<and> e = Domain PayConflictError"
proof -
  have "get_by pm_booking_id bid (payments s) \<noteq> None" if "bid \<in> pm_booking_id ` set (payments s)"
    using that by (simp add: get_by_None_iff)
  with assms(2,3) reserve_payment_run [OF assms(1), of bid amount currency now] show ?thesis
    by (auto split: if_splits option.splits)
qed

lemma reserve_Inr:
  assumes "pay_wf s" "0 < amount" "reserve_payment s bid amount currency now = (s', Inr (p, created))"
  shows "get_by pm_id (pm_id p) (payments s') = Some p"
    and "s' = s \<or> s' = s\<lparr>payments := payments s @ [new_payment s bid amount currency now],
      pay_next_uuid := Suc (pay_next_uuid s)\<rparr>"
proof -
  note w = pay_wfD [OF assms(1)]
  have fresh: "pay_next_uuid s \<notin> pm_id ` set (payments s)" using w(6) by fastforce
  have "get_by pm_id (pm_id q) (payments s) = Some q" if "get_by pm_booking_id bid (payments s) = Some q" for q
    using get_by_SomeD [OF that] get_by_eq_Some [OF w(1)] by blast
  moreover have "get_by pm_id (pm_id (new_payment s bid amount currency now))
      (payments s @ [new_payment s bid amount currency now]) = Some (new_payment s bid amount currency now)"
    using fresh by (simp add: get_by_append get_by_None_iff [THEN iffD2] new_payment_def)
  ultimately show "get_by pm_id (pm_id p) (payments s') = Some p"
    and "s' = s \<or> s' = s\<lparr>payments := payments s @ [new_payment s bid amount currency now],
      pay_next_uuid := Suc (pay_next_uuid s)\<rparr>"
    using assms(2,3) reserve_payment_run [OF assms(1), of bid amount currency now]
    by (auto split: if_splits option.splits)
qed

text \<open>An answer of PayStub that cannot be read, or that does not fit its columns.\<close>

definition pay_unusable :: "py_error set" where
  "pay_unusable = insert DataError pay_unreadable"

text \<open>Every outcome of a call, and the state it leaves behind when it fails.\<close>

lemma create_payment_error:
  assumes "pay_wf s" "0 < amount" "create_payment http s w bid amount currency now = (s', w', Inl e)"
  shows "e = Domain PayConflictError \<and> s' = s
    \<or> e \<in> insert (Domain ProviderUnavailableError) (Python ` pay_unusable)
      \<and> (s' = s \<or> s' = s\<lparr>payments := payments s @ [new_payment s bid amount currency now],
            pay_next_uuid := Suc (pay_next_uuid s)\<rparr>)"
proof -
  obtain s1 r where r: "reserve_payment s bid amount currency now = (s1, r)" by fastforce
  show ?thesis
  proof (cases r)
    case (Inl e')
    with r assms(3) reserve_error [OF assms(1,2), of bid currency now s1 e'] show ?thesis
      by (auto simp: create_payment_def)
  next
    case (Inr pc)
    obtain p created where pc: "pc = (p, created)" by fastforce
    note res = reserve_Inr [OF assms(1,2) r [unfolded Inr pc]]
    obtain w2 c where c: "create_charge http (pm_id p) amount currency w = (w2, c)" by fastforce
    show ?thesis
    proof (cases c)
      case (Inl e')
      with assms(3) r Inr pc c res(2) create_charge_error [of http "pm_id p" amount currency w w2 e'] show ?thesis
        by (auto simp: create_payment_def pay_unusable_def split: if_splits)
    next
      case charge: (Inr ch)
      have "get_by pm_id (pm_id p) (payments (store_charge (pm_id p) ch now s1)) \<noteq> None"
        using res(1) by (simp add: store_charge_def get_by_update_where)
      with assms(3) r Inr pc c charge res(2) show ?thesis
        by (auto simp: create_payment_def pay_unusable_def Let_def split: if_splits option.splits)
    qed
  qed
qed

lemma create_payment_keeps:
  assumes "create_payment http s w bid amount currency now = (s', w', r)"
  shows "provider_events s' = provider_events s" "commands s' = commands s"
  using assms
  by (auto simp: create_payment_def reserve_payment_def store_charge_def Let_def
      split: prod.splits sum.splits option.splits if_splits)

lemma post_payments_answers:
  assumes "pay_wf s" "0 < amount" "post_payments http s w bid amount currency now = ((s', w'), reply)"
  shows "(\<exists>p. reply \<in> {PayAnswer 200 (PayOut p), PayAnswer 201 (PayOut p)})
    \<or> reply = pay_domain_error PayConflictError \<and> s' = s
    \<or> reply = pay_domain_error ProviderUnavailableError
    \<or> reply \<in> PayCrash ` Python ` pay_unusable"
proof -
  obtain s1 w1 r where r: "create_payment http s w bid amount currency now = (s1, w1, r)" by (metis prod_cases3)
  show ?thesis
  proof (cases r)
    case (Inl e)
    with r assms(3) create_payment_error [OF assms(1,2), of http w bid currency now s1 w1 e] show ?thesis
      by (auto simp: post_payments_def)
  qed (use r assms(3) in \<open>auto simp: post_payments_def split: if_splits\<close>)
qed

lemma webhook_answers:
  "paystub_webhook read_json secret s body header now = (s', reply) \<Longrightarrow>
    (\<exists>ev outcome. header = Some (sign body secret) \<and> parse_webhook read_json body = Some ev
      \<and> handle_webhook s (we_id ev) (we_type ev) (we_reference ev) now = (s', outcome)
      \<and> reply = PayAnswer 200 (AckOut outcome))
    \<or> s' = s \<and> (reply \<in> pay_domain_error ` {InvalidSignatureError, InvalidEventError}
        \<or> reply = PayCrash (Python TypeError) \<and> (\<exists>h. header = Some h \<and> \<not> is_ascii h))"
  using verify_signature_error [of body header secret] verify_signature_Inr [of body header secret]
  by (auto simp: paystub_webhook_def Let_def split: sum.splits option.splits prod.splits)

section \<open>Properties\<close>

text \<open>The requests the framework lets through.\<close>

fun valid_pay_request :: "pay_request \<Rightarrow> bool" where
  "valid_pay_request (PostPayments bid amount_minor currency) = valid_payment_create bid amount_minor currency"
| "valid_pay_request _ = True"

text \<open>
  C20. Every endpoint of payments answers with a status its documentation lists, for every valid request
  and every state of the tables. A webhook, and a payment refused for its terms, change nothing when the answer is
  an error; a payment whose provider does not answer keeps at most its reserved row. What is left is a
  500: a signature header that is not ASCII, or an answer of PayStub with a success status that cannot be
  read or whose charge does not fit the columns of the table. And the tables are only changed by a request for a payment or by a webhook that carries the signature
  of exactly its body under the secret and parses as an event.
\<close>

theorem payments_api_answers:
  assumes "pay_wf s" "valid_pay_request req"
    and "pay_serve read_json secret http now req (s, w) = ((s', w'), reply)"
  shows "(case reply of
      PayAnswer code body \<Rightarrow> code \<in> set (pay_documented req) \<and> (400 \<le> code \<longrightarrow> (\<exists>c. body = PayErrorOut c))
        \<and> (400 \<le> code \<and> code \<noteq> 503 \<longrightarrow> s' = s)
    | PayCrash e \<Rightarrow>
        (\<exists>body h. req = PostWebhook body (Some h) \<and> \<not> is_ascii h \<and> e = Python TypeError \<and> s' = s)
        \<or> (\<exists>bid amount currency. req = PostPayments bid amount currency) \<and> e \<in> Python ` pay_unusable)
    \<and> (provider_events s' \<noteq> provider_events s \<or> commands s' \<noteq> commands s \<longrightarrow>
        (\<exists>body ev. req = PostWebhook body (Some (sign body secret)) \<and> parse_webhook read_json body = Some ev
          \<and> s' = fst (handle_webhook s (we_id ev) (we_type ev) (we_reference ev) now)))"
proof (cases req)
  case (PostPayments bid amount currency)
  then have "0 < amount" using assms(2) by (simp add: valid_payment_create_def)
  moreover have p: "post_payments http s w bid amount currency now = ((s', w'), reply)"
    using assms(3) PostPayments by simp
  ultimately have "(\<exists>p. reply \<in> {PayAnswer 200 (PayOut p), PayAnswer 201 (PayOut p)})
    \<or> reply = pay_domain_error PayConflictError \<and> s' = s
    \<or> reply = pay_domain_error ProviderUnavailableError
    \<or> reply \<in> PayCrash ` Python ` pay_unusable"
    by (intro post_payments_answers [OF assms(1)])
  moreover have "provider_events s' = provider_events s" "commands s' = commands s"
    using p create_payment_keeps by (fastforce simp: post_payments_def Let_def split: prod.splits)+
  ultimately show ?thesis using PostPayments by (auto simp: pay_domain_error_table)
next
  case (GetPayment pid)
  with assms(3) show ?thesis
    by (auto simp: get_payment_by_id_def get_payment_def pay_domain_error_table split: option.splits)
next
  case (PostWebhook body header)
  with assms(3) have "paystub_webhook read_json secret s body header now = (s', reply)"
    by (auto simp: Let_def split: prod.splits)
  from webhook_answers [OF this] PostWebhook show ?thesis by (auto simp: pay_domain_error_table)
qed

text \<open>A request with a wrong signature and a request for a payment, answered.\<close>

theorem payments_api_answers_witness:
  "pay_serve (\<lambda>b. None) ''secret'' example_paystub 9 (PostWebhook [1, 2] None) (example_pay_db, ())
     = ((example_pay_db, ()), PayAnswer 401 (PayErrorOut ''invalid_signature''))
   \<and> (\<exists>code body. pay_serve (\<lambda>b. None) ''secret'' example_paystub 9 (PostPayments 7 200 ''RUB'') (example_pay_db, ())
     = ((example_pay_db, ()), PayAnswer code body) \<and> code \<in> {200, 201, 400, 409, 422, 503})"
proof -
  have a: "pay_serve (\<lambda>b. None) ''secret'' example_paystub 9 (PostWebhook [1, 2] None) (example_pay_db, ())
      = ((example_pay_db, ()), PayAnswer 401 (PayErrorOut ''invalid_signature''))"
    by (simp add: paystub_webhook_def verify_signature_def pay_domain_error_table)
  have valid: "valid_pay_request (PostPayments 7 200 ''RUB'')"
    by (simp add: valid_payment_create_def MAX_AMOUNT_MINOR_def is_upper_letter_def)
  have "reserve_payment example_pay_db 7 200 ''RUB'' 9 = (example_pay_db, Inl (Domain PayConflictError))"
    by (simp add: reserve_payment_run [OF example_pay_wf]) (simp add: example_pay_db_def example_payment_def)
  then have b: "pay_serve (\<lambda>b. None) ''secret'' example_paystub 9 (PostPayments 7 200 ''RUB'') (example_pay_db, ())
      = ((example_pay_db, ()), PayAnswer 409 (PayErrorOut ''payment_conflict''))"
    by (simp add: post_payments_def create_payment_def pay_domain_error_table)
  show ?thesis using a b payments_api_answers [OF example_pay_wf valid b] by auto
qed

end
