(* ===== verification/System_Payment.thy ===== *)
theory System_Payment
  imports Booking_Api Payments_Api
begin

text \<open>
  The other direction: booking asks the payments service itself for a payment, and payments asks PayStub.
  How the framework writes a payment as JSON (\<open>render\<close>) is a parameter, whose documented behaviour is
  \<open>shows_payment\<close>; the request of booking is validated as \<open>PaymentCreate\<close> declares.
\<close>

section \<open>Payments behind its route\<close>

definition parse_payment_create :: "json option \<Rightarrow> (uuid \<times> int \<times> string) option" where
  "parse_payment_create body =
     (case body of
        Some (JObj kvs) \<Rightarrow>
          (case (dict_get kvs ''booking_id'', dict_get kvs ''amount_minor'', dict_get kvs ''currency'') of
             (JStr b, JInt amount, JStr currency) \<Rightarrow>
               (case uuid_of_string b of
                  Some u \<Rightarrow> if valid_payment_create u amount currency then Some (u, amount, currency) else None
                | None \<Rightarrow> None)
           | _ \<Rightarrow> None)
      | _ \<Rightarrow> None)"

definition pay_http_reply :: "(pay_body \<Rightarrow> json) \<Rightarrow> pay_reply \<Rightarrow> http_reply" where
  "pay_http_reply render a =
     (case a of PayAnswer code body \<Rightarrow> Reply code (Some (render body)) | PayCrash e \<Rightarrow> Reply 500 None)"

definition payments_server ::
  "(pay_body \<Rightarrow> json) \<Rightarrow> 'v transport \<Rightarrow> moment \<Rightarrow> (pay_db \<times> 'v) transport" where
  "payments_server render paystub now request sv =
     (case sv of (s, v) \<Rightarrow>
        if rq_method request \<noteq> ''POST'' \<or> rq_path request \<noteq> ''/payments'' then ((s, v), Reply 404 None)
        else (case parse_payment_create (rq_json request) of
            None \<Rightarrow> ((s, v), Reply 422 None)
          | Some (u, amount, currency) \<Rightarrow>
              (let (sv', a) = post_payments paystub s v u amount currency now
               in (sv', pay_http_reply render a))))"

text \<open>What the framework writes for a \<open>PaymentOut\<close>: its fields, under their names.\<close>

definition shows_payment :: "(pay_body \<Rightarrow> json) \<Rightarrow> bool" where
  "shows_payment render \<longleftrightarrow> (\<forall>p. \<exists>kvs. render (PayOut p) = JObj kvs
     \<and> map_of kvs ''id'' = Some (JStr (uuid_str (pm_id p)))
     \<and> map_of kvs ''status'' = Some (JStr (payment_status_value (pm_status p)))
     \<and> map_of kvs ''checkout_url'' = Some (case pm_checkout_url p of None \<Rightarrow> JNull | Some url \<Rightarrow> JStr url))"

definition payment_shown :: "payment \<Rightarrow> payment_out" where
  "payment_shown p =
     \<lparr>po_payment_id = pm_id p, po_status = payment_status_value (pm_status p), po_checkout_url = pm_checkout_url p\<rparr>"

lemma read_shown:
  assumes "shows_payment render" "pm_id p < 2 ^ 128"
  shows "\<exists>x. read_payment (Some (render (PayOut p))) = Inr x \<and> payment_out_of x = Inr (payment_shown p)"
proof -
  obtain kvs where "render (PayOut p) = JObj kvs" "map_of kvs ''id'' = Some (JStr (uuid_str (pm_id p)))"
    "map_of kvs ''status'' = Some (JStr (payment_status_value (pm_status p)))"
    "map_of kvs ''checkout_url'' = Some (case pm_checkout_url p of None \<Rightarrow> JNull | Some url \<Rightarrow> JStr url)"
    using assms(1) unfolding shows_payment_def by blast
  then show ?thesis
    using uuid_roundtrip [OF assms(2)]
    by (simp add: read_payment_def item_def as_uuid_def payment_out_of_def payment_shown_def split: option.split)
qed

lemma payments_server_request:
  assumes "bid < 2 ^ 128" "0 < amount" "amount \<le> MAX_AMOUNT_MINOR"
  shows "payments_server render paystub now (payment_request bid amount) (s, v) =
    (let (sv', a) = post_payments paystub s v bid amount CURRENCY now in (sv', pay_http_reply render a))"
proof -
  have "valid_payment_create bid amount CURRENCY"
    using assms by (simp add: valid_payment_create_def CURRENCY_def is_upper_letter_def)
  then show ?thesis
    using uuid_roundtrip [OF assms(1)]
    by (simp add: payments_server_def payment_request_def parse_payment_create_def dict_get_def)
qed

text \<open>One call of booking's client against the service.\<close>

lemma create_payment_over_http:
  assumes "bid < 2 ^ 128" "0 < amount" "amount \<le> MAX_AMOUNT_MINOR"
    and "create_payment paystub s v bid amount CURRENCY now = (s', v', Inr (p, created))"
  shows "booking_create_payment (payments_server render paystub now) bid amount (s, v) =
    ((s', v'), case read_payment (Some (render (PayOut p))) of Inl e \<Rightarrow> Inl (Python e) | Inr x \<Rightarrow> Inr x)"
  using assms(4) payments_server_request [OF assms(1-3), of render paystub now s v]
  by (simp add: booking_create_payment_def post_payments_def pay_http_reply_def)

lemma pay_failure_status: "\<exists>code body. pay_http_reply render (pay_failure e) = Reply code body \<and> code \<noteq> 200 \<and> code \<noteq> 201"
proof -
  have "pay_domain_error d = PayAnswer code body \<Longrightarrow> code \<noteq> 200 \<and> code \<noteq> 201" for d code body
    by (cases d) (auto simp: pay_domain_error_def PAY_ERROR_STATUS_def)
  then show ?thesis
    by (cases e) (auto simp: pay_http_reply_def pay_domain_error_def Let_def)
qed

lemma create_payment_over_http_error:
  assumes "bid < 2 ^ 128" "0 < amount" "amount \<le> MAX_AMOUNT_MINOR"
    and "create_payment paystub s v bid amount CURRENCY now = (s', v', Inl e)"
  shows "\<exists>e'. booking_create_payment (payments_server render paystub now) bid amount (s, v) = ((s', v'), Inl e')"
proof -
  obtain code body where "pay_http_reply render (pay_failure e) = Reply code body" "code \<noteq> 200" "code \<noteq> 201"
    using pay_failure_status by blast
  then show ?thesis
    using assms(4) payments_server_request [OF assms(1-3), of render paystub now s v]
    by (simp add: booking_create_payment_def post_payments_def)
qed

section \<open>Properties\<close>

text \<open>The prices the schema of a slot lets through.\<close>

definition prices_ok :: "booking_db \<Rightarrow> bool" where
  "prices_ok b \<longleftrightarrow> (\<forall>sl \<in> set (slots b). 0 < sl_price_minor sl \<and> sl_price_minor sl \<le> MAX_AMOUNT_MINOR)"

lemma payable_row:
  assumes "wf_db b" "get_payable_booking b bid who now ttl = Inr (k, sl)"
  shows "k \<in> set (bookings b) \<and> bk_id k = bid \<and> sl \<in> set (slots b) \<and> sl_id sl = bk_slot_id k"
proof -
  have "get_owned_booking b bid who = Inr (k, sl)"
    using assms(2) by (auto simp: get_payable_booking_def try_bind_Inr_iff split: if_splits)
  then show ?thesis using assms(1) by (auto simp: get_owned_Inr get_booking_wf get_slot_wf)
qed

lemma serve_payment_Inr:
  assumes "a_client rd st c auth_now = Inr who" "get_payable_booking b bid who now (st_pending_ttl st) = Inr (k, sl)"
  shows "serve rd st http auth_now now (PostPayment c bid) (b, w) =
    (let (w', r) = booking_create_payment http bid (sl_price_minor sl) w
     in ((b, w'), reply_with 200 PaymentOut (try_bind r payment_out_of)))"
  using assms by (simp add: guarded_def post_payment_def)

lemma serve_payment_success:
  assumes "serve rd st http auth_now now (PostPayment c bid) (b, w) = ((b', w'), Answer 200 (PaymentOut q))"
  obtains who k sl where "a_client rd st c auth_now = Inr who"
    "get_payable_booking b bid who now (st_pending_ttl st) = Inr (k, sl)" "b' = b"
proof (cases "a_client rd st c auth_now")
  case (Inl e)
  with assms show thesis by (cases e) (auto simp: guarded_def)
next
  case who: (Inr who)
  show thesis
  proof (cases "get_payable_booking b bid who now (st_pending_ttl st)")
    case (Inl e)
    with assms who show thesis by (cases e) (auto simp: guarded_def post_payment_def)
  next
    case (Inr row)
    with assms who that [of who "fst row" "snd row"] show thesis
      by (auto simp: guarded_def post_payment_def Let_def split: prod.splits)
  qed
qed

text \<open>
  C13. Paying for a booking, from the client's request through booking and payments to PayStub. When the
  client is given a payment, it is the one payment of that booking in payments, over the price of its slot
  in roubles, with PayStub's charge behind it; booking has changed nothing. Asking again while the booking
  is payable gives the same payment and asks PayStub for nothing.
\<close>

theorem paying_end_to_end:
  assumes "wf_db b" "prices_ok b" "pay_wf s" "Suc (Suc (pay_next_uuid s)) \<le> 2 ^ 128" "bid < 2 ^ 128" "shows_payment render"
    and "serve rd st (payments_server render paystub now) auth_now now (PostPayment c bid) (b, (s, v))
      = ((b', (s', v')), Answer 200 (PaymentOut q))"
  shows "b' = b
    \<and> (\<exists>k sl p. k \<in> set (bookings b) \<and> bk_id k = bid \<and> sl \<in> set (slots b) \<and> sl_id sl = bk_slot_id k
        \<and> filter (\<lambda>x. pm_booking_id x = bid) (payments s') = [p] \<and> pm_amount_minor p = sl_price_minor sl
        \<and> pm_currency p = ''RUB'' \<and> pm_provider_charge_id p \<noteq> None \<and> q = payment_shown p)
    \<and> (\<forall>who x. a_client rd st c auth_later = Inr who
        \<and> get_payable_booking b bid who later (st_pending_ttl st) = Inr x \<longrightarrow>
        serve rd st (payments_server render paystub later) auth_later later (PostPayment c bid) (b, (s', v'))
          = ((b, (s', v')), Answer 200 (PaymentOut q)))"
proof -
  obtain who k sl where who: "a_client rd st c auth_now = Inr who"
    and pay: "get_payable_booking b bid who now (st_pending_ttl st) = Inr (k, sl)" and b': "b' = b"
    using assms(7) by (rule serve_payment_success)
  note row = payable_row [OF assms(1) pay]
  then have price: "0 < sl_price_minor sl" "sl_price_minor sl \<le> MAX_AMOUNT_MINOR"
    using assms(2) by (auto simp: prices_ok_def)
  obtain s1 v1 r where cp: "create_payment paystub s v bid (sl_price_minor sl) CURRENCY now = (s1, v1, r)"
    by (metis prod_cases3)
  have "\<exists>p created. r = Inr (p, created)"
  proof (cases r)
    case (Inl e)
    from create_payment_over_http_error [OF assms(5) price cp [unfolded Inl], of render] obtain e'
      where "booking_create_payment (payments_server render paystub now) bid (sl_price_minor sl) (s, v) = ((s1, v1), Inl e')" ..
    with assms(7) serve_payment_Inr [OF who pay, of "payments_server render paystub now" "(s, v)"] show ?thesis
      by (cases e') auto
  qed auto
  then obtain p created where r: "r = Inr (p, created)" by blast
  note made = created_payment_row [OF assms(3-5) cp [unfolded r]]
  then have "pm_id p < 2 ^ 128" using pay_wfD(7) by blast
  then obtain x where x: "read_payment (Some (render (PayOut p))) = Inr x" "payment_out_of x = Inr (payment_shown p)"
    using read_shown [OF assms(6)] by blast
  have "s' = s1 \<and> v' = v1 \<and> q = payment_shown p"
    using assms(7) serve_payment_Inr [OF who pay, of "payments_server render paystub now" "(s, v)"]
      create_payment_over_http [OF assms(5) price cp [unfolded r], of render] x by simp
  moreover have "filter (\<lambda>x. pm_booking_id x = bid) (payments s1) = [p]"
    using made pay_wfD(2) [of s1] by (intro filter_unique_key [where key = pm_booking_id]) auto
  moreover have "serve rd st (payments_server render paystub later) auth_later later (PostPayment c bid) (b, (s1, v1))
      = ((b, (s1, v1)), Answer 200 (PaymentOut (payment_shown p)))"
    if "a_client rd st c auth_later = Inr w2" "get_payable_booking b bid w2 later (st_pending_ttl st) = Inr y" for w2 y
  proof -
    obtain k2 sl2 where y: "y = (k2, sl2)" by fastforce
    have "sl2 = sl"
      using payable_row [OF assms(1) that(2) [unfolded y]] row distinct_key_eq [OF wf_dbD(1) [OF assms(1)]]
        distinct_key_eq [OF wf_dbD(2) [OF assms(1)]] by metis
    moreover have "create_payment paystub s1 v1 bid (sl_price_minor sl) CURRENCY later = (s1, v1, Inr (p, False))"
      using reserve_again [of s1 p "sl_price_minor sl" bid CURRENCY later] made by (simp add: create_payment_def)
    ultimately show ?thesis
      using serve_payment_Inr [OF that(1) that(2) [unfolded y], of "payments_server render paystub later" "(s1, v1)"]
        create_payment_over_http [OF assms(5) price, where s = s1 and v = v1 and now = later and p = p and created = False and render = render and paystub = paystub] x by simp
  qed
  ultimately show ?thesis using b' row made by (auto simp: CURRENCY_def)
qed

definition plain_render :: "pay_body \<Rightarrow> json" where
  "plain_render body =
     (case body of
        PayOut p \<Rightarrow> JObj [(''id'', JStr (uuid_str (pm_id p))), (''status'', JStr (payment_status_value (pm_status p))),
          (''checkout_url'', case pm_checkout_url p of None \<Rightarrow> JNull | Some url \<Rightarrow> JStr url)]
      | _ \<Rightarrow> JNull)"

lemma plain_render_shows: "shows_payment plain_render"
  by (simp add: shows_payment_def plain_render_def)

theorem paying_end_to_end_witness:
  "\<exists>token s'. serve example_reader example_settings (payments_server plain_render example_paystub 20) 20 20
      (PostPayment (Some token) 1) (example_db, (empty_pay_db, ()))
      = ((example_db, (s', ())), Answer 200 (PaymentOut \<lparr>po_payment_id = 0, po_status = ''pending'', po_checkout_url = Some ''u''\<rparr>))
    \<and> (\<exists>p. filter (\<lambda>x. pm_booking_id x = 1) (payments s') = [p] \<and> pm_amount_minor p = 100)"
proof -
  let ?q = "\<lparr>po_payment_id = 0, po_status = ''pending'', po_checkout_url = Some ''u''\<rparr>"
    and ?who = "\<lparr>subject = ''c'', id_role = Client\<rparr>" and ?server = "payments_server plain_render example_paystub 20"
    and ?p = "example_payment\<lparr>pm_booking_id := 1, pm_created_at := 20, pm_updated_at := 20\<rparr>"
  have "matches_id ''c''" by code_simp
  then obtain token where t: "caller example_reader example_settings (Some token) 20 = Inr ?who"
    by (rule example_token [where r = WebClient]) simp_all
  then have who: "a_client example_reader example_settings (Some token) 20 = Inr ?who"
    by (simp add: a_client_def caller_as_Inr)
  have pay: "get_payable_booking example_db 1 ?who 20 (st_pending_ttl example_settings) = Inr (example_booking, example_slot)"
    by (simp add: get_payable_booking_def get_owned_booking_def get_booking_def get_slot_def ensure_owner_def is_stale_def
        example_defs example_settings_def)
  have made: "create_payment example_paystub empty_pay_db () 1 100 CURRENCY 20 = (empty_pay_db\<lparr>payments := [?p], pay_next_uuid := 1\<rparr>, (), Inr (?p, True))"
    by (simp add: create_payment_def reserve_payment_def empty_pay_db_def pay_violated_constraint_def CURRENCY_def
        create_charge_def paystub_post_def example_paystub_def text_field_def store_charge_def
        update_where_def example_payment_def Let_def)
  have shown: "payment_shown ?p = ?q" by (simp add: payment_shown_def example_payment_def)
  have "pm_id ?p < 2 ^ 128" by (simp add: example_payment_def)
  then obtain x where "read_payment (Some (plain_render (PayOut ?p))) = Inr x" "payment_out_of x = Inr ?q"
    using read_shown [OF plain_render_shows, of ?p] shown by auto
  then have s: "serve example_reader example_settings ?server 20 20 (PostPayment (Some token) 1) (example_db, (empty_pay_db, ()))
      = ((example_db, (empty_pay_db\<lparr>payments := [?p], pay_next_uuid := 1\<rparr>, ())), Answer 200 (PaymentOut ?q))"
    using serve_payment_Inr [OF who pay, of ?server "(empty_pay_db, ())"]
      create_payment_over_http [OF _ _ _ made, of plain_render]
    by (simp add: example_slot_def MAX_AMOUNT_MINOR_def)
  have prices: "prices_ok example_db" by (simp add: prices_ok_def example_defs MAX_AMOUNT_MINOR_def)
  have room: "Suc (Suc (pay_next_uuid empty_pay_db)) \<le> 2 ^ 128" by (simp add: empty_pay_db_def)
  have small: "(1::nat) < 2 ^ 128" by simp
  obtain k sl p where row: "sl \<in> set (slots example_db)"
    and only: "filter (\<lambda>x. pm_booking_id x = 1) (payments (empty_pay_db\<lparr>payments := [?p], pay_next_uuid := 1\<rparr>)) = [p]"
    and price: "pm_amount_minor p = sl_price_minor sl"
    using paying_end_to_end [OF example_wf prices empty_pay_wf room small plain_render_shows s, THEN conjunct2, THEN conjunct1]
    by blast
  have "sl = example_slot" using row by (simp add: example_db_def)
  then have "pm_amount_minor p = 100" using price by (simp add: example_slot_def)
  with s only show ?thesis by blast
qed

end
