(* ===== verification/Payments_Settlement.thy ===== *)
theory Payments_Settlement
  imports Payments_Properties
begin

text \<open>
  How the relay of payments settles: what one delivery asks and writes, what blocks the queue, what
  a failure undoes, and that every succeeded payment ends confirmed or refunded once the neighbours
  answer.
\<close>

section \<open>One delivery\<close>

lemma confirm_eq:
  "http (confirm_request bid) w = (w', reply) \<Longrightarrow> confirm http bid w = (w', case reply of
     HTTPError \<Rightarrow> Inl (Domain BookingUnavailableError)
   | Reply st _ \<Rightarrow> if st = 409 then Inl (Domain BookingRejectedError)
                  else if st \<noteq> 200 then Inl (Domain BookingUnavailableError) else Inr ())"
  by (simp add: confirm_def)

text \<open>
  Delivering the command to confirm a booking asks booking once, about that booking, and reads
  the answer as ADR-0010 says: 200 is done and nothing is written; 409 marks the payment for a refund
  and writes the command to refund it, in one change; anything else, or no answer, fails and
  changes nothing.
\<close>

theorem confirm_delivery:
  assumes "pay_wf s" and "p \<in> set (payments s)"
    and "cm_topic c = CONFIRM_BOOKING" and "cm_payload c = confirm_payload p"
    and "booking \<lparr>rq_method = ''POST'',
           rq_path = ''/internal/bookings/'' @ uuid_str (pm_booking_id p) @ ''/confirm'',
           rq_headers = [], rq_json = None\<rparr> w = (w', reply)"
  shows "deliver booking paystub now c s w =
    (case reply of
       HTTPError \<Rightarrow> (s, w', Inl (Domain BookingUnavailableError))
     | Reply st _ \<Rightarrow>
         if st = 200 then (s, w', Inr ())
         else if st = 409 then
           (add_command REFUND_PAYMENT (refund_payload p)
              (s\<lparr>payments := map (\<lambda>q. if pm_id q = pm_id p
                   then q\<lparr>pm_needs_refund := True, pm_updated_at := now\<rparr> else q) (payments s)\<rparr>), w', Inr ())
         else (s, w', Inl (Domain BookingUnavailableError)))"
proof -
  have "confirm booking (pm_booking_id p) w = (w', case reply of
     HTTPError \<Rightarrow> Inl (Domain BookingUnavailableError)
   | Reply st _ \<Rightarrow> if st = 409 then Inl (Domain BookingRejectedError)
                  else if st \<noteq> 200 then Inl (Domain BookingUnavailableError) else Inr ())"
    using assms(5) by (intro confirm_eq) (simp add: confirm_request_def)
  then show ?thesis
    using pay_wfD(7,8) [OF assms(1,2)] assms(3,4)
    by (auto simp: deliver_def confirm_booking_def uuid_field_payloads refund_payload_def
        update_payment_def update_where_def split: http_reply.splits)
qed

definition refusing_booking :: "unit transport" where
  "refusing_booking request w = (w, Reply 409 None)"

theorem confirm_delivery_witness:
  "\<exists>s'. deliver refusing_booking example_paystub 9
      \<lparr>cm_id = 1, cm_topic = CONFIRM_BOOKING, cm_payload = confirm_payload example_payment,
       cm_published_at = None, cm_attempts = 0, cm_last_error = None\<rparr> example_pay_db () = (s', (), Inr ())
    \<and> map cm_payload (commands s') = [refund_payload example_payment]"
proof -
  have "example_payment \<in> set (payments example_pay_db)" "commands example_pay_db = []"
    by (simp_all add: example_pay_db_def)
  with confirm_delivery [OF example_pay_wf, of example_payment
      "\<lparr>cm_id = 1, cm_topic = CONFIRM_BOOKING, cm_payload = confirm_payload example_payment,
       cm_published_at = None, cm_attempts = 0, cm_last_error = None\<rparr>" refusing_booking "()" "()" _ example_paystub 9]
  show ?thesis by (simp add: refusing_booking_def)
qed

text \<open>
  Delivering the command to refund a payment asks PayStub to refund the whole amount of its
  charge, under the id of the payment as the idempotency key, and records the refund; a payment
  already refunded is not asked for again; a payment without a charge fails without asking; a refund
  id that does not fit its column fails after asking; and a failure changes nothing.
\<close>

theorem refund_delivery:
  assumes "pay_wf s" and "p \<in> set (payments s)"
    and "cm_topic c = REFUND_PAYMENT" and "cm_payload c = refund_payload p"
  shows "deliver booking paystub now c s w =
    (if pm_refunded_at p \<noteq> None then (s, w, Inr ())
     else case pm_provider_charge_id p of
       None \<Rightarrow> (s, w, Inl (Python ValueError))
     | Some ch \<Rightarrow>
         (case paystub_post paystub ''/v1/refunds'' (pm_id p)
                 (JObj [(''charge_id'', JStr ch), (''amount'', JInt (pm_amount_minor p))]) ''id'' ''status'' w of
            (w', Inl e) \<Rightarrow> (s, w', Inl e)
          | (w', Inr (rid, _)) \<Rightarrow>
              if length rid > 64 then (s, w', Inl (Python DataError)) else
              (s\<lparr>payments := map (\<lambda>q. if pm_id q = pm_id p
                   then q\<lparr>pm_needs_refund := False, pm_provider_refund_id := Some rid,
                          pm_refunded_at := Some now, pm_updated_at := now\<rparr> else q) (payments s)\<rparr>,
               w', Inr ())))"
proof -
  have "get_by pm_id (pm_id p) (payments s) = Some p"
    by (rule get_by_eq_Some [OF pay_wfD(1) [OF assms(1)] assms(2)])
  then show ?thesis
    using pay_wfD(7) [OF assms(1,2)] assms(3,4)
    by (auto simp: deliver_def refund_payment_def uuid_field_payloads create_refund_def
        refund_request_def update_payment_def update_where_def split: option.splits prod.splits sum.splits)
qed

theorem refund_delivery_witness:
  "fst (snd (deliver refusing_booking example_paystub 9
      \<lparr>cm_id = 1, cm_topic = REFUND_PAYMENT, cm_payload = refund_payload example_payment,
       cm_published_at = None, cm_attempts = 0, cm_last_error = None\<rparr> example_pay_db ())) = ()
   \<and> pm_refunded_at (hd (payments (fst (deliver refusing_booking example_paystub 9
      \<lparr>cm_id = 1, cm_topic = REFUND_PAYMENT, cm_payload = refund_payload example_payment,
       cm_published_at = None, cm_attempts = 0, cm_last_error = None\<rparr> example_pay_db ())))) = Some 9"
proof -
  have "example_payment \<in> set (payments example_pay_db)" by (simp add: example_pay_db_def)
  from refund_delivery [OF example_pay_wf this, of
      "\<lparr>cm_id = 1, cm_topic = REFUND_PAYMENT, cm_payload = refund_payload example_payment,
       cm_published_at = None, cm_attempts = 0, cm_last_error = None\<rparr>" refusing_booking example_paystub 9 "()"]
  show ?thesis
    by (simp add: paystub_post_def example_paystub_def text_field_def example_payment_def example_pay_db_def)
qed

section \<open>Failures\<close>

lemma pending_command_ids:
  "map cm_id (pending_commands locked n cs) =
     take n (sort (map cm_id (filter (\<lambda>c. cm_published_at c = None \<and> \<not> locked (cm_id c)) cs)))"
  by (simp add: pending_commands_def take_map [symmetric] map_sort_key)

lemma pay_record_failure_payments [simp]: "payments (pay_record_failure describe c e s) = payments s"
  by (simp add: pay_record_failure_def)

lemma failure_keeps_batch:
  "map cm_id (pending_commands locked n (commands (pay_record_failure describe c e s)))
     = map cm_id (pending_commands locked n (commands s))"
  unfolding pending_command_ids pay_record_failure_def update_command_simps
  by (rule arg_cong [where f = "\<lambda>l. take n (sort l)"], rule map_filter_update_where) simp_all

text \<open>
  A failing delivery stops the batch and rolls back the marks, refund flags and refund commands
  of the deliveries that succeeded before it in the same batch; the result still counts them, so
  the loop does not pause, and the next batch delivers them again.
\<close>

theorem pay_failure_forgets_delivered:
  assumes "pending_commands locked n (commands s) = pre @ c # post"
    and "delivered (deliver booking paystub now) (pay_mark now) pre s w = Some (s1, w1)"
    and "deliver booking paystub now c s1 w1 = (s2, w2, Inl e)"
  shows "process_pending booking paystub describe locked now n s w
      = (pay_record_failure describe c e s, w2, int (length pre))
    \<and> payments (fst (process_pending booking paystub describe locked now n s w)) = payments s
    \<and> map cm_id (pending_commands locked n
          (commands (fst (process_pending booking paystub describe locked now n s w))))
        = map cm_id (pre @ c # post)
    \<and> (n = PAY_BATCH_SIZE \<and> pre \<noteq> [] \<longrightarrow>
         \<not> snd (snd (pay_relay_cycle booking paystub describe locked now s w)))"
proof -
  have run: "process_pending booking paystub describe locked now n s w
      = (pay_record_failure describe c e s, w2, int (length pre))"
    unfolding process_pending_def assms(1) pay_relay.loop_stops [OF assms(2,3)] by simp
  then show ?thesis
    by (auto simp: failure_keeps_batch assms(1) pay_relay_cycle_def)
qed

text \<open>Two commands: a booking to confirm, then a payment without a charge to refund.\<close>

definition uncharged_payment :: payment where
  "uncharged_payment = example_payment\<lparr>pm_provider_charge_id := None, pm_status := PaySucceeded\<rparr>"

definition example_command :: "uuid \<Rightarrow> string \<Rightarrow> (string \<times> json) list \<Rightarrow> command" where
  "example_command cid topic payload = \<lparr>cm_id = cid, cm_topic = topic, cm_payload = payload,
     cm_published_at = None, cm_attempts = 0, cm_last_error = None\<rparr>"

definition two_commands_db :: pay_db where
  "two_commands_db = \<lparr>payments = [uncharged_payment], provider_events = [],
     commands = [example_command 1 CONFIRM_BOOKING (confirm_payload uncharged_payment),
                 example_command 2 REFUND_PAYMENT (refund_payload uncharged_payment)], pay_next_uuid = 3\<rparr>"

lemma two_commands_wf: "pay_wf two_commands_db"
  by (simp add: pay_wf_def pay_violated_constraint_def two_commands_db_def uncharged_payment_def
      example_payment_def example_command_def)

theorem pay_failure_forgets_delivered_witness:
  "payments (fst (process_pending refusing_booking example_paystub (\<lambda>_. ''boom'') (\<lambda>_. False) 9 100
     two_commands_db ())) = payments two_commands_db
   \<and> snd (snd (process_pending refusing_booking example_paystub (\<lambda>_. ''boom'') (\<lambda>_. False) 9 100
       two_commands_db ())) = 1"
proof -
  let ?c1 = "example_command 1 CONFIRM_BOOKING (confirm_payload uncharged_payment)"
  let ?c2 = "example_command 2 REFUND_PAYMENT (refund_payload uncharged_payment)"
  let ?f = "\<lambda>q. q\<lparr>pm_needs_refund := True, pm_updated_at := 9\<rparr>"
  have p: "uncharged_payment \<in> set (payments two_commands_db)"
    by (simp add: two_commands_db_def)
  note small = pay_wfD(7,8) [OF two_commands_wf p]
  let ?s1 = "pay_mark 9 ?c1 (add_command REFUND_PAYMENT (refund_payload uncharged_payment)
     (update_payment (pm_id uncharged_payment) ?f two_commands_db))"
  have batch: "pending_commands (\<lambda>_. False) 100 (commands two_commands_db) = [?c1] @ ?c2 # []"
    by (simp add: pending_commands_def two_commands_db_def example_command_def)
  have d1: "deliver refusing_booking example_paystub 9 ?c1 two_commands_db () =
    (add_command REFUND_PAYMENT (refund_payload uncharged_payment)
       (update_payment (pm_id uncharged_payment) ?f two_commands_db), (), Inr ())"
    using small by (simp add: deliver_def confirm_booking_def uuid_field_payloads example_command_def
        confirm_def refusing_booking_def refund_payload_def)
  then have run: "delivered (deliver refusing_booking example_paystub 9) (pay_mark 9) [?c1] two_commands_db ()
      = Some (?s1, ())" by simp
  have "get_by pm_id (pm_id uncharged_payment) (payments ?s1) = Some (?f uncharged_payment)"
    by (simp add: two_commands_db_def update_where_def)
  then have d2: "deliver refusing_booking example_paystub 9 ?c2 ?s1 () = (?s1, (), Inl (Python ValueError))"
    using small by (simp add: deliver_def refund_payment_def uuid_field_payloads example_command_def
        uncharged_payment_def example_payment_def)
  from pay_failure_forgets_delivered [OF batch run d2, of "\<lambda>_. ''boom''"]
  show ?thesis by simp
qed




section \<open>Neighbours that answer\<close>

definition neighbours_answer :: "'w transport \<Rightarrow> 'w transport \<Rightarrow> bool" where
  "neighbours_answer booking paystub \<longleftrightarrow>
     (\<forall>bid w. snd (confirm booking bid w) \<in> {Inr (), Inl (Domain BookingRejectedError)})
     \<and> (\<forall>pid ch amount w. \<exists>r. snd (create_refund paystub pid ch amount w) = Inr r \<and> length (rf_id r) \<le> 64)"

definition charged :: "pay_db \<Rightarrow> bool" where
  "charged s \<longleftrightarrow> (\<forall>p \<in> set (payments s). pm_status p = PaySucceeded \<longrightarrow> pm_provider_charge_id p \<noteq> None)"

definition undelivered :: "pay_db \<Rightarrow> command list" where
  "undelivered s = filter (\<lambda>c. cm_published_at c = None) (commands s)"

lemma charged_update:
  assumes "charged s" "\<And>p. pm_status (f p) = pm_status p" "\<And>p. pm_provider_charge_id (f p) = pm_provider_charge_id p"
  shows "charged (update_payment pid f s)"
  using assms by (auto simp: charged_def set_update_where)

lemma undelivered_mark:
  "undelivered (pay_mark now c s) = filter (\<lambda>x. cm_id x \<noteq> cm_id c) (undelivered s)"
  unfolding undelivered_def pay_mark_def update_command_simps by (rule filter_update_away) simp

text \<open>One delivery with such neighbours succeeds; a confirmation may leave one refund behind.\<close>

lemma deliver_answers:
  assumes wf: "pay_wf s" and ok: "ledger_ok s" and c: "c \<in> set (commands s)" "cm_published_at c = None"
    and good: "neighbours_answer booking paystub" and ch: "charged s"
  shows "\<exists>s' w' new. deliver booking paystub now c s w = (s', w', Inr ())
    \<and> charged s' \<and> commands s' = commands s @ new \<and> pay_next_uuid s' = pay_next_uuid s + length new
    \<and> (\<forall>x \<in> set new. cm_topic x = REFUND_PAYMENT \<and> cm_published_at x = None)
    \<and> length new \<le> (if cm_topic c = REFUND_PAYMENT then 0 else 1)"
proof -
  obtain s' w' r where d: "deliver booking paystub now c s w = (s', w', r)" by (metis prod_cases3)
  from wf ok c d show ?thesis
  proof (cases rule: deliver_cases)
    case (confirmed q)
    with d ch show ?thesis by (intro exI [of _ s'] exI [of _ w'] exI [of _ "[]"]) simp
  next
    case (rejected q)
    have "charged (update_payment (pm_id q) (\<lambda>p. p\<lparr>pm_needs_refund := True, pm_updated_at := now\<rparr>) s)"
      by (rule charged_update [OF ch]) simp_all
    then have "charged s'" using rejected(5) by (simp add: charged_def)
    with d rejected show ?thesis
      by (intro exI [of _ s'] exI [of _ w'] exI [of _ "[\<lparr>cm_id = pay_next_uuid s, cm_topic = REFUND_PAYMENT,
        cm_payload = refund_payload q, cm_published_at = None, cm_attempts = 0, cm_last_error = None\<rparr>]"]) simp
  next
    case (refunded q chg rf)
    have "charged s'" unfolding refunded(6) by (rule charged_update [OF ch]) simp_all
    with d refunded show ?thesis
      by (intro exI [of _ s'] exI [of _ w'] exI [of _ "[]"]) simp
  next
    case (failed e)
    have False
      using ok c(1)
    proof (cases rule: known_obtain)
      case (confirm q)
      note small = pay_wfD(7,8) [OF wf confirm(1)]
      have "snd (confirm booking (pm_booking_id q) w) \<in> {Inr (), Inl (Domain BookingRejectedError)}"
        using good by (simp add: neighbours_answer_def)
      with small confirm failed d show False
        by (auto simp: deliver_def confirm_booking_def uuid_field_payloads split: prod.splits sum.splits if_splits)
    next
      case (refund q)
      note t = the_refund [OF ok refund(1) c(1) refund(2,3)]
      have led: "ledger q (commands_about CONFIRM_BOOKING (pm_id q) (commands s)) [c]"
        using ok refund(1) unfolding ledger_ok_def t(1) [symmetric] by blast
      then have "pm_status q = PaySucceeded" by (simp add: ledger_def)
      with ch refund(1) obtain chg where chg: "pm_provider_charge_id q = Some chg"
        by (auto simp: charged_def)
      have got: "get_by pm_id (pm_id q) (payments s) = Some q"
        by (rule get_by_eq_Some [OF pay_wfD(1) [OF wf] refund(1)])
      obtain v rf where "create_refund paystub (pm_id q) chg (pm_amount_minor q) w = (v, Inr rf)" "length (rf_id rf) \<le> 64"
        using good unfolding neighbours_answer_def by (metis prod.collapse)
      with chg got t(3) c(2) refund failed d pay_wfD(7) [OF wf refund(1)] show False
        by (simp add: deliver_def refund_payment_def uuid_field_payloads)
    qed
    then show ?thesis ..
  qed
qed

lemma batch_answers:
  assumes "pay_inv s" "charged s" "neighbours_answer booking paystub" "distinct (map cm_id cs)"
    and "set cs \<subseteq> set (undelivered s)" "pay_next_uuid s + length cs \<le> 2 ^ 128"
  shows "\<exists>s' w' new. delivered (deliver booking paystub now) (pay_mark now) cs s w = Some (s', w')
    \<and> pay_inv s' \<and> charged s' \<and> pay_next_uuid s' = pay_next_uuid s + length new
    \<and> undelivered s' = filter (\<lambda>x. cm_id x \<notin> cm_id ` set cs) (undelivered s) @ new
    \<and> (\<forall>x \<in> set new. cm_topic x = REFUND_PAYMENT)
    \<and> length new \<le> length (filter (\<lambda>c. cm_topic c \<noteq> REFUND_PAYMENT) cs)"
  using assms
proof (induction cs arbitrary: s w)
  case Nil
  then show ?case by (intro exI [of _ s] exI [of _ w] exI [of _ "[]"]) simp
next
  case (Cons c cs)
  have ok: "pay_wf s" "ledger_ok s" using Cons.prems by (auto simp: pay_inv_def)
  have c: "c \<in> set (commands s)" "cm_published_at c = None"
    using Cons.prems(5) by (auto simp: undelivered_def)
  from deliver_answers [OF ok c Cons.prems(3,2)] obtain t v new where
    d: "deliver booking paystub now c s w = (t, v, Inr ())" and t: "charged t"
    "commands t = commands s @ new" "pay_next_uuid t = pay_next_uuid s + length new"
    and new: "\<forall>x \<in> set new. cm_topic x = REFUND_PAYMENT \<and> cm_published_at x = None"
    "length new \<le> (if cm_topic c = REFUND_PAYMENT then 0 else 1)" by blast
  have room: "pay_next_uuid t \<le> 2 ^ 128" "pay_next_uuid s \<le> 2 ^ 128"
    using t(3) new(2) Cons.prems(6) by (auto split: if_splits)
  note inv = deliver_mark_inv [OF Cons.prems(1) c d room, THEN conjunct1]
  have "pay_wf (pay_mark now c t)" using inv room by (simp add: pay_inv_def)
  from pay_wfD(4) [OF this] have dist: "distinct (map cm_id (commands s @ new))"
    by (simp only: pay_mark_def update_command_simps t(2)) (simp add: map_update_where)
  have fresh: "cm_id x \<noteq> cm_id c" if "x \<in> set new" for x
  proof -
    from dist that c(1) show ?thesis by (auto simp: rev_image_eqI)
  qed
  have und: "undelivered (pay_mark now c t) = filter (\<lambda>x. cm_id x \<noteq> cm_id c) (undelivered s) @ new"
    using fresh new(1) by (simp add: undelivered_mark) (simp add: undelivered_def t(2) filter_id_conv)
  have notin: "cm_id c \<notin> cm_id ` set cs" using Cons.prems(4) by simp
  have sub: "set cs \<subseteq> set (undelivered (pay_mark now c t))"
  proof
    fix x assume "x \<in> set cs"
    with Cons.prems(5) notin show "x \<in> set (undelivered (pay_mark now c t))"
      unfolding und by (auto simp: image_iff)
  qed
  have le: "length new \<le> 1" using new(2) by (simp split: if_splits)
  have "charged (pay_mark now c t)" using t(1) by (simp add: charged_def)
  from Cons.IH [OF inv this Cons.prems(3) _ sub, of v] Cons.prems(4,6) t(3) le obtain s' w' new' where
    IH: "delivered (deliver booking paystub now) (pay_mark now) cs (pay_mark now c t) v = Some (s', w')"
    "pay_inv s'" "charged s'" "pay_next_uuid s' = pay_next_uuid t + length new'"
    "undelivered s' = filter (\<lambda>x. cm_id x \<notin> cm_id ` set cs) (undelivered (pay_mark now c t)) @ new'"
    "\<forall>x \<in> set new'. cm_topic x = REFUND_PAYMENT"
    "length new' \<le> length (filter (\<lambda>c. cm_topic c \<noteq> REFUND_PAYMENT) cs)" by auto
  have new_cs: "cm_id x \<notin> cm_id ` set cs" if "x \<in> set new" for x
  proof -
    note dist
    moreover have "set cs \<subseteq> set (commands s)" using Cons.prems(5) by (auto simp: undelivered_def)
    ultimately show ?thesis using that by (fastforce simp: rev_image_eqI)
  qed
  have "undelivered s' = filter (\<lambda>x. cm_id x \<notin> cm_id ` set (c # cs)) (undelivered s) @ (new @ new')"
  proof -
    have "filter (\<lambda>x. cm_id x \<notin> cm_id ` set cs) new = new"
      using new_cs by (simp add: filter_id_conv)
    then show ?thesis unfolding IH(5) und by (auto intro: filter_cong)
  qed
  moreover have "length (new @ new') \<le> length (filter (\<lambda>c. cm_topic c \<noteq> REFUND_PAYMENT) (c # cs))"
    using IH(7) new(2) by (auto split: if_splits)
  ultimately show ?case
    using d IH t(3) new(1) by (intro exI [of _ s'] exI [of _ w'] exI [of _ "new @ new'"]) auto
qed

lemma turn_answers:
  assumes "pay_inv s" "charged s" "neighbours_answer booking paystub"
    and "length (undelivered s) \<le> n" "pay_next_uuid s + n \<le> 2 ^ 128"
    and run: "process_pending booking paystub describe (\<lambda>_. False) now n s w = (s', w', k)"
  shows "pay_inv s' \<and> charged s' \<and> k = int (length (undelivered s))
    \<and> (\<forall>x \<in> set (undelivered s'). cm_topic x = REFUND_PAYMENT)
    \<and> length (undelivered s') \<le> length (filter (\<lambda>c. cm_topic c \<noteq> REFUND_PAYMENT) (undelivered s))
    \<and> pay_next_uuid s' \<le> pay_next_uuid s + n"
proof -
  let ?cs = "sort_key cm_id (undelivered s)"
  have ok: "pay_wf s" using assms(1,5) by (simp add: pay_inv_def)
  have batch: "pending_commands (\<lambda>_. False) n (commands s) = ?cs"
    using assms(4) by (simp add: pending_commands_def undelivered_def)
  have dist: "distinct (map cm_id ?cs)"
    using pay_wfD(4) [OF ok] by (simp add: map_sort_key undelivered_def distinct_map_filter)
  obtain t v new where t: "delivered (deliver booking paystub now) (pay_mark now) ?cs s w = Some (t, v)"
    "pay_inv t" "charged t" "pay_next_uuid t = pay_next_uuid s + length new"
    "undelivered t = filter (\<lambda>x. cm_id x \<notin> cm_id ` set ?cs) (undelivered s) @ new"
    "\<forall>x \<in> set new. cm_topic x = REFUND_PAYMENT"
    "length new \<le> length (filter (\<lambda>c. cm_topic c \<noteq> REFUND_PAYMENT) ?cs)"
    using batch_answers [OF assms(1-3) dist, of now w] assms(4,5) by auto
  have run': "s' = t" "k = int (length (undelivered s))"
    using run pay_relay.loop_all [OF t(1)] by (auto simp: process_pending_def batch)
  have new: "undelivered t = new" using t(5) by (simp add: filter_empty_conv)
  have len: "length (filter P ?cs) = length (filter P (undelivered s))" for P
    by (simp add: filter_sort)
  have "length new \<le> n"
    using t(7) assms(4) len by (metis (no_types, lifting) le_trans length_filter_le)
  with t new run' len show ?thesis by simp
qed

text \<open>
  C23. When the neighbours answer, two turns of the relay settle everything: starting from at most a
  batch of undelivered commands in which every succeeded payment has its charge, afterwards no
  command is undelivered and no payment waits for a refund. The first turn delivers every command
  that was there; the second the refunds it produced.
\<close>

theorem relay_settles:
  assumes "pay_inv s" and "charged s" and "neighbours_answer booking paystub"
    and "length (undelivered s) \<le> PAY_BATCH_SIZE" and "pay_next_uuid s + 200 \<le> 2 ^ 128"
    and "process_pending booking paystub describe (\<lambda>_. False) now PAY_BATCH_SIZE s w = (s1, w1, k1)"
    and "process_pending booking paystub describe (\<lambda>_. False) later PAY_BATCH_SIZE s1 w1 = (s2, w2, k2)"
  shows "undelivered s2 = [] \<and> k1 = int (length (undelivered s))
    \<and> (\<forall>p \<in> set (payments s2). \<not> pm_needs_refund p)"
proof -
  have b: "PAY_BATCH_SIZE = 100" by (simp add: PAY_BATCH_SIZE_def)
  have one: "pay_inv s1" "charged s1" "k1 = int (length (undelivered s))"
    "\<forall>x \<in> set (undelivered s1). cm_topic x = REFUND_PAYMENT"
    "length (undelivered s1) \<le> PAY_BATCH_SIZE" "pay_next_uuid s1 + PAY_BATCH_SIZE \<le> 2 ^ 128"
    using turn_answers [OF assms(1-4) _ assms(6)] assms(4,5) b
    by (auto intro: le_trans [OF _ le_trans [OF length_filter_le]])
  from turn_answers [OF one(1,2) assms(3) one(5,6) assms(7)] one(4)
  have two: "pay_inv s2" "undelivered s2 = []" "pay_next_uuid s2 \<le> 2 ^ 128"
    using one(6) by (auto simp: filter_empty_conv)
  have "\<not> pm_needs_refund p" if p: "p \<in> set (payments s2)" for p
  proof -
    have "ledger p (commands_about CONFIRM_BOOKING (pm_id p) (commands s2))
        (commands_about REFUND_PAYMENT (pm_id p) (commands s2))"
      using two p by (simp add: pay_inv_def ledger_ok_def)
    moreover have "cm_published_at r \<noteq> None" if "r \<in> set (commands_about REFUND_PAYMENT (pm_id p) (commands s2))" for r
      using two(2) that by (auto simp: undelivered_def commands_about_def filter_empty_conv)
    ultimately show ?thesis
      by (cases "commands_about REFUND_PAYMENT (pm_id p) (commands s2)";
          cases "tl (commands_about REFUND_PAYMENT (pm_id p) (commands s2))") (auto simp: ledger_def)
  qed
  with two one(3) show ?thesis by blast
qed

theorem relay_settles_witness:
  "\<exists>s1 s2. fst (process_pending refusing_booking example_paystub (\<lambda>_. ''boom'') (\<lambda>_. False) 9 PAY_BATCH_SIZE
       (fst (handle_webhook example_pay_db ''e1'' ''charge.succeeded'' (uuid_str 0) 7)) ()) = s1
     \<and> fst (process_pending refusing_booking example_paystub (\<lambda>_. ''boom'') (\<lambda>_. False) 10 PAY_BATCH_SIZE s1 ()) = s2
     \<and> undelivered s2 = []"
proof -
  let ?s = "fst (handle_webhook example_pay_db ''e1'' ''charge.succeeded'' (uuid_str 0) 7)"
  have s: "?s = \<lparr>payments = [example_payment\<lparr>pm_status := PaySucceeded, pm_updated_at := 7\<rparr>],
      provider_events = [\<lparr>pe_event_id = ''e1'', pe_event_type = ''charge.succeeded'', pe_received_at = 7\<rparr>],
      commands = [example_command 1 CONFIRM_BOOKING (confirm_payload example_payment)], pay_next_uuid = 2\<rparr>"
    by (simp add: handle_webhook_def target_status_def EVENT_TARGET_STATUS_def record_event_def
        find_payment_def uuid_roundtrip example_pay_db_def example_payment_def can_transition_def
        update_payment_def add_command_def update_where_def confirm_payload_def example_command_def Let_def)
  have inv: "pay_inv ?s"
    using handle_webhook_inv [of example_pay_db] pay_system.reachable_inv [OF example_pay_reachable] by simp
  have "charged ?s" "length (undelivered ?s) \<le> PAY_BATCH_SIZE" "pay_next_uuid ?s + 200 \<le> 2 ^ 128"
    by (simp_all add: s charged_def undelivered_def PAY_BATCH_SIZE_def example_payment_def)
  moreover have "neighbours_answer refusing_booking example_paystub"
    by (simp add: neighbours_answer_def confirm_def refusing_booking_def create_refund_def paystub_post_def
        example_paystub_def text_field_def)
  moreover obtain s1 u1 k1 where r1: "process_pending refusing_booking example_paystub (\<lambda>_. ''boom'')
      (\<lambda>_. False) 9 PAY_BATCH_SIZE ?s () = (s1, u1, k1)" by (metis prod_cases3)
  moreover obtain s2 u2 k2 where r2: "process_pending refusing_booking example_paystub (\<lambda>_. ''boom'')
      (\<lambda>_. False) 10 PAY_BATCH_SIZE s1 u1 = (s2, u2, k2)" by (metis prod_cases3)
  ultimately have "undelivered s2 = []"
    using relay_settles [OF inv _ _ _ _ r1 r2] by blast
  with r1 r2 show ?thesis by simp
qed

end
