(* ===== verification/System_Confirm.thy ===== *)
theory System_Confirm
  imports Booking_Api Payments_Settlement
begin

text \<open>
  Two services together: the relay of payments delivers its confirmation to the booking service itself.
  The transport is booking's route for the internal confirmation around \<open>post_confirm\<close>; how the
  framework writes a body (\<open>render\<close>) is a parameter, since payments does not read it.
\<close>

section \<open>Booking behind its route\<close>

definition confirm_route :: "http_request \<Rightarrow> uuid option" where
  "confirm_route request =
     (if rq_method request \<noteq> ''POST'' then None
      else case split_on (CHR ''/'') (rq_path request) of
        [root, area, kind, bid, verb] \<Rightarrow>
          if root = [] \<and> area = ''internal'' \<and> kind = ''bookings'' \<and> verb = ''confirm''
          then uuid_of_string bid else None
      | _ \<Rightarrow> None)"

definition http_reply_of :: "(api_body \<Rightarrow> json) \<Rightarrow> api_reply \<Rightarrow> http_reply" where
  "http_reply_of render a = (case a of Answer code body \<Rightarrow> Reply code (Some (render body)) | Crash e \<Rightarrow> Reply 500 None)"

definition booking_server :: "(api_body \<Rightarrow> json) \<Rightarrow> moment \<Rightarrow> booking_db transport" where
  "booking_server render now request s =
     (case confirm_route request of
        None \<Rightarrow> (s, Reply 404 None)
      | Some bid \<Rightarrow> (let (s', a) = post_confirm s bid now in (s', http_reply_of render a)))"

lemma slash_free_uuid: "CHR ''/'' \<notin> set (uuid_str u)"
  using uuid_str_chars [of u] by auto

lemma confirm_route_request:
  "u < 2 ^ 128 \<Longrightarrow> confirm_route (confirm_request u) = Some u"
proof -
  assume u: "u < 2 ^ 128"
  have "split_on (CHR ''/'') (uuid_str u @ CHR ''/'' # ''confirm'') = uuid_str u # split_on (CHR ''/'') ''confirm''"
    by (rule split_on_append [OF slash_free_uuid])
  then have "split_on (CHR ''/'') (''/internal/bookings/'' @ uuid_str u @ ''/confirm'')
      = [[], ''internal'', ''bookings'', uuid_str u, ''confirm'']"
    by simp
  then show ?thesis using uuid_roundtrip [OF u] by (simp add: confirm_route_def confirm_request_def del: split_on.simps)
qed

lemma booking_server_confirm:
  "u < 2 ^ 128 \<Longrightarrow> booking_server render now (confirm_request u) s =
    (let (s', r) = change_status s u Confirmed now in (s', http_reply_of render (reply_with 200 BookingOut r)))"
  by (simp add: booking_server_def confirm_route_request post_confirm_def Let_def case_prod_beta)

section \<open>One delivery\<close>

lemma server_outcome:
  assumes "wf_db b" "u < 2 ^ 128"
  shows "booking_server render now (confirm_request u) b =
    (case get_by bk_id u (bookings b) of
       None \<Rightarrow> (b, Reply 404 (Some (render (ErrorOut ''booking_not_found''))))
     | Some k \<Rightarrow>
         if bk_status k \<in> {Pending, Confirmed}
         then (fst (change_status b u Confirmed now),
               Reply 200 (Some (render (BookingOut (if bk_status k = Pending then set_status Confirmed now k else k)))))
         else (b, Reply 409 (Some (render (ErrorOut ''invalid_transition'')))))"
proof (cases "get_by bk_id u (bookings b)")
  case None
  then show ?thesis
    using assms by (simp add: booking_server_confirm change_status_cases http_reply_of_def error_status_table)
next
  case (Some k)
  then show ?thesis
    using assms
    by (cases "bk_status k") (simp_all add: booking_server_confirm change_status_cases http_reply_of_def error_status_table)
qed

lemma server_confirmed:
  "u < 2 ^ 128 \<Longrightarrow> get_by bk_id u (bookings b) = Some k \<Longrightarrow> bk_status k = Confirmed \<Longrightarrow>
    booking_server render now (confirm_request u) b = (b, Reply 200 (Some (render (BookingOut k))))"
  by (simp add: booking_server_confirm change_status_def get_booking_def http_reply_of_def)

text \<open>What the relay does with a confirmation, in terms of booking's answer.\<close>

lemma deliver_confirmation:
  assumes "cm_topic c = CONFIRM_BOOKING" "cm_payload c = confirm_payload p"
    and "pm_booking_id p < 2 ^ 128" "pm_id p < 2 ^ 128"
  shows "deliver (booking_server render t) paystub t c st bk =
    (case booking_server render t (confirm_request (pm_booking_id p)) bk of (bk', reply) \<Rightarrow>
      (case reply of
         HTTPError \<Rightarrow> (st, bk', Inl (Domain BookingUnavailableError))
       | Reply code _ \<Rightarrow>
           if code = 409 then (add_command REFUND_PAYMENT (refund_payload p)
              (update_payment (pm_id p) (\<lambda>q. q\<lparr>pm_needs_refund := True, pm_updated_at := t\<rparr>) st), bk', Inr ())
           else if code \<noteq> 200 then (st, bk', Inl (Domain BookingUnavailableError))
           else (st, bk', Inr ())))"
  using assms
  by (auto simp: deliver_def confirm_booking_def confirm_eq uuid_field_payloads refund_payload_def
      split: prod.splits http_reply.splits)

text \<open>What a confirmation changes in the tables of booking.\<close>

lemma confirm_pending:
  assumes "wf_db b" "get_by bk_id u (bookings b) = Some k" "bk_status k = Pending" "change_status b u Confirmed now = (b', r)"
  shows "slots b' = slots b \<and> bookings b' = map (\<lambda>x. if bk_id x = u then set_status Confirmed now x else x) (bookings b)
    \<and> map ob_topic (outbox b') = map ob_topic (outbox b) @ [''booking.confirmed'']
    \<and> (\<exists>k'. get_by bk_id u (bookings b') = Some k' \<and> bk_status k' = Confirmed)"
proof -
  have k: "k \<in> set (bookings b)" "bk_id k = u" using get_by_SomeD [OF assms(2)] by auto
  have b': "b' = apply_change b (row_is k) Confirmed EventConfirmed (the (get_by sl_id (bk_slot_id k) (slots b))) now"
    using assms by (simp add: change_status_cases event_type_def)
  have one: "filter (row_is k) (bookings b) = [k]" 
    by (rule filter_row_is [OF wf_dbD(2) [OF assms(1)] k(1)]) (simp add: row_is_def)
  have rows: "bookings b' = map (\<lambda>x. if bk_id x = u then set_status Confirmed now x else x) (bookings b)"
    using update_row_is [OF assms(1) k(1)] k(2) by (simp add: b')
  have "get_by bk_id u (bookings b') = Some (set_status Confirmed now k)"
    using get_by_update_where [of bk_id "set_status Confirmed now" u "row_is k" "bookings b"] assms(2)
    by (simp add: b' row_is_def)
  then show ?thesis using one rows by (simp add: b' event_message_def)
qed

section \<open>Properties\<close>

text \<open>
  C14. A payment that succeeded ends in a confirmed booking or in a refund: delivering its confirmation to
  the booking service leaves a pending booking confirmed, announced once and nothing else touched; a
  confirmed one as it is; for a booking that was cancelled or has expired it changes nothing in booking and
  marks the payment for a refund with the command to make it. Delivering the same command again, as the relay may,
  changes nothing more in booking and ends the same way. A booking that does not exist fails the delivery
  every time, and the relay keeps the command.
\<close>

theorem paid_booking_confirmed_or_refunded:
  assumes "wf_db b" "pay_wf s" "p \<in> set (payments s)"
    and "cm_topic c = CONFIRM_BOOKING" "cm_payload c = confirm_payload p"
    and "deliver (booking_server render now) paystub now c s b = (s', b', r)"
  shows "(case get_by bk_id (pm_booking_id p) (bookings b) of
      None \<Rightarrow> s' = s \<and> b' = b \<and> r = Inl (Domain BookingUnavailableError)
    | Some k \<Rightarrow> r = Inr () \<and>
        (if bk_status k = Pending then
           s' = s \<and> slots b' = slots b
           \<and> bookings b' = map (\<lambda>x. if bk_id x = pm_booking_id p then set_status Confirmed now x else x) (bookings b)
           \<and> map ob_topic (outbox b') = map ob_topic (outbox b) @ [''booking.confirmed'']
         else if bk_status k = Confirmed then s' = s \<and> b' = b
         else b' = b
           \<and> payments s' = map (\<lambda>q. if pm_id q = pm_id p then q\<lparr>pm_needs_refund := True, pm_updated_at := now\<rparr> else q) (payments s)
           \<and> map cm_payload (commands s') = map cm_payload (commands s) @ [refund_payload p]))
    \<and> (\<exists>s2. deliver (booking_server render later) paystub later c s' b' = (s2, b', r))"
proof -
  let ?u = "pm_booking_id p"
  have u: "?u < 2 ^ 128" "pm_id p < 2 ^ 128" using pay_wfD(7,8) [OF assms(2,3)] by auto
  note run = deliver_confirmation [OF assms(4,5) u, of render _ paystub]
  show ?thesis
  proof (cases "get_by bk_id ?u (bookings b)")
    case None
    with server_outcome [OF assms(1) u(1)] run assms(6) show ?thesis by auto
  next
    case (Some k)
    note server = server_outcome [OF assms(1) u(1), of render]
    consider (pending) "bk_status k = Pending" | (confirmed) "bk_status k = Confirmed"
      | (over) "bk_status k \<noteq> Pending" "bk_status k \<noteq> Confirmed" by blast
    then show ?thesis
    proof cases
      case pending
      obtain b1 r1 where ch: "change_status b ?u Confirmed now = (b1, r1)" by fastforce
      with pending Some server run assms(6) have s': "s' = s" "b' = b1" "r = Inr ()" by auto
      note changed = confirm_pending [OF assms(1) Some pending ch]
      then obtain k' where "get_by bk_id ?u (bookings b1) = Some k'" "bk_status k' = Confirmed" by blast
      from server_confirmed [OF u(1) this] run s' have "deliver (booking_server render later) paystub later c s' b' = (s, b1, r)"
        by simp
      with changed s' Some pending show ?thesis by auto
    next
      case confirmed
      with Some server_confirmed [OF u(1) Some] run assms(6) show ?thesis by auto
    next
      case over
      with Some server run assms(6) show ?thesis
        by (auto simp: update_payment_def update_where_def)
    qed
  qed
qed

theorem paid_booking_confirmed_or_refunded_witness:
  "\<exists>s' b' r. deliver (booking_server (\<lambda>a. JNull) 20) (\<lambda>rq w. (w, HTTPError)) 20
      \<lparr>cm_id = 1, cm_topic = CONFIRM_BOOKING, cm_payload = confirm_payload (example_payment\<lparr>pm_booking_id := 1\<rparr>),
       cm_published_at = None, cm_attempts = 0, cm_last_error = None\<rparr>
      \<lparr>payments = [example_payment\<lparr>pm_booking_id := 1\<rparr>], provider_events = [], commands = [], pay_next_uuid = 1\<rparr> example_db
      = (s', b', r)
    \<and> r = Inr () \<and> map ob_topic (outbox b') = [''booking.confirmed'']"
proof -
  let ?p = "example_payment\<lparr>pm_booking_id := 1\<rparr>"
  let ?s = "\<lparr>payments = [?p], provider_events = [], commands = [], pay_next_uuid = 1\<rparr>"
  let ?c = "\<lparr>cm_id = 1, cm_topic = CONFIRM_BOOKING, cm_payload = confirm_payload ?p,
       cm_published_at = None, cm_attempts = 0, cm_last_error = None\<rparr>"
  have wf: "pay_wf ?s" by (simp add: pay_wf_def pay_violated_constraint_def example_payment_def)
  obtain s' b' r where d: "deliver (booking_server (\<lambda>a. JNull) 20) (\<lambda>rq w. (w, HTTPError)) 20 ?c ?s example_db = (s', b', r)"
    by (metis prod_cases3)
  have "get_by bk_id (pm_booking_id ?p) (bookings example_db) = Some example_booking" "bk_status example_booking = Pending"
    "outbox example_db = []"
    by (simp_all add: example_defs)
  with paid_booking_confirmed_or_refunded [OF example_wf wf _ _ _ d, of ?p] have "r = Inr () \<and> map ob_topic (outbox b') = [''booking.confirmed'']"
    by simp
  with d show ?thesis by (intro exI [of _ s'] exI [of _ b'] exI [of _ r]) (rule conjI)
qed

end
