(* ===== verification/Notifier_Domain.thy ===== *)
theory Notifier_Domain
  imports Pyiso Pyjson
begin

text \<open>
  \<open>services/notifier/src/notifier/domain.py\<close>: what the notifier does with an event, without
  database, broker or HTTP.

  What the standard library answers beyond the model is an argument, the record \<open>python_env\<close>: the
  texts of its exceptions, ISO 8601 formats other than the one \<open>isoformat\<close> prints, code points
  above 255 and the \<open>repr\<close> of floats.
\<close>

record python_env =
  wide_char :: "nat \<Rightarrow> string"
  float_repr :: "string \<Rightarrow> string"
  other_iso :: "string \<Rightarrow> datetime option"
  iso_error :: "string \<Rightarrow> string"
  json_error :: "string \<Rightarrow> string"
  http_error :: string
  error_text :: "py_error \<Rightarrow> string"

definition REQUIRED_FIELDS :: "string list" where
  "REQUIRED_FIELDS = [''event_id'', ''type'', ''booking_id'', ''client_id'', ''starts_at'']"

definition WHEN_FORMAT :: string where
  "WHEN_FORMAT = ''%Y-%m-%d %H:%M''"

definition MESSAGES :: "string \<rightharpoonup> string" where
  "MESSAGES = map_of
     [(''booking.confirmed'', ''Your booking on {when} is confirmed.''),
      (''booking.cancelled'', ''Your booking on {when} is cancelled.''),
      (''booking.expired'', ''Your booking on {when} expired, the slot is free again.'')]"

datatype notification_status = Sending | Sent | Dead

fun notification_status_value :: "notification_status \<Rightarrow> string" where
  "notification_status_value Sending = ''sending''"
| "notification_status_value Sent = ''sent''"
| "notification_status_value Dead = ''dead''"

text \<open>The errors carry their text, which ends up in the database and in the dead-letter stream.\<close>

datatype notify_error = InvalidEventError string | GatewayUnavailableError string

fun notify_error_code :: "notify_error \<Rightarrow> string" where
  "notify_error_code (InvalidEventError t) = ''invalid_event''"
| "notify_error_code (GatewayUnavailableError t) = ''gateway_unavailable''"

text \<open>\<open>str(error)\<close>.\<close>

fun notify_error_text :: "python_env \<Rightarrow> notify_error exn \<Rightarrow> string" where
  "notify_error_text env (Domain (InvalidEventError t)) = t"
| "notify_error_text env (Domain (GatewayUnavailableError t)) = t"
| "notify_error_text env (IntegrityError t) = t"
| "notify_error_text env (Python e) = error_text env e"

record event =
  ev_event_id :: string
  ev_type :: string
  ev_booking_id :: string
  ev_client_id :: string
  ev_starts_at :: datetime

text \<open>
  \<open>parse_event\<close>: the message is a JSON value; one that is not an object has no \<open>get\<close>.
\<close>

definition missing_fields :: "(string \<times> json) list \<Rightarrow> string list" where
  "missing_fields kvs = filter (\<lambda>f. \<not> truthy (dict_get kvs f)) REQUIRED_FIELDS"

definition parse_event :: "python_env \<Rightarrow> json \<Rightarrow> notify_error exn + event" where
  "parse_event env data =
     (case data of
        JObj kvs \<Rightarrow>
          if missing_fields kvs \<noteq> []
          then Inl (Domain (InvalidEventError (''event is missing '' @ join '', '' (missing_fields kvs))))
          else
            (let when = py_str (dict_get kvs ''starts_at'') in
             case fromisoformat (other_iso env) when of
               None \<Rightarrow> Inl (Domain (InvalidEventError (''starts_at is not a date: '' @ iso_error env when)))
             | Some starts_at \<Rightarrow>
                 Inr \<lparr>ev_event_id = py_str (dict_get kvs ''event_id''),
                      ev_type = py_str (dict_get kvs ''type''),
                      ev_booking_id = py_str (dict_get kvs ''booking_id''),
                      ev_client_id = py_str (dict_get kvs ''client_id''),
                      ev_starts_at = starts_at\<rparr>)
      | _ \<Rightarrow> Inl (Python AttributeError))"

text \<open>
  \<open>strftime\<close> for the directives of the format, and \<open>str.format\<close> for one named field in a
  template without other braces. The year has the four digits of the years the services see.
\<close>

fun strftime :: "string \<Rightarrow> datetime \<Rightarrow> string" where
  "strftime (p # d # fmt) dt =
     (if p \<noteq> CHR ''%'' then p # strftime (d # fmt) dt
      else (if d = CHR ''Y'' then fixed_digits 10 4 (dt_year dt)
            else if d = CHR ''m'' then two (dt_month dt)
            else if d = CHR ''d'' then two (dt_day dt)
            else if d = CHR ''H'' then two (dt_hour dt)
            else if d = CHR ''M'' then two (dt_minute dt)
            else [p, d]) @ strftime fmt dt)"
| "strftime s dt = s"

function format_field :: "string \<Rightarrow> string \<Rightarrow> string \<Rightarrow> string" where
  "format_field field text [] = []"
| "format_field field text (c # cs) =
     (if startswith (c # cs) (''{'' @ field @ ''}'')
      then text @ format_field field text (drop (length field + 1) cs)
      else c # format_field field text cs)"
  by pat_completeness auto
termination
  by (relation "measure (\<lambda>(field, text, s). length s)") auto

definition render :: "event \<Rightarrow> string option" where
  "render e =
     (case MESSAGES (ev_type e) of
        None \<Rightarrow> None
      | Some template \<Rightarrow> Some (format_field ''when'' (strftime WHEN_FORMAT (ev_starts_at e)) template))"

section \<open>Facts\<close>

lemma strftime_when: "strftime WHEN_FORMAT dt = strftime_minutes dt"
  by (simp add: WHEN_FORMAT_def strftime_minutes_def)

lemma MESSAGES_cases:
  "MESSAGES t = Some m \<Longrightarrow>
     t = ''booking.confirmed'' \<and> m = ''Your booking on {when} is confirmed.'' \<or>
     t = ''booking.cancelled'' \<and> m = ''Your booking on {when} is cancelled.'' \<or>
     t = ''booking.expired'' \<and> m = ''Your booking on {when} expired, the slot is free again.''"
  by (auto simp: MESSAGES_def split: if_splits)

lemma render_texts:
  "ev_type e = ''booking.confirmed'' \<Longrightarrow>
     render e = Some (''Your booking on '' @ strftime_minutes (ev_starts_at e) @ '' is confirmed.'')"
  "ev_type e = ''booking.cancelled'' \<Longrightarrow>
     render e = Some (''Your booking on '' @ strftime_minutes (ev_starts_at e) @ '' is cancelled.'')"
  "ev_type e = ''booking.expired'' \<Longrightarrow>
     render e = Some (''Your booking on '' @ strftime_minutes (ev_starts_at e)
                        @ '' expired, the slot is free again.'')"
  by (simp_all add: render_def MESSAGES_def startswith_def strftime_when)

lemma strftime_minutes_length: "length (strftime_minutes dt) = 16"
  by (simp add: strftime_minutes_def two_def)

lemma render_length: "render e = Some t \<Longrightarrow> length t \<le> 76"
  using MESSAGES_cases [of "ev_type e"] render_texts [of e]
  by (auto simp: render_def strftime_minutes_length split: option.splits)

lemma parse_event_errors:
  "parse_event env data = Inl e \<Longrightarrow>
     (\<exists>t. e = Domain (InvalidEventError t)) \<or> e = Python AttributeError \<and> (\<forall>kvs. data \<noteq> JObj kvs)"
  by (auto simp: parse_event_def Let_def split: json.splits if_splits option.splits)

end
