(* ===== verification/Notifier_Gateway.thy ===== *)
theory Notifier_Gateway
  imports Notifier_Domain Http
begin

text \<open>
  \<open>services/notifier/src/notifier/gateway.py\<close>: the request to NotifyGate and how its answer is read.
  The gateway is a transport, a parameter.
\<close>

definition message_request :: "string \<Rightarrow> string \<Rightarrow> json" where
  "message_request recipient text = JObj [(''recipient'', JStr recipient), (''text'', JStr text)]"

definition send_request :: "string \<Rightarrow> string \<Rightarrow> string \<Rightarrow> http_request" where
  "send_request idempotency_key recipient text =
     \<lparr>rq_method = ''POST'', rq_path = ''/v1/messages'',
      rq_headers = [(''Idempotency-Key'', idempotency_key)],
      rq_json = Some (message_request recipient text)\<rparr>"

text \<open>What the gateway's contract counts as accepted.\<close>

definition accepted :: "http_reply \<Rightarrow> bool" where
  "accepted reply =
     (case reply of HTTPError \<Rightarrow> False | Reply status _ \<Rightarrow> status = 200 \<or> status = 201)"

definition send ::
  "python_env \<Rightarrow> 'w transport \<Rightarrow> string \<Rightarrow> string \<Rightarrow> string \<Rightarrow> 'w
   \<Rightarrow> 'w \<times> (notify_error exn + string)" where
  "send env http idempotency_key recipient text w =
     (let (w', reply) = http (send_request idempotency_key recipient text) w
      in (w', case reply of
           HTTPError \<Rightarrow>
             Inl (Domain (GatewayUnavailableError (''NotifyGate did not respond: '' @ http_error env)))
         | Reply status body \<Rightarrow>
             if status \<noteq> 200 \<and> status \<noteq> 201
             then Inl (Domain (GatewayUnavailableError (''NotifyGate answered '' @ show_int status)))
             else (case text_field body ''id'' of Inl e \<Rightarrow> Inl (Python e) | Inr i \<Rightarrow> Inr i)))"

lemma send_accepted:
  "send env http k r t w = (w', Inr i) \<Longrightarrow>
     \<exists>reply. http (send_request k r t) w = (w', reply) \<and> accepted reply"
  by (auto simp: send_def accepted_def Let_def split: prod.splits http_reply.splits if_splits sum.splits)

lemma send_world: "fst (send env http k r t w) = fst (http (send_request k r t) w)"
  by (simp add: send_def Let_def split: prod.split)

end
