(* ===== verification/Notifier_Consumer.thy ===== *)
theory Notifier_Consumer
  imports Notifier_Gateway
begin

text \<open>
  \<open>services/notifier/src/notifier/consumer.py\<close> with the table of \<open>models.py\<close> and the query of
  \<open>service.py\<close>. Redis is a parameter, the record \<open>redis\<close> of the commands the consumer uses; its
  world \<open>'w\<close> is also the gateway's, and the clock reads it. Every commit is explicit: an operation
  returns the committed rows. A command of the broker that raises ends the process; that is the
  crash of \<open>Notifier_System\<close>.
\<close>

definition DEFAULT_STREAM :: string where
  "DEFAULT_STREAM = ''slot.bookings.v1''"

definition DEFAULT_GROUP :: string where
  "DEFAULT_GROUP = ''notifier''"

definition DEAD_SUFFIX :: string where
  "DEAD_SUFFIX = ''.dead''"

definition NOTIFY_MAX_ERROR_LENGTH :: nat where
  "NOTIFY_MAX_ERROR_LENGTH = 200"

datatype outcome = OutSent | OutDuplicate | OutIgnored | OutDead | OutFailed

record notification =
  nt_event_id :: string
  nt_booking_id :: string
  nt_client_id :: string
  nt_event_type :: string
  nt_text :: string
  nt_status :: notification_status
  nt_attempts :: int
  nt_last_error :: "string option"
  nt_gateway_message_id :: "string option"
  nt_created_at :: moment
  nt_updated_at :: moment

record consumer_settings =
  cs_stream :: string
  cs_group :: string
  cs_consumer :: string
  cs_batch :: nat
  cs_block_ms :: int
  cs_idle_ms :: int
  cs_max_deliveries :: int

definition default_settings :: consumer_settings where
  "default_settings =
     \<lparr>cs_stream = DEFAULT_STREAM, cs_group = DEFAULT_GROUP, cs_consumer = ''notifier-1'',
      cs_batch = 10, cs_block_ms = 1000, cs_idle_ms = 30000, cs_max_deliveries = 5\<rparr>"

definition dead_stream :: "consumer_settings \<Rightarrow> string" where
  "dead_stream cfg = cs_stream cfg @ DEAD_SUFFIX"

type_synonym message_fields = "(string \<times> string) list"

definition field_get :: "message_fields \<Rightarrow> string \<Rightarrow> string" where
  "field_get msg key = (case map_of msg key of None \<Rightarrow> [] | Some v \<Rightarrow> v)"

record 'w redis =
  rd_group_create :: "string \<Rightarrow> string \<Rightarrow> 'w \<Rightarrow> 'w \<times> string option"
  rd_pending :: "string \<Rightarrow> string \<Rightarrow> nat \<Rightarrow> int \<Rightarrow> 'w \<Rightarrow> 'w \<times> (string \<times> int) list"
  rd_claim :: "string \<Rightarrow> string \<Rightarrow> string \<Rightarrow> int \<Rightarrow> string list \<Rightarrow> 'w \<Rightarrow> 'w \<times> (string \<times> message_fields) list"
  rd_read :: "string \<Rightarrow> string \<Rightarrow> string \<Rightarrow> nat \<Rightarrow> int option \<Rightarrow> 'w
      \<Rightarrow> 'w \<times> (string \<times> (string \<times> message_fields) list) list"
  rd_ack :: "string \<Rightarrow> string \<Rightarrow> string \<Rightarrow> 'w \<Rightarrow> 'w"
  rd_add :: "string \<Rightarrow> message_fields \<Rightarrow> 'w \<Rightarrow> 'w"

section \<open>The rows\<close>

definition update_notification ::
  "string \<Rightarrow> (notification \<Rightarrow> notification) \<Rightarrow> notification list \<Rightarrow> notification list" where
  "update_notification event_id f rows = update_where (\<lambda>n. nt_event_id n = event_id) f rows"

text \<open>
  \<open>_already_done\<close>: the INSERT that claims the event. The columns are VARCHARs: a value that does not
  fit is an error of the driver, before any conflict.
\<close>

definition fits_columns :: "event \<Rightarrow> string \<Rightarrow> bool" where
  "fits_columns e text \<longleftrightarrow>
     length (ev_event_id e) \<le> 64 \<and> length (ev_booking_id e) \<le> 64 \<and> length (ev_client_id e) \<le> 64
     \<and> length (ev_type e) \<le> 64 \<and> length text \<le> 512"

definition new_notification :: "moment \<Rightarrow> event \<Rightarrow> string \<Rightarrow> notification" where
  "new_notification now e text =
     \<lparr>nt_event_id = ev_event_id e, nt_booking_id = ev_booking_id e, nt_client_id = ev_client_id e,
      nt_event_type = ev_type e, nt_text = text, nt_status = Sending, nt_attempts = 0,
      nt_last_error = None, nt_gateway_message_id = None, nt_created_at = now, nt_updated_at = now\<rparr>"

definition already_done ::
  "moment \<Rightarrow> event \<Rightarrow> string \<Rightarrow> notification list \<Rightarrow> notification list \<times> (notify_error exn + bool)" where
  "already_done now e text rows =
     (if \<not> fits_columns e text then (rows, Inl (Python DataError))
      else case get_by nt_event_id (ev_event_id e) rows of
        None \<Rightarrow> (rows @ [new_notification now e text], Inr False)
      | Some existing \<Rightarrow> (rows, Inr (nt_status existing \<noteq> Sending)))"

definition record_send_failure ::
  "moment \<Rightarrow> string \<Rightarrow> string \<Rightarrow> notification list \<Rightarrow> notification list" where
  "record_send_failure now event_id error rows =
     update_notification event_id
       (\<lambda>n. n\<lparr>nt_attempts := nt_attempts n + 1,
              nt_last_error := Some (take NOTIFY_MAX_ERROR_LENGTH error), nt_updated_at := now\<rparr>) rows"

definition mark_sent ::
  "moment \<Rightarrow> string \<Rightarrow> string \<Rightarrow> notification list \<Rightarrow> notify_error exn + notification list" where
  "mark_sent now event_id gateway_message_id rows =
     (if length gateway_message_id > 64 then Inl (Python DataError)
      else Inr (update_notification event_id
        (\<lambda>n. n\<lparr>nt_status := Sent, nt_gateway_message_id := Some gateway_message_id, nt_updated_at := now\<rparr>)
        rows))"

definition mark_dead :: "moment \<Rightarrow> string \<Rightarrow> string \<Rightarrow> notification list \<Rightarrow> notification list" where
  "mark_dead now event_id reason rows =
     update_notification event_id
       (\<lambda>n. n\<lparr>nt_status := Dead, nt_last_error := Some (take NOTIFY_MAX_ERROR_LENGTH reason),
              nt_updated_at := now\<rparr>) rows"

text \<open>\<open>list_notifications\<close> of \<open>service.py\<close>.\<close>

definition list_notifications :: "notification list \<Rightarrow> string \<Rightarrow> notification list" where
  "list_notifications rows booking_id =
     sort_key nt_created_at (sort_key nt_event_id (filter (\<lambda>n. nt_booking_id n = booking_id) rows))"

section \<open>One message\<close>

type_synonym 'w handled = "notification list \<times> 'w \<times> (notify_error exn + outcome)"

definition ack :: "'w redis \<Rightarrow> consumer_settings \<Rightarrow> string \<Rightarrow> 'w \<Rightarrow> 'w" where
  "ack rd cfg message_id = rd_ack rd (cs_stream cfg) (cs_group cfg) message_id"

definition dead_entry :: "string \<Rightarrow> message_fields \<Rightarrow> string \<Rightarrow> message_fields" where
  "dead_entry message_id msg reason =
     [(''original_id'', message_id), (''reason'', take NOTIFY_MAX_ERROR_LENGTH reason),
      (''topic'', field_get msg ''topic''), (''data'', field_get msg ''data'')]"

definition bury_row ::
  "moment \<Rightarrow> string option \<Rightarrow> string \<Rightarrow> notification list \<Rightarrow> notification list" where
  "bury_row now event_id reason rows =
     (case event_id of None \<Rightarrow> rows | Some e \<Rightarrow> mark_dead now e reason rows)"

definition dead_letter ::
  "'w redis \<Rightarrow> ('w \<Rightarrow> moment) \<Rightarrow> consumer_settings \<Rightarrow> string \<Rightarrow> message_fields \<Rightarrow> string \<Rightarrow> string option
   \<Rightarrow> notification list \<Rightarrow> 'w \<Rightarrow> 'w handled" where
  "dead_letter rd clock cfg message_id msg reason event_id rows w =
     (let w1 = rd_add rd (dead_stream cfg) (dead_entry message_id msg reason) w
      in (bury_row (clock w1) event_id reason rows, ack rd cfg message_id w1, Inr OutDead))"

text \<open>
  Reading the message: \<open>parse_event(json.loads(fields.get("data", "")))\<close>. The handler catches
  \<open>ValueError\<close> and \<open>InvalidEventError\<close>; \<open>Inl (Some reason)\<close> is an unreadable message,
  \<open>Inl None\<close> an exception nobody catches.
\<close>

fun unreadable :: "notify_error exn \<Rightarrow> bool" where
  "unreadable (Domain (InvalidEventError t)) = True"
| "unreadable (Python ValueError) = True"
| "unreadable e = False"

definition read_message :: "python_env \<Rightarrow> message_fields \<Rightarrow> (notify_error exn \<times> string) + event" where
  "read_message env msg =
     (let data = field_get msg ''data'' in
      case json_loads (wide_char env) (float_repr env) data of
        None \<Rightarrow> Inl (Python ValueError, json_error env data)
      | Some v \<Rightarrow>
          (case parse_event env v of
             Inl e \<Rightarrow> Inl (e, notify_error_text env e)
           | Inr event \<Rightarrow> Inr event))"

definition handle ::
  "python_env \<Rightarrow> 'w redis \<Rightarrow> 'w transport \<Rightarrow> ('w \<Rightarrow> moment) \<Rightarrow> consumer_settings
   \<Rightarrow> string \<Rightarrow> message_fields \<Rightarrow> int \<Rightarrow> notification list \<Rightarrow> 'w \<Rightarrow> 'w handled" where
  "handle env rd gateway clock cfg message_id msg deliveries rows w =
     (case read_message env msg of
        Inl (e, reason) \<Rightarrow>
          if unreadable e then dead_letter rd clock cfg message_id msg reason None rows w
          else (rows, w, Inl e)
      | Inr event \<Rightarrow>
          if deliveries > cs_max_deliveries cfg
          then dead_letter rd clock cfg message_id msg
                 (''delivered '' @ show_int deliveries @ '' times'') (Some (ev_event_id event)) rows w
          else case render event of
            None \<Rightarrow> (rows, ack rd cfg message_id w, Inr OutIgnored)
          | Some text \<Rightarrow>
              (case already_done (clock w) event text rows of
                 (rows1, Inl e) \<Rightarrow> (rows1, w, Inl e)
               | (rows1, Inr True) \<Rightarrow> (rows1, ack rd cfg message_id w, Inr OutDuplicate)
               | (rows1, Inr False) \<Rightarrow>
                   (case send env gateway (ev_event_id event) (ev_client_id event) text w of
                      (w1, Inl e) \<Rightarrow>
                        (record_send_failure (clock w1) (ev_event_id event) (notify_error_text env e) rows1,
                         w1, Inr OutFailed)
                    | (w1, Inr delivery) \<Rightarrow>
                        (case mark_sent (clock w1) (ev_event_id event) delivery rows1 of
                           Inl e \<Rightarrow> (rows1, w1, Inl e)
                         | Inr rows2 \<Rightarrow> (rows2, ack rd cfg message_id w1, Inr OutSent)))))"

section \<open>The batch\<close>

definition ensure_group :: "'w redis \<Rightarrow> (string \<Rightarrow> bool) \<Rightarrow> consumer_settings \<Rightarrow> 'w \<Rightarrow> 'w \<times> (string + unit)" where
  "ensure_group rd is_busygroup cfg w =
     (case rd_group_create rd (cs_stream cfg) (cs_group cfg) w of
        (w', None) \<Rightarrow> (w', Inr ())
      | (w', Some error) \<Rightarrow> (w', if is_busygroup error then Inr () else Inl error))"

type_synonym due = "string \<times> message_fields \<times> int"

text \<open>\<open>_reclaimed\<close>: a message the claim returns was among the pending ones asked for, or \<open>KeyError\<close>.\<close>

definition reclaimed :: "'w redis \<Rightarrow> consumer_settings \<Rightarrow> 'w \<Rightarrow> 'w \<times> (notify_error exn + due list)" where
  "reclaimed rd cfg w =
     (let (w1, pending) = rd_pending rd (cs_stream cfg) (cs_group cfg) (cs_batch cfg) (cs_idle_ms cfg) w
      in if pending = [] then (w1, Inr [])
         else
           (let deliveries = dict_of pending;
                (w2, claimed) = rd_claim rd (cs_stream cfg) (cs_group cfg) (cs_consumer cfg)
                   (cs_idle_ms cfg) (map fst deliveries) w1
            in (w2, if \<exists>(i, f) \<in> set claimed. map_of deliveries i = None then Inl (Python KeyError)
                    else Inr (map (\<lambda>(i, f). (i, f, the (map_of deliveries i) + 1)) claimed))))"

definition fresh :: "'w redis \<Rightarrow> consumer_settings \<Rightarrow> 'w \<Rightarrow> 'w \<times> due list" where
  "fresh rd cfg w =
     (let (w1, response) = rd_read rd (cs_group cfg) (cs_consumer cfg) (cs_stream cfg) (cs_batch cfg)
            (if cs_block_ms cfg = 0 then None else Some (cs_block_ms cfg)) w
      in (w1, concat (map (\<lambda>(s, entries). map (\<lambda>(i, f). (i, f, 1)) entries) response)))"

text \<open>An exception of a handler leaves the loop; what was committed before stays.\<close>

fun handle_all ::
  "python_env \<Rightarrow> 'w redis \<Rightarrow> 'w transport \<Rightarrow> ('w \<Rightarrow> moment) \<Rightarrow> consumer_settings
   \<Rightarrow> due list \<Rightarrow> outcome list \<Rightarrow> notification list \<Rightarrow> 'w
   \<Rightarrow> notification list \<times> 'w \<times> (notify_error exn + outcome list)" where
  "handle_all env rd gateway clock cfg [] results rows w = (rows, w, Inr results)"
| "handle_all env rd gateway clock cfg ((i, f, d) # due) results rows w =
     (case handle env rd gateway clock cfg i f d rows w of
        (rows', w', Inl e) \<Rightarrow> (rows', w', Inl e)
      | (rows', w', Inr out) \<Rightarrow> handle_all env rd gateway clock cfg due (results @ [out]) rows' w')"

text \<open>\<open>run_once\<close>; the Counter it returns counts the elements of the list of outcomes.\<close>

definition run_once ::
  "python_env \<Rightarrow> 'w redis \<Rightarrow> 'w transport \<Rightarrow> ('w \<Rightarrow> moment) \<Rightarrow> consumer_settings
   \<Rightarrow> notification list \<Rightarrow> 'w \<Rightarrow> notification list \<times> 'w \<times> (notify_error exn + outcome list)" where
  "run_once env rd gateway clock cfg rows w =
     (case reclaimed rd cfg w of
        (w1, Inl e) \<Rightarrow> (rows, w1, Inl e)
      | (w1, Inr abandoned) \<Rightarrow>
          (let (w2, new) = fresh rd cfg w1
           in handle_all env rd gateway clock cfg (abandoned @ new) [] rows w2))"

end
