(* ===== verification/Notifier_System.thy ===== *)
theory Notifier_System
  imports Notifier_Consumer
begin

text \<open>
  Several consumers on one stream and one table, interleaved at every commit, broker command and
  gateway call, with crashes in between. \<open>advance\<close> cuts the handler of a message into those steps
  and \<open>advance_handles\<close> says that the steps of one message, uninterrupted, are \<open>handle\<close>.
  The broker may deliver any message of the stream at any time, any number of times, with any
  delivery counter; the gateway may answer anything.
\<close>

section \<open>The handler, step by step\<close>

datatype work =
  Received int
| Claim event string
| CallGateway event string
| RecordFailure event string
| MarkSent event string
| Bury "string option" string
| BuryRow "string option" string
| Ack outcome

definition advance ::
  "python_env \<Rightarrow> 'w redis \<Rightarrow> 'w transport \<Rightarrow> ('w \<Rightarrow> moment) \<Rightarrow> consumer_settings
   \<Rightarrow> string \<Rightarrow> message_fields \<Rightarrow> work \<Rightarrow> notification list \<Rightarrow> 'w
   \<Rightarrow> notification list \<times> 'w \<times> (notify_error exn + work + outcome)" where
  "advance env rd gateway clock cfg i msg k rows w =
     (case k of
        Received d \<Rightarrow>
          (rows, w, case read_message env msg of
             Inl (e, reason) \<Rightarrow> if unreadable e then Inr (Inl (Bury None reason)) else Inl e
           | Inr event \<Rightarrow>
               if d > cs_max_deliveries cfg
               then Inr (Inl (Bury (Some (ev_event_id event)) (''delivered '' @ show_int d @ '' times'')))
               else case render event of
                 None \<Rightarrow> Inr (Inl (Ack OutIgnored))
               | Some text \<Rightarrow> Inr (Inl (Claim event text)))
      | Claim event text \<Rightarrow>
          (case already_done (clock w) event text rows of
             (rows1, Inl e) \<Rightarrow> (rows1, w, Inl e)
           | (rows1, Inr done) \<Rightarrow>
               (rows1, w, Inr (Inl (if done then Ack OutDuplicate else CallGateway event text))))
      | CallGateway event text \<Rightarrow>
          (case send env gateway (ev_event_id event) (ev_client_id event) text w of
             (w1, Inl e) \<Rightarrow> (rows, w1, Inr (Inl (RecordFailure event (notify_error_text env e))))
           | (w1, Inr delivery) \<Rightarrow> (rows, w1, Inr (Inl (MarkSent event delivery))))
      | RecordFailure event error \<Rightarrow>
          (record_send_failure (clock w) (ev_event_id event) error rows, w, Inr (Inr OutFailed))
      | MarkSent event delivery \<Rightarrow>
          (case mark_sent (clock w) (ev_event_id event) delivery rows of
             Inl e \<Rightarrow> (rows, w, Inl e)
           | Inr rows1 \<Rightarrow> (rows1, w, Inr (Inl (Ack OutSent))))
      | Bury event_id reason \<Rightarrow>
          (rows, rd_add rd (dead_stream cfg) (dead_entry i msg reason) w, Inr (Inl (BuryRow event_id reason)))
      | BuryRow event_id reason \<Rightarrow> (bury_row (clock w) event_id reason rows, w, Inr (Inl (Ack OutDead)))
      | Ack out \<Rightarrow> (rows, ack rd cfg i w, Inr (Inr out)))"

fun run_work ::
  "nat \<Rightarrow> python_env \<Rightarrow> 'w redis \<Rightarrow> 'w transport \<Rightarrow> ('w \<Rightarrow> moment) \<Rightarrow> consumer_settings
   \<Rightarrow> string \<Rightarrow> message_fields \<Rightarrow> work \<Rightarrow> notification list \<Rightarrow> 'w \<Rightarrow> 'w handled option" where
  "run_work 0 env rd gateway clock cfg i msg k rows w = None"
| "run_work (Suc n) env rd gateway clock cfg i msg k rows w =
     (case advance env rd gateway clock cfg i msg k rows w of
        (rows1, w1, Inl e) \<Rightarrow> Some (rows1, w1, Inl e)
      | (rows1, w1, Inr (Inr out)) \<Rightarrow> Some (rows1, w1, Inr out)
      | (rows1, w1, Inr (Inl k1)) \<Rightarrow> run_work n env rd gateway clock cfg i msg k1 rows1 w1)"

lemma run_work_step:
  "run_work (Suc n) env rd gateway clock cfg i msg k rows w =
     (case advance env rd gateway clock cfg i msg k rows w of
        (rows1, w1, Inl e) \<Rightarrow> Some (rows1, w1, Inl e)
      | (rows1, w1, Inr (Inr out)) \<Rightarrow> Some (rows1, w1, Inr out)
      | (rows1, w1, Inr (Inl k1)) \<Rightarrow> run_work n env rd gateway clock cfg i msg k1 rows1 w1)"
  by simp

lemma advance_handles:
  "run_work 5 env rd gateway clock cfg i msg (Received d) rows w
   = Some (handle env rd gateway clock cfg i msg d rows w)"
proof -
  have five: "(5 :: nat) = Suc (Suc (Suc (Suc (Suc 0))))" by simp
  show ?thesis
    unfolding five handle_def dead_letter_def Let_def
    by (auto simp: advance_def split: sum.splits prod.splits option.splits bool.splits)
qed

section \<open>Worlds and steps\<close>

text \<open>
  The world of the broker and the gateway is a log: the acknowledged ids, the entries of the
  dead-letter stream and the requests the gateway accepted.
\<close>

record delivery_log =
  lg_acks :: "string list"
  lg_dead :: "message_fields list"
  lg_accepted :: "http_request list"

definition logging_redis :: "delivery_log redis" where
  "logging_redis =
     \<lparr>rd_group_create = (\<lambda>_ _ w. (w, None)), rd_pending = (\<lambda>_ _ _ _ w. (w, [])),
      rd_claim = (\<lambda>_ _ _ _ _ w. (w, [])), rd_read = (\<lambda>_ _ _ _ _ w. (w, [])),
      rd_ack = (\<lambda>_ _ i w. w\<lparr>lg_acks := i # lg_acks w\<rparr>),
      rd_add = (\<lambda>_ entry w. w\<lparr>lg_dead := entry # lg_dead w\<rparr>)\<rparr>"

definition logging_gateway :: "http_reply \<Rightarrow> delivery_log transport" where
  "logging_gateway reply rq w =
     (if accepted reply then w\<lparr>lg_accepted := rq # lg_accepted w\<rparr> else w, reply)"

record notify_world =
  nw_rows :: "notification list"
  nw_log :: delivery_log
  nw_busy :: "(string \<times> message_fields \<times> work) list"

definition notify_start :: "notify_world \<Rightarrow> bool" where
  "notify_start w \<longleftrightarrow>
     w = \<lparr>nw_rows = [], nw_log = \<lparr>lg_acks = [], lg_dead = [], lg_accepted = []\<rparr>, nw_busy = []\<rparr>"

fun next_work :: "string \<times> message_fields \<Rightarrow> notify_error exn + work + outcome \<Rightarrow> (string \<times> message_fields \<times> work) list" where
  "next_work (i, msg) (Inr (Inl k)) = [(i, msg, k)]"
| "next_work (i, msg) r = []"

lemma next_work_mem: "x \<in> set (next_work (i, msg) r) \<longleftrightarrow> (\<exists>k. r = Inr (Inl k) \<and> x = (i, msg, k))"
  by (cases "((i, msg), r)" rule: next_work.cases) auto

inductive notify_step ::
  "python_env \<Rightarrow> consumer_settings \<Rightarrow> (string \<times> message_fields) set \<Rightarrow> notify_world \<Rightarrow> notify_world \<Rightarrow> bool"
  for env :: python_env and cfg :: consumer_settings and stream :: "(string \<times> message_fields) set" where
  step_receive:
    "(i, msg) \<in> stream \<Longrightarrow>
     notify_step env cfg stream w (w\<lparr>nw_busy := (i, msg, Received d) # nw_busy w\<rparr>)"
| step_advance:
    "nw_busy w = pre @ (i, msg, k) # post \<Longrightarrow>
     advance env logging_redis (logging_gateway reply) (\<lambda>_. now) cfg i msg k (nw_rows w) (nw_log w)
       = (rows, log, r) \<Longrightarrow>
     notify_step env cfg stream w
       (w\<lparr>nw_rows := rows, nw_log := log, nw_busy := pre @ next_work (i, msg) r @ post\<rparr>)"
| step_crash:
    "nw_busy w = pre @ x # post \<Longrightarrow>
     notify_step env cfg stream w (w\<lparr>nw_busy := pre @ post\<rparr>)"

inductive_cases notify_stepE [consumes 1, case_names receive advance crash]: "notify_step env cfg stream w w'"

section \<open>The invariant\<close>

text \<open>The event a message carries, and the request the gateway gets about it.\<close>

definition carries :: "python_env \<Rightarrow> (string \<times> message_fields) set \<Rightarrow> string \<Rightarrow> event \<Rightarrow> bool" where
  "carries env stream i e \<longleftrightarrow> (\<exists>msg. (i, msg) \<in> stream \<and> read_message env msg = Inr e)"

definition event_request :: "event \<Rightarrow> string \<Rightarrow> http_request" where
  "event_request e text = send_request (ev_event_id e) (ev_client_id e) text"

definition buried :: "delivery_log \<Rightarrow> string \<Rightarrow> bool" where
  "buried log i \<longleftrightarrow> (\<exists>entry \<in> set (lg_dead log). map_of entry ''original_id'' = Some i)"

definition told :: "delivery_log \<Rightarrow> string \<Rightarrow> bool" where
  "told log event_id \<longleftrightarrow>
     (\<exists>rq \<in> set (lg_accepted log). map_of (rq_headers rq) ''Idempotency-Key'' = Some event_id)"

text \<open>What is true of an event whose row says it is dealt with.\<close>

definition concluded :: "python_env \<Rightarrow> (string \<times> message_fields) set \<Rightarrow> delivery_log \<Rightarrow> notification \<Rightarrow> bool" where
  "concluded env stream log n \<longleftrightarrow>
     (case nt_status n of
        Sending \<Rightarrow> True
      | Sent \<Rightarrow> told log (nt_event_id n)
      | Dead \<Rightarrow> \<exists>j e. carries env stream j e \<and> ev_event_id e = nt_event_id n \<and> buried log j)"

definition row_of :: "event \<Rightarrow> notification list \<Rightarrow> bool" where
  "row_of e rows \<longleftrightarrow> ev_event_id e \<in> nt_event_id ` set rows"

definition finished_row :: "event \<Rightarrow> notification list \<Rightarrow> bool" where
  "finished_row e rows \<longleftrightarrow> (\<exists>n \<in> set rows. nt_event_id n = ev_event_id e \<and> nt_status n \<noteq> Sending)"

text \<open>What may be acknowledged.\<close>

definition settled ::
  "python_env \<Rightarrow> (string \<times> message_fields) set \<Rightarrow> notification list \<Rightarrow> delivery_log \<Rightarrow> string \<Rightarrow> bool" where
  "settled env stream rows log i \<longleftrightarrow>
     buried log i
     \<or> (\<exists>e. carries env stream i e \<and> (render e = None \<or> finished_row e rows))"

definition work_ok ::
  "python_env \<Rightarrow> (string \<times> message_fields) set \<Rightarrow> notification list \<Rightarrow> delivery_log
   \<Rightarrow> string \<times> message_fields \<times> work \<Rightarrow> bool" where
  "work_ok env stream rows log x \<longleftrightarrow>
     (case x of (i, msg, k) \<Rightarrow>
        (i, msg) \<in> stream \<and>
        (case k of
           Received d \<Rightarrow> True
         | Claim e text \<Rightarrow> read_message env msg = Inr e \<and> render e = Some text
         | CallGateway e text \<Rightarrow> read_message env msg = Inr e \<and> render e = Some text \<and> row_of e rows
         | RecordFailure e error \<Rightarrow> read_message env msg = Inr e
         | MarkSent e delivery \<Rightarrow>
             read_message env msg = Inr e \<and> row_of e rows \<and> told log (ev_event_id e)
         | Bury eid reason \<Rightarrow> (\<forall>x. eid = Some x \<longrightarrow> (\<exists>e. read_message env msg = Inr e \<and> ev_event_id e = x))
         | BuryRow eid reason \<Rightarrow>
             buried log i \<and> (\<forall>x. eid = Some x \<longrightarrow> (\<exists>e. read_message env msg = Inr e \<and> ev_event_id e = x))
         | Ack out \<Rightarrow> settled env stream rows log i))"

text \<open>A row and a request are about an event of the stream, in the words \<open>render\<close> gives.\<close>

definition row_from :: "python_env \<Rightarrow> (string \<times> message_fields) set \<Rightarrow> notification \<Rightarrow> bool" where
  "row_from env stream n \<longleftrightarrow>
     (\<exists>i e. carries env stream i e \<and> nt_event_id n = ev_event_id e \<and> nt_booking_id n = ev_booking_id e
        \<and> nt_client_id n = ev_client_id e \<and> nt_event_type n = ev_type e \<and> Some (nt_text n) = render e)"

definition request_from :: "python_env \<Rightarrow> (string \<times> message_fields) set \<Rightarrow> http_request \<Rightarrow> bool" where
  "request_from env stream rq \<longleftrightarrow>
     (\<exists>i e text. carries env stream i e \<and> render e = Some text \<and> rq = event_request e text)"

definition store_inv ::
  "python_env \<Rightarrow> (string \<times> message_fields) set \<Rightarrow> notification list \<Rightarrow> delivery_log \<Rightarrow> bool" where
  "store_inv env stream rows log \<longleftrightarrow>
     distinct (map nt_event_id rows)
     \<and> (\<forall>n \<in> set rows. row_from env stream n \<and> concluded env stream log n)
     \<and> (\<forall>rq \<in> set (lg_accepted log). request_from env stream rq)
     \<and> (\<forall>i \<in> set (lg_acks log). settled env stream rows log i)"

definition notify_inv :: "python_env \<Rightarrow> (string \<times> message_fields) set \<Rightarrow> notify_world \<Rightarrow> bool" where
  "notify_inv env stream w \<longleftrightarrow>
     store_inv env stream (nw_rows w) (nw_log w)
     \<and> (\<forall>x \<in> set (nw_busy w). work_ok env stream (nw_rows w) (nw_log w) x)"

section \<open>Nothing is taken back\<close>

text \<open>What every step keeps of what happened before it.\<close>

definition grows ::
  "notification list \<Rightarrow> delivery_log \<Rightarrow> notification list \<Rightarrow> delivery_log \<Rightarrow> bool" where
  "grows rows log rows' log' \<longleftrightarrow>
     (\<forall>i. buried log i \<longrightarrow> buried log' i) \<and> (\<forall>x. told log x \<longrightarrow> told log' x)
     \<and> (\<forall>e. row_of e rows \<longrightarrow> row_of e rows') \<and> (\<forall>e. finished_row e rows \<longrightarrow> finished_row e rows')"

lemma grows_refl [simp]: "grows rows log rows log"
  by (simp add: grows_def)

lemma settled_grows: "grows rows log rows' log' \<Longrightarrow> settled env stream rows log i \<Longrightarrow> settled env stream rows' log' i"
  by (auto simp: grows_def settled_def)

lemma concluded_grows: "grows rows log rows' log' \<Longrightarrow> concluded env stream log n \<Longrightarrow> concluded env stream log' n"
  by (auto simp: grows_def concluded_def split: notification_status.splits)

lemma work_ok_grows: "grows rows log rows' log' \<Longrightarrow> work_ok env stream rows log x \<Longrightarrow> work_ok env stream rows' log' x"
  using settled_grows
  by (cases x) (auto simp: work_ok_def grows_def split: work.splits)

lemma grows_update:
  assumes "\<And>n. nt_event_id (f n) = nt_event_id n"
    and "\<And>n. nt_status n \<noteq> Sending \<Longrightarrow> nt_status (f n) \<noteq> Sending"
  shows "grows rows log (update_notification e f rows) log"
proof -
  have "nt_event_id ` set (update_notification e f rows) = nt_event_id ` set rows"
    using map_update_where [of nt_event_id f _ rows, OF assms(1)]
    by (metis list.set_map update_notification_def)
  moreover have "finished_row x (update_notification e f rows)" if "finished_row x rows" for x
  proof -
    from that obtain n where n: "n \<in> set rows" "nt_event_id n = ev_event_id x" "nt_status n \<noteq> Sending"
      unfolding finished_row_def by blast
    let ?g = "\<lambda>n. if nt_event_id n = e then f n else n"
    have "?g n \<in> set (update_notification e f rows)"
      using n(1) by (simp add: update_notification_def set_update_where)
    moreover have "nt_event_id (?g n) = ev_event_id x" "nt_status (?g n) \<noteq> Sending"
      using n assms by simp_all
    ultimately show ?thesis unfolding finished_row_def by blast
  qed
  ultimately show ?thesis by (simp add: grows_def row_of_def)
qed

text \<open>An update of one row under the invariant: its new status must be true.\<close>

lemma store_inv_update:
  assumes inv: "store_inv env stream rows log"
    and id: "\<And>n. nt_event_id (f n) = nt_event_id n"
    and kept: "\<And>n. row_from env stream (f n) = row_from env stream n"
    and fin: "\<And>n. nt_status n \<noteq> Sending \<Longrightarrow> nt_status (f n) \<noteq> Sending"
    and con: "\<And>n. nt_event_id n = e \<Longrightarrow> concluded env stream log n \<Longrightarrow> concluded env stream log (f n)"
  shows "store_inv env stream (update_notification e f rows) log"
    "grows rows log (update_notification e f rows) log"
proof -
  show g: "grows rows log (update_notification e f rows) log"
    using id fin by (rule grows_update)
  have "map nt_event_id (update_notification e f rows) = map nt_event_id rows"
    unfolding update_notification_def by (rule map_update_where) (rule id)
  moreover have "row_from env stream m \<and> concluded env stream log m"
    if "m \<in> set (update_notification e f rows)" for m
  proof -
    from that obtain n where n: "n \<in> set rows" "m = (if nt_event_id n = e then f n else n)"
      by (auto simp: update_notification_def set_update_where)
    with inv have "row_from env stream n" "concluded env stream log n" by (auto simp: store_inv_def)
    with n(2) kept con show ?thesis by auto
  qed
  ultimately show "store_inv env stream (update_notification e f rows) log"
    using inv settled_grows [OF g] by (auto simp: store_inv_def)
qed

text \<open>An addition to the log.\<close>

lemma store_inv_log:
  assumes "store_inv env stream rows log" "grows rows log rows log'"
    and "\<forall>rq \<in> set (lg_accepted log') - set (lg_accepted log). request_from env stream rq"
    and "\<forall>i \<in> set (lg_acks log') - set (lg_acks log). settled env stream rows log' i"
  shows "store_inv env stream rows log'"
  using assms settled_grows [OF assms(2)] concluded_grows [OF assms(2)]
  unfolding store_inv_def by blast

lemma grows_ack: "grows rows log rows (ack logging_redis cfg i log)"
  by (simp add: grows_def ack_def logging_redis_def buried_def told_def)

lemma grows_add: "grows rows log rows (rd_add logging_redis s entry log)"
  by (simp add: grows_def logging_redis_def buried_def told_def)

lemma buried_add: "buried (rd_add logging_redis s (dead_entry i msg reason) log) i"
  by (simp add: buried_def logging_redis_def dead_entry_def)

lemma log_fields [simp]:
  "lg_accepted (ack logging_redis cfg i log) = lg_accepted log"
  "lg_acks (ack logging_redis cfg i log) = i # lg_acks log"
  "lg_accepted (rd_add logging_redis s entry log) = lg_accepted log"
  "lg_acks (rd_add logging_redis s entry log) = lg_acks log"
  by (simp_all add: ack_def logging_redis_def)

lemma store_inv_ack:
  assumes "store_inv env stream rows log" "settled env stream rows log i"
  shows "store_inv env stream rows (ack logging_redis cfg i log)"
  using assms grows_ack settled_grows [OF grows_ack assms(2)] by (intro store_inv_log [OF assms(1)]) auto

lemma store_inv_add:
  assumes "store_inv env stream rows log"
  shows "store_inv env stream rows (rd_add logging_redis s entry log)"
  using assms grows_add by (intro store_inv_log [OF assms]) auto

lemma gateway_log:
  assumes "send env (logging_gateway reply) (ev_event_id e) (ev_client_id e) text log = (log', r)"
  shows "grows rows log rows log'" "lg_acks log' = lg_acks log"
    "set (lg_accepted log') \<subseteq> insert (event_request e text) (set (lg_accepted log))"
    "r = Inr d \<Longrightarrow> told log' (ev_event_id e)"
proof -
  have world: "log' = fst (logging_gateway reply (event_request e text) log)"
    using send_world [of env "logging_gateway reply" "ev_event_id e" "ev_client_id e" "text" log] assms
    by (simp add: event_request_def)
  then show "grows rows log rows log'" "lg_acks log' = lg_acks log"
    "set (lg_accepted log') \<subseteq> insert (event_request e text) (set (lg_accepted log))"
    by (auto simp: logging_gateway_def grows_def buried_def told_def)
  assume "r = Inr d"
  with assms have "accepted reply"
    using send_accepted [of env "logging_gateway reply"] by (fastforce simp: logging_gateway_def)
  with world show "told log' (ev_event_id e)"
    by (simp add: logging_gateway_def told_def event_request_def send_request_def)
qed

section \<open>Every step keeps the invariant\<close>

lemma carriesI: "(i, msg) \<in> stream \<Longrightarrow> read_message env msg = Inr e \<Longrightarrow> carries env stream i e"
  by (auto simp: carries_def)

definition step_keeps ::
  "python_env \<Rightarrow> (string \<times> message_fields) set \<Rightarrow> string \<Rightarrow> message_fields \<Rightarrow> notification list \<Rightarrow> delivery_log
   \<Rightarrow> notification list \<times> delivery_log \<times> (notify_error exn + work + outcome) \<Rightarrow> bool" where
  "step_keeps env stream i msg rows log result \<longleftrightarrow>
     (case result of (rows', log', r) \<Rightarrow>
        store_inv env stream rows' log' \<and> grows rows log rows' log'
        \<and> (\<forall>k'. r = Inr (Inl k') \<longrightarrow> work_ok env stream rows' log' (i, msg, k')))"

lemma keeps_received:
  assumes "store_inv env stream rows log" "(i, msg) \<in> stream"
  shows "step_keeps env stream i msg rows log
    (advance env logging_redis (logging_gateway reply) clock cfg i msg (Received d) rows log)"
proof -
  have "work_ok env stream rows log (i, msg, Ack OutIgnored)"
    if "read_message env msg = Inr e" "render e = None" for e
    using that assms(2) carriesI by (fastforce simp: work_ok_def settled_def)
  with assms show ?thesis
    by (auto simp: step_keeps_def advance_def work_ok_def split: sum.splits prod.splits option.splits if_splits)
qed

lemma keeps_claim:
  assumes inv: "store_inv env stream rows log" and msg: "(i, msg) \<in> stream"
    and ok: "read_message env msg = Inr e" "render e = Some text"
  shows "step_keeps env stream i msg rows log
    (advance env logging_redis (logging_gateway reply) clock cfg i msg (Claim e text) rows log)"
proof (cases "fits_columns e text")
  case False
  with inv show ?thesis by (simp add: step_keeps_def advance_def already_done_def)
next
  case fits: True
  show ?thesis
  proof (cases "get_by nt_event_id (ev_event_id e) rows")
    case None
    let ?rows = "rows @ [new_notification (clock log) e text]"
    have "row_from env stream (new_notification (clock log) e text)"
      unfolding row_from_def using carriesI [OF msg ok(1)] ok(2)
      by (intro exI [of _ i] exI [of _ e]) (simp add: new_notification_def)
    moreover have "concluded env stream log (new_notification (clock log) e text)"
      by (simp add: concluded_def new_notification_def)
    moreover have "ev_event_id e \<notin> nt_event_id ` set rows"
      using None by (simp add: get_by_None_iff)
    moreover have g: "grows rows log ?rows log"
      by (auto simp: grows_def row_of_def finished_row_def)
    ultimately have "store_inv env stream ?rows log"
      using inv settled_grows [OF g] by (auto simp: store_inv_def new_notification_def)
    with None fits g msg ok show ?thesis
      by (simp add: step_keeps_def advance_def already_done_def work_ok_def row_of_def new_notification_def)
  next
    case (Some n)
    then have n: "n \<in> set rows" "nt_event_id n = ev_event_id e" by (auto dest: get_by_SomeD)
    then have "row_of e rows" by (auto simp: row_of_def intro: rev_image_eqI)
    moreover have "settled env stream rows log i" if "nt_status n \<noteq> Sending"
      using carriesI [OF msg ok(1)] n that by (auto simp: settled_def finished_row_def)
    ultimately show ?thesis
      using Some fits inv msg ok by (simp add: step_keeps_def advance_def already_done_def work_ok_def)
  qed
qed

lemma keeps_call:
  assumes inv: "store_inv env stream rows log" and msg: "(i, msg) \<in> stream"
    and ok: "read_message env msg = Inr e" "render e = Some text" "row_of e rows"
  shows "step_keeps env stream i msg rows log
    (advance env logging_redis (logging_gateway reply) clock cfg i msg (CallGateway e text) rows log)"
proof -
  obtain log' r where s: "send env (logging_gateway reply) (ev_event_id e) (ev_client_id e) text log = (log', r)"
    by (meson surj_pair)
  note g = gateway_log [OF s]
  have "request_from env stream (event_request e text)"
    using carriesI [OF msg ok(1)] ok(2) by (auto simp: request_from_def)
  with g(2,3) have "store_inv env stream rows log'"
    by (intro store_inv_log [OF inv g(1)]) auto
  with g(1,4) s msg ok show ?thesis
    by (auto simp: step_keeps_def advance_def work_ok_def split: sum.splits)
qed

lemma keeps_failure:
  assumes "store_inv env stream rows log"
  shows "step_keeps env stream i msg rows log
    (advance env logging_redis (logging_gateway reply) clock cfg i msg (RecordFailure e error) rows log)"
  using assms
  by (auto simp: step_keeps_def advance_def record_send_failure_def row_from_def concluded_def
      intro!: store_inv_update split: notification_status.splits)

lemma keeps_mark:
  assumes inv: "store_inv env stream rows log" and msg: "(i, msg) \<in> stream"
    and ok: "read_message env msg = Inr e" "row_of e rows" "told log (ev_event_id e)"
  shows "step_keeps env stream i msg rows log
    (advance env logging_redis (logging_gateway reply) clock cfg i msg (MarkSent e delivery) rows log)"
proof (cases "length delivery > 64")
  case True
  with inv show ?thesis by (simp add: step_keeps_def advance_def mark_sent_def)
next
  case False
  define f where "f = (\<lambda>n :: notification. n\<lparr>nt_status := Sent, nt_gateway_message_id := Some delivery, nt_updated_at := clock log\<rparr>)"
  let ?rows = "update_notification (ev_event_id e) f rows"
  have upd: "store_inv env stream ?rows log" "grows rows log ?rows log"
    using inv ok(3) by (auto intro!: store_inv_update simp: f_def row_from_def concluded_def)
  from ok(2) obtain n where n: "n \<in> set rows" "nt_event_id n = ev_event_id e"
    by (auto simp: row_of_def)
  then have "f n \<in> set ?rows" by (force simp: update_notification_def set_update_where)
  moreover have "nt_event_id (f n) = ev_event_id e" "nt_status (f n) \<noteq> Sending"
    using n by (simp_all add: f_def)
  ultimately have "finished_row e ?rows" unfolding finished_row_def by blast
  then have "settled env stream ?rows log i"
    using carriesI [OF msg ok(1)] by (auto simp: settled_def)
  with upd False msg show ?thesis
    by (simp add: step_keeps_def advance_def mark_sent_def work_ok_def f_def)
qed

lemma keeps_bury:
  assumes "store_inv env stream rows log" "(i, msg) \<in> stream"
    and "\<forall>x. eid = Some x \<longrightarrow> (\<exists>e. read_message env msg = Inr e \<and> ev_event_id e = x)"
  shows "step_keeps env stream i msg rows log
    (advance env logging_redis (logging_gateway reply) clock cfg i msg (Bury eid reason) rows log)"
  using assms
  by (simp add: step_keeps_def advance_def work_ok_def store_inv_add grows_add buried_add)

lemma keeps_bury_row:
  assumes inv: "store_inv env stream rows log" and msg: "(i, msg) \<in> stream" and bur: "buried log i"
    and eid: "\<forall>x. eid = Some x \<longrightarrow> (\<exists>e. read_message env msg = Inr e \<and> ev_event_id e = x)"
  shows "step_keeps env stream i msg rows log
    (advance env logging_redis (logging_gateway reply) clock cfg i msg (BuryRow eid reason) rows log)"
proof (cases eid)
  case None
  with inv msg bur show ?thesis by (simp add: step_keeps_def advance_def bury_row_def work_ok_def settled_def)
next
  case (Some x)
  with eid obtain e where e: "read_message env msg = Inr e" "ev_event_id e = x" by blast
  have dead: "concluded env stream log (n\<lparr>nt_status := Dead,
      nt_last_error := Some (take NOTIFY_MAX_ERROR_LENGTH reason), nt_updated_at := clock log\<rparr>)"
    if "nt_event_id n = x" for n
    using that carriesI [OF msg e(1)] e(2) bur by (auto simp: concluded_def)
  have "store_inv env stream (mark_dead (clock log) x reason rows) log"
    "grows rows log (mark_dead (clock log) x reason rows) log"
    unfolding mark_dead_def
    by (rule store_inv_update [OF inv]; simp add: dead row_from_def)+
  with Some msg bur show ?thesis
    by (simp add: step_keeps_def advance_def bury_row_def work_ok_def settled_def)
qed

lemma keeps_ack:
  assumes "store_inv env stream rows log" "settled env stream rows log i"
  shows "step_keeps env stream i msg rows log
    (advance env logging_redis (logging_gateway reply) clock cfg i msg (Ack out) rows log)"
  using assms by (simp add: step_keeps_def advance_def store_inv_ack grows_ack)

lemma advance_keeps:
  assumes "store_inv env stream rows log" "work_ok env stream rows log (i, msg, k)"
  shows "step_keeps env stream i msg rows log
    (advance env logging_redis (logging_gateway reply) clock cfg i msg k rows log)"
  using assms
  by (cases k) (simp_all add: work_ok_def keeps_received keeps_claim keeps_call keeps_failure
      keeps_mark keeps_bury keeps_bury_row keeps_ack)

lemma notify_inv_step:
  assumes inv: "notify_inv env stream w" and step: "notify_step env cfg stream w w'"
  shows "notify_inv env stream w'"
  using step
proof (cases rule: notify_stepE)
  case (receive i msg d)
  with inv show ?thesis by (auto simp: notify_inv_def work_ok_def)
next
  case step: (advance pre i msg k post reply now rows log r)
  then have "step_keeps env stream i msg (nw_rows w) (nw_log w) (rows, log, r)"
    using inv advance_keeps [of env stream "nw_rows w" "nw_log w" i msg k reply "\<lambda>_. now" cfg]
    by (simp add: notify_inv_def)
  then have *: "store_inv env stream rows log" "grows (nw_rows w) (nw_log w) rows log"
    "\<forall>k'. r = Inr (Inl k') \<longrightarrow> work_ok env stream rows log (i, msg, k')"
    by (simp_all add: step_keeps_def)
  have "work_ok env stream rows log x" if x: "x \<in> set (pre @ next_work (i, msg) r @ post)" for x
  proof (cases "x \<in> set pre \<union> set post")
    case True
    with inv step have "work_ok env stream (nw_rows w) (nw_log w) x" by (auto simp: notify_inv_def)
    with *(2) show ?thesis by (rule work_ok_grows)
  next
    case False
    with x have "x \<in> set (next_work (i, msg) r)" by simp
    with *(3) show ?thesis by (auto simp: next_work_mem)
  qed
  with *(1) step show ?thesis by (simp add: notify_inv_def)
next
  case (crash pre x post)
  with inv show ?thesis by (auto simp: notify_inv_def)
qed

interpretation notify_system: invariant_system notify_start "notify_step env cfg stream"
    "notify_inv env stream"
  for env :: python_env and cfg :: consumer_settings and stream :: "(string \<times> message_fields) set"
proof
  show "notify_inv env stream w" if "notify_start w" for w
    using that by (simp add: notify_start_def notify_inv_def store_inv_def)
qed (rule notify_inv_step)

end
