(* ===== verification/Notifier_Ledger.thy ===== *)
theory Notifier_Ledger
  imports Notifier_System
begin

text \<open>
  What ADR-0010 promises about notifications, as a machine of three sets, and that the consumers
  implement it: every step of the interleaving model is a step of the ledger or invisible to it.
  A message may be closed (acknowledged) only when its client was told, when it was given up on in
  the dead-letter stream, or when there is nothing to tell.
\<close>

section \<open>The specification\<close>

record ledger =
  ld_told :: "string set"
  ld_given_up :: "string set"
  ld_closed :: "string set"

definition empty_ledger :: ledger where
  "empty_ledger = \<lparr>ld_told = {}, ld_given_up = {}, ld_closed = {}\<rparr>"

definition may_close ::
  "python_env \<Rightarrow> (string \<times> message_fields) set \<Rightarrow> ledger \<Rightarrow> string \<Rightarrow> bool" where
  "may_close env stream L i \<longleftrightarrow>
     i \<in> ld_given_up L
     \<or> (\<exists>e. carries env stream i e \<and>
          (render e = None \<or> ev_event_id e \<in> ld_told L
           \<or> (\<exists>j e'. carries env stream j e' \<and> ev_event_id e' = ev_event_id e \<and> j \<in> ld_given_up L)))"

inductive ledger_step :: "python_env \<Rightarrow> (string \<times> message_fields) set \<Rightarrow> ledger \<Rightarrow> ledger \<Rightarrow> bool"
  for env :: python_env and stream :: "(string \<times> message_fields) set" where
  ledger_tell:
    "carries env stream i e \<Longrightarrow> render e \<noteq> None \<Longrightarrow>
     ledger_step env stream L (L\<lparr>ld_told := insert (ev_event_id e) (ld_told L)\<rparr>)"
| ledger_give_up:
    "i \<in> fst ` stream \<Longrightarrow> ledger_step env stream L (L\<lparr>ld_given_up := insert i (ld_given_up L)\<rparr>)"
| ledger_close:
    "may_close env stream L i \<Longrightarrow> ledger_step env stream L (L\<lparr>ld_closed := insert i (ld_closed L)\<rparr>)"

definition ledger_of :: "notify_world \<Rightarrow> ledger" where
  "ledger_of w =
     \<lparr>ld_told = {x. told (nw_log w) x}, ld_given_up = {i. buried (nw_log w) i},
      ld_closed = set (lg_acks (nw_log w))\<rparr>"

section \<open>The simulation\<close>

text \<open>What a step does to the log.\<close>

lemma advance_log:
  assumes "advance env logging_redis (logging_gateway reply) clock cfg i msg k rows log = (rows', log', r)"
  shows "log' = log
    \<or> (\<exists>eid reason. k = Bury eid reason \<and> log' = rd_add logging_redis (dead_stream cfg) (dead_entry i msg reason) log)
    \<or> (\<exists>out. k = Ack out \<and> log' = ack logging_redis cfg i log)
    \<or> (\<exists>e t. k = CallGateway e t \<and> log' = log\<lparr>lg_accepted := event_request e t # lg_accepted log\<rparr>)"
proof (cases k)
  case (CallGateway e t)
  then have "log' = fst (send env (logging_gateway reply) (ev_event_id e) (ev_client_id e) t log)"
    using assms by (auto simp: advance_def split: prod.splits sum.splits)
  with CallGateway show ?thesis
    by (auto simp: send_world logging_gateway_def event_request_def)
qed (use assms in \<open>auto simp: advance_def split: prod.splits sum.splits\<close>)

lemma told_request: "told (log\<lparr>lg_accepted := event_request e t # lg_accepted log\<rparr>) x
    \<longleftrightarrow> x = ev_event_id e \<or> told log x"
  by (auto simp: told_def event_request_def send_request_def)

lemma buried_added: "buried (rd_add logging_redis s (dead_entry i msg reason) log) x \<longleftrightarrow> x = i \<or> buried log x"
  by (auto simp: buried_def logging_redis_def dead_entry_def)

lemma log_views [simp]:
  "told (rd_add logging_redis s entry log) x = told log x"
  "told (ack logging_redis cfg i log) x = told log x"
  "buried (ack logging_redis cfg i log) x = buried log x"
  "buried (log\<lparr>lg_accepted := rqs\<rparr>) x = buried log x"
  by (simp_all add: told_def buried_def logging_redis_def ack_def)

text \<open>Under the invariant, what the consumers acknowledge the ledger may close.\<close>

lemma settled_may_close:
  assumes inv: "store_inv env stream (nw_rows w) (nw_log w)"
    and "settled env stream (nw_rows w) (nw_log w) i"
  shows "may_close env stream (ledger_of w) i"
proof (cases "buried (nw_log w) i")
  case True
  then show ?thesis by (simp add: may_close_def ledger_of_def)
next
  case False
  with assms(2) obtain e where e: "carries env stream i e" "render e = None \<or> finished_row e (nw_rows w)"
    by (auto simp: settled_def)
  show ?thesis
  proof (cases "render e = None")
    case True
    with e(1) show ?thesis by (auto simp: may_close_def)
  next
    case False
    with e(2) obtain n where n: "n \<in> set (nw_rows w)" "nt_event_id n = ev_event_id e" "nt_status n \<noteq> Sending"
      by (auto simp: finished_row_def)
    then have "concluded env stream (nw_log w) n" using inv by (auto simp: store_inv_def)
    with n e(1) show ?thesis
      by (cases "nt_status n") (fastforce simp: may_close_def ledger_of_def concluded_def)+
  qed
qed

lemma step_simulates:
  assumes inv: "notify_inv env stream w" and step: "notify_step env cfg stream w w'"
  shows "ledger_of w' = ledger_of w \<or> ledger_step env stream (ledger_of w) (ledger_of w')"
  using step
proof (cases rule: notify_stepE)
  case step: (advance pre i msg k post reply now rows log r)
  have ok: "work_ok env stream (nw_rows w) (nw_log w) (i, msg, k)"
    and store: "store_inv env stream (nw_rows w) (nw_log w)"
    using inv step by (auto simp: notify_inv_def)
  from advance_log [OF step(3)] consider "log = nw_log w"
    | eid reason where "k = Bury eid reason"
        "log = rd_add logging_redis (dead_stream cfg) (dead_entry i msg reason) (nw_log w)"
    | out where "k = Ack out" "log = ack logging_redis cfg i (nw_log w)"
    | e t where "k = CallGateway e t" "log = nw_log w\<lparr>lg_accepted := event_request e t # lg_accepted (nw_log w)\<rparr>"
    by blast
  then show ?thesis
  proof cases
    case 1
    with step show ?thesis by (simp add: ledger_of_def)
  next
    case 2
    have "i \<in> fst ` stream" using ok by (force simp: work_ok_def)
    moreover have "ledger_of w' = (ledger_of w)\<lparr>ld_given_up := insert i (ld_given_up (ledger_of w))\<rparr>"
      using step 2 by (auto simp: ledger_of_def buried_added)
    ultimately show ?thesis using ledger_give_up by metis
  next
    case 3
    have "may_close env stream (ledger_of w) i"
      using settled_may_close [OF store] ok 3 by (simp add: work_ok_def)
    moreover have "ledger_of w' = (ledger_of w)\<lparr>ld_closed := insert i (ld_closed (ledger_of w))\<rparr>"
      using step 3 by (simp add: ledger_of_def)
    ultimately show ?thesis using ledger_close by metis
  next
    case 4
    have "carries env stream i e" "render e \<noteq> None"
      using ok 4 by (auto simp: work_ok_def intro: carriesI)
    moreover have "ledger_of w' = (ledger_of w)\<lparr>ld_told := insert (ev_event_id e) (ld_told (ledger_of w))\<rparr>"
      using step 4 by (auto simp: ledger_of_def told_request)
    ultimately show ?thesis using ledger_tell by metis
  qed
qed (simp_all add: ledger_of_def)

text \<open>The ledger's own invariant, which the consumers inherit.\<close>

definition ledger_inv :: "python_env \<Rightarrow> (string \<times> message_fields) set \<Rightarrow> ledger \<Rightarrow> bool" where
  "ledger_inv env stream L \<longleftrightarrow> (\<forall>i \<in> ld_closed L. may_close env stream L i)"

lemma may_close_mono:
  "ld_given_up L \<subseteq> ld_given_up L' \<Longrightarrow> ld_told L \<subseteq> ld_told L' \<Longrightarrow> may_close env stream L i \<Longrightarrow>
     may_close env stream L' i"
  unfolding may_close_def by blast

lemma ledger_step_inv: "ledger_inv env stream L \<Longrightarrow> ledger_step env stream L L' \<Longrightarrow> ledger_inv env stream L'"
  by (erule ledger_step.cases)
    (auto simp: ledger_inv_def intro: may_close_mono [of L "L\<lparr>ld_told := _\<rparr>"]
      may_close_mono [of L "L\<lparr>ld_given_up := _\<rparr>"] may_close_mono [of L "L\<lparr>ld_closed := _\<rparr>"])

interpretation notify_ledger: invariant_system "\<lambda>L. L = empty_ledger" "ledger_step env stream"
    "ledger_inv env stream"
  for env :: python_env and stream :: "(string \<times> message_fields) set"
proof
  show "ledger_inv env stream L" if "L = empty_ledger" for L
    using that by (simp add: ledger_inv_def empty_ledger_def)
qed (rule ledger_step_inv)

lemma reachable_simulates:
  "reachable_from notify_start (notify_step env cfg stream) w \<Longrightarrow>
     reachable_from (\<lambda>L. L = empty_ledger) (ledger_step env stream) (ledger_of w)"
proof (induction rule: reachable_from.induct)
  case (reach_start w)
  then have "ledger_of w = empty_ledger"
    by (simp add: notify_start_def ledger_of_def empty_ledger_def told_def buried_def)
  then show ?case by (rule reachable_from.reach_start)
next
  case (reach_step w w')
  then show ?case
    using step_simulates [OF notify_system.reachable_inv [OF reach_step(1)] reach_step(2)]
    by (auto intro: reachable_from.reach_step)
qed

end
