(* ===== verification/Notifier_Events.thy ===== *)
theory Notifier_Events
  imports Notifier_System Booking_Events Pyjson_Roundtrip
begin

text \<open>
  The road of an event from booking to the notifier: \<open>RedisPublisher.publish\<close> of
  \<open>services/booking/src/booking/outbox.py\<close> writes the payload as JSON into the field \<open>data\<close> of a
  stream entry, the consumer parses it back.
\<close>

definition STREAM_MAXLEN :: nat where
  "STREAM_MAXLEN = 10000"

definition published_fields :: "string \<Rightarrow> (string \<times> json) list \<Rightarrow> message_fields" where
  "published_fields topic payload = [(''topic'', topic), (''data'', json_dumps (JObj payload))]"

lemma read_dumped:
  assumes "plain_json (JObj kvs)" "field_get msg ''data'' = json_dumps (JObj kvs)"
  shows "read_message env msg =
    (case parse_event env (JObj kvs) of Inl e \<Rightarrow> Inl (e, notify_error_text env e) | Inr e \<Rightarrow> Inr e)"
  using assms by (simp add: read_message_def loads_dumps Let_def)

text \<open>The payload of an event of booking, field by field.\<close>

lemma build_event_payload:
  assumes "build_event eid st b sl c at now = Inr payload"
  obtains ty where "event_type st = Some ty"
    "payload = [(''event_id'', JStr (uuid_str eid)), (''type'', JStr (event_value ty)),
       (''version'', JInt 1), (''occurred_at'', JStr (isoformat (utc_datetime now))),
       (''booking_id'', JStr (uuid_str b)), (''slot_id'', JStr (uuid_str sl)),
       (''client_id'', JStr c), (''starts_at'', JStr (isoformat (utc_datetime at)))]"
  using assms by (auto simp: build_event_def event_type_def EVENT_VERSION_def split: option.splits)

lemma uuid_str_nonempty [simp]: "uuid_str u \<noteq> []"
  by (simp add: uuid_str_def Let_def)

lemma event_value_nonempty [simp]: "event_value ty \<noteq> []"
  by (cases ty) simp_all

lemma isoformat_nonempty [simp]: "isoformat dt \<noteq> []"
  by (simp add: isoformat_def)

lemma build_event_plain: "build_event eid st b sl c at now = Inr payload \<Longrightarrow> plain_json (JObj payload)"
  by (erule build_event_payload) (simp add: show_nat.simps [of "Suc 0"] MAX_INT_DIGITS_def)

lemma published_event_read:
  assumes payload: "build_event eid st b sl c at now = Inr payload"
    and c: "c \<noteq> []" and date: "valid_fields (utc_datetime at)"
    and data: "field_get msg ''data'' = json_dumps (JObj payload)"
  obtains ty where "event_type st = Some ty"
    "read_message env msg = Inr \<lparr>ev_event_id = uuid_str eid, ev_type = event_value ty,
       ev_booking_id = uuid_str b, ev_client_id = c, ev_starts_at = utc_datetime at\<rparr>"
proof -
  obtain ty where ty: "event_type st = Some ty" and p: "payload = [(''event_id'', JStr (uuid_str eid)), (''type'', JStr (event_value ty)),
       (''version'', JInt 1), (''occurred_at'', JStr (isoformat (utc_datetime now))),
       (''booking_id'', JStr (uuid_str b)), (''slot_id'', JStr (uuid_str sl)),
       (''client_id'', JStr c), (''starts_at'', JStr (isoformat (utc_datetime at)))]"
    using payload by (rule build_event_payload)
  have "missing_fields payload = []"
    using c by (simp add: p missing_fields_def REQUIRED_FIELDS_def dict_get_def)
  moreover have "fromisoformat (other_iso env) (isoformat (utc_datetime at)) = Some (utc_datetime at)"
    using date by (rule fromisoformat_isoformat)
  ultimately have "parse_event env (JObj payload) = Inr \<lparr>ev_event_id = uuid_str eid, ev_type = event_value ty,
       ev_booking_id = uuid_str b, ev_client_id = c, ev_starts_at = utc_datetime at\<rparr>"
    by (simp add: parse_event_def p dict_get_def)
  with that ty read_dumped [OF build_event_plain [OF payload] data] show thesis by simp
qed

end
