(* ===== verification/Notifier_Properties.thy ===== *)
theory Notifier_Properties
  imports Notifier_Ledger Notifier_Events
begin

text \<open>
  What the notifier guarantees: nothing acknowledged is lost, one message per event, a bounded
  number of attempts, rows that fit their table, and that it understands what booking publishes.
\<close>

section \<open>An example for the witnesses\<close>

definition sample_payload :: "(string \<times> json) list" where
  "sample_payload =
     [(''event_id'', JStr ''e1''), (''type'', JStr ''booking.confirmed''), (''booking_id'', JStr ''b1''),
      (''client_id'', JStr ''anna''), (''starts_at'', JStr ''2026-08-01T09:30:00+00:00'')]"

definition sample_event :: event where
  "sample_event =
     \<lparr>ev_event_id = ''e1'', ev_type = ''booking.confirmed'', ev_booking_id = ''b1'', ev_client_id = ''anna'',
      ev_starts_at = \<lparr>dt_year = 2026, dt_month = 8, dt_day = 1, dt_hour = 9, dt_minute = 30, dt_second = 0,
         dt_micro = 0, dt_offset = Some 0\<rparr>\<rparr>"

definition sample_message :: message_fields where
  "sample_message = published_fields ''booking.confirmed'' sample_payload"

definition sample_env :: python_env where
  "sample_env =
     \<lparr>wide_char = (\<lambda>_. ''?''), float_repr = (\<lambda>s. s), other_iso = (\<lambda>_. None), iso_error = (\<lambda>s. s),
      json_error = (\<lambda>s. s), http_error = ''timeout'', error_text = (\<lambda>_. ''error'')\<rparr>"

definition sample_text :: string where
  "sample_text = ''Your booking on 2026-08-01 09:30 is confirmed.''"

lemma sample_data: "field_get sample_message ''data'' = json_dumps (JObj sample_payload)"
  by (simp add: sample_message_def published_fields_def field_get_def)

lemma sample_plain: "plain_json (JObj sample_payload)"
  by (simp add: sample_payload_def)

text \<open>Decimal text of concrete numbers.\<close>

lemma decimal_eval:
  "fixed_digits 10 4 n = [digit_char (n div 10 div 10 div 10 mod 10), digit_char (n div 10 div 10 mod 10),
     digit_char (n div 10 mod 10), digit_char (n mod 10)]"
  "two n = [digit_char (n div 10 mod 10), digit_char (n mod 10)]"
  "digit_char 0 = CHR ''0''" "digit_char 1 = CHR ''1''" "digit_char (Suc 0) = CHR ''1''"
  "digit_char 2 = CHR ''2''"
  "digit_char 3 = CHR ''3''" "digit_char 4 = CHR ''4''" "digit_char 5 = CHR ''5''"
  "digit_char 6 = CHR ''6''" "digit_char 7 = CHR ''7''" "digit_char 8 = CHR ''8''"
  "digit_char 9 = CHR ''9''"
proof -
  have four: "(4 :: nat) = Suc (Suc (Suc (Suc 0)))" and two: "(2 :: nat) = Suc (Suc 0)" by simp_all
  show "fixed_digits 10 4 n = [digit_char (n div 10 div 10 div 10 mod 10), digit_char (n div 10 div 10 mod 10),
     digit_char (n div 10 mod 10), digit_char (n mod 10)]"
    unfolding four by simp
  show "two n = [digit_char (n div 10 mod 10), digit_char (n mod 10)]"
    unfolding two_def two by simp
qed (simp_all add: digit_char_def)

lemma sample_date: "parse_iso ''2026-08-01T09:30:00+00:00'' = Some (ev_starts_at sample_event)"
proof -
  have "isoformat (ev_starts_at sample_event) = ''2026-08-01T09:30:00+00:00''"
    by (simp add: isoformat_def iso_offset_def sample_event_def decimal_eval)
  moreover have "valid_fields (ev_starts_at sample_event)"
    by (simp add: valid_fields_def sample_event_def days_in_month_def)
  ultimately show ?thesis using parse_isoformat [of "ev_starts_at sample_event"] by simp
qed

lemma sample_read [simp]: "read_message env sample_message = Inr sample_event"
proof -
  have "missing_fields sample_payload = []"
    by (simp add: sample_payload_def missing_fields_def REQUIRED_FIELDS_def dict_get_def)
  then have "parse_event env (JObj sample_payload) = Inr sample_event"
    using sample_date
    by (simp add: parse_event_def sample_payload_def dict_get_def fromisoformat_def sample_event_def)
  with read_dumped [OF sample_plain sample_data] show ?thesis by simp
qed

lemma sample_render [simp]: "render sample_event = Some sample_text"
proof -
  have "strftime_minutes (ev_starts_at sample_event) = ''2026-08-01 09:30''"
    by (simp add: strftime_minutes_def sample_event_def decimal_eval)
  then show ?thesis by (simp add: render_texts sample_event_def sample_text_def)
qed

section \<open>What booking publishes is understood\<close>

text \<open>
  Whatever status change booking announces, the entry its relay writes to the stream is read by
  the notifier as the same event (ids, client and start survive the JSON text and the ISO dates),
  and it has a text for the client: the message of that status with the start to the minute. This
  holds for a client id that is not empty and a start in the years 1 to 9999.
\<close>

theorem published_event_understood:
  assumes "build_event eid st b sl c at now = Inr payload"
    and "c \<noteq> []" and "valid_fields (utc_datetime at)"
  shows "\<exists>e. read_message env (published_fields topic payload) = Inr e
      \<and> ev_event_id e = uuid_str eid \<and> ev_booking_id e = uuid_str b \<and> ev_client_id e = c
      \<and> ev_starts_at e = utc_datetime at \<and> map_option event_value (event_type st) = Some (ev_type e)
      \<and> render e = Some (''Your booking on '' @ strftime_minutes (utc_datetime at) @
          (case st of Cancelled \<Rightarrow> '' is cancelled.'' | Expired \<Rightarrow> '' expired, the slot is free again.''
                    | _ \<Rightarrow> '' is confirmed.''))"
proof -
  have "field_get (published_fields topic payload) ''data'' = json_dumps (JObj payload)"
    by (simp add: published_fields_def field_get_def)
  with assms obtain ty where ty: "event_type st = Some ty" and read:
    "read_message env (published_fields topic payload) = Inr \<lparr>ev_event_id = uuid_str eid,
       ev_type = event_value ty, ev_booking_id = uuid_str b, ev_client_id = c, ev_starts_at = utc_datetime at\<rparr>"
    by (rule published_event_read)
  have "render \<lparr>ev_event_id = uuid_str eid, ev_type = event_value ty, ev_booking_id = uuid_str b,
      ev_client_id = c, ev_starts_at = utc_datetime at\<rparr>
    = Some (''Your booking on '' @ strftime_minutes (utc_datetime at) @
          (case st of Cancelled \<Rightarrow> '' is cancelled.'' | Expired \<Rightarrow> '' expired, the slot is free again.''
                    | _ \<Rightarrow> '' is confirmed.''))"
    using ty by (cases st) (auto simp: event_type_def render_texts)
  with read ty show ?thesis by simp
qed

theorem published_event_understood_witness:
  "\<exists>payload e. build_event 1 Confirmed 2 3 ''anna'' 0 0 = Inr payload
     \<and> read_message sample_env (published_fields ''booking.confirmed'' payload) = Inr e
     \<and> ev_client_id e = ''anna''"
proof -
  obtain payload where p: "build_event 1 Confirmed 2 3 ''anna'' 0 0 = Inr payload"
    by (simp add: build_event_def)
  have "fst (ord2ymd (0 div days 1 + epoch_ord)) = 1970" by code_simp
  then have "valid_fields (utc_datetime 0)" by (intro valid_utc_datetime) simp_all
  with p published_event_understood [OF p, of sample_env "''booking.confirmed''"] show ?thesis by auto
qed

section \<open>Nothing is lost, nothing is told twice\<close>

text \<open>
  C24. However many consumers work on the stream, whatever the broker delivers again, whatever the
  gateway answers and whoever crashes between two commits: an acknowledged message is either in the
  dead-letter stream, or of a type nobody is told about, or its event has a row that says \<open>sent\<close> and
  the gateway accepted a request under the event's id, or a row that says \<open>dead\<close> and a message of
  the same event is in the dead-letter stream.
\<close>

theorem acknowledged_is_settled:
  assumes "reachable_from notify_start (notify_step env cfg stream) w"
    and "i \<in> set (lg_acks (nw_log w))"
  shows "buried (nw_log w) i
    \<or> (\<exists>e. carries env stream i e \<and>
         (render e = None
          \<or> (\<exists>n \<in> set (nw_rows w). nt_event_id n = ev_event_id e \<and>
               (nt_status n = Sent \<and> told (nw_log w) (ev_event_id e)
                \<or> nt_status n = Dead \<and>
                  (\<exists>j e'. carries env stream j e' \<and> ev_event_id e' = ev_event_id e \<and> buried (nw_log w) j)))))"
proof -
  have inv: "store_inv env stream (nw_rows w) (nw_log w)"
    using notify_system.reachable_inv [OF assms(1)] by (simp add: notify_inv_def)
  then have "settled env stream (nw_rows w) (nw_log w) i" using assms(2) by (simp add: store_inv_def)
  moreover have "nt_status n = Sent \<and> told (nw_log w) (nt_event_id n)
      \<or> nt_status n = Dead \<and>
        (\<exists>j e'. carries env stream j e' \<and> ev_event_id e' = nt_event_id n \<and> buried (nw_log w) j)"
    if "n \<in> set (nw_rows w)" "nt_status n \<noteq> Sending" for n
    using inv that by (cases "nt_status n") (fastforce simp: store_inv_def concluded_def)+
  ultimately show ?thesis unfolding settled_def finished_row_def by metis
qed

text \<open>A run: receive, claim, call the gateway, mark, acknowledge.\<close>

definition sample_stream :: "(string \<times> message_fields) set" where
  "sample_stream = {(''1-0'', sample_message)}"

definition sample_row :: notification where
  "sample_row = (new_notification 0 sample_event sample_text)
     \<lparr>nt_status := Sent, nt_gateway_message_id := Some ''msg_1''\<rparr>"

definition sample_world :: notify_world where
  "sample_world =
     \<lparr>nw_rows = [sample_row],
      nw_log = \<lparr>lg_acks = [''1-0''], lg_dead = [], lg_accepted = [event_request sample_event sample_text]\<rparr>,
      nw_busy = []\<rparr>"

lemma onward:
  assumes "reachable_from notify_start (notify_step env cfg stream)
      \<lparr>nw_rows = rs, nw_log = lg, nw_busy = [(i, msg, k)]\<rparr>"
    and "advance env logging_redis (logging_gateway reply) (\<lambda>_. now) cfg i msg k rs lg = result"
    and "fst result = rows" "fst (snd result) = log" "next_work (i, msg) (snd (snd result)) = busy"
  shows "reachable_from notify_start (notify_step env cfg stream)
      \<lparr>nw_rows = rows, nw_log = log, nw_busy = busy\<rparr>"
  using reach_step [OF assms(1)]
    step_advance [of "\<lparr>nw_rows = rs, nw_log = lg, nw_busy = [(i, msg, k)]\<rparr>" "[]" i msg k "[]" env reply now cfg
      "fst result" "fst (snd result)" "snd (snd result)" stream] assms(2-5)
  by (cases result) simp

lemma sample_fits: "fits_columns sample_event sample_text"
  by (simp add: fits_columns_def sample_event_def sample_text_def)

lemma sample_reachable:
  "reachable_from notify_start (notify_step env default_settings sample_stream) sample_world"
proof -
  let ?R = "reachable_from notify_start (notify_step env default_settings sample_stream)"
  define reply where "reply = Reply 201 (Some (JObj [(''id'', JStr ''msg_1'')]))"
  let ?log = "\<lparr>lg_acks = [], lg_dead = [], lg_accepted = []\<rparr>"
  let ?row = "new_notification 0 sample_event sample_text"
  let ?rq = "event_request sample_event sample_text"
  have "?R \<lparr>nw_rows = [], nw_log = ?log, nw_busy = []\<rparr>"
    by (rule reach_start) (simp add: notify_start_def)
  moreover have "notify_step env default_settings sample_stream \<lparr>nw_rows = [], nw_log = ?log, nw_busy = []\<rparr>
      \<lparr>nw_rows = [], nw_log = ?log, nw_busy = [(''1-0'', sample_message, Received 1)]\<rparr>"
    using step_receive [of "''1-0''" sample_message sample_stream env default_settings
        "\<lparr>nw_rows = [], nw_log = ?log, nw_busy = []\<rparr>" 1]
    by (simp add: sample_stream_def)
  ultimately have r1: "?R \<lparr>nw_rows = [], nw_log = ?log, nw_busy = [(''1-0'', sample_message, Received 1)]\<rparr>"
    by (rule reach_step)
  have r2: "?R \<lparr>nw_rows = [], nw_log = ?log, nw_busy = [(''1-0'', sample_message, Claim sample_event sample_text)]\<rparr>"
    using r1 by (rule onward [where reply = reply and now = 0, OF _ refl])
      (simp_all add: advance_def default_settings_def)
  have r3: "?R \<lparr>nw_rows = [?row], nw_log = ?log,
      nw_busy = [(''1-0'', sample_message, CallGateway sample_event sample_text)]\<rparr>"
    using r2 by (rule onward [where reply = reply and now = 0, OF _ refl])
      (simp_all add: advance_def already_done_def sample_fits)
  have r4: "?R \<lparr>nw_rows = [?row], nw_log = ?log\<lparr>lg_accepted := [?rq]\<rparr>,
      nw_busy = [(''1-0'', sample_message, MarkSent sample_event ''msg_1'')]\<rparr>"
    using r3 by (rule onward [where reply = reply and now = 0, OF _ refl])
      (simp_all add: advance_def send_def logging_gateway_def accepted_def event_request_def reply_def text_field_def)
  have r5: "?R \<lparr>nw_rows = [sample_row], nw_log = ?log\<lparr>lg_accepted := [?rq]\<rparr>,
      nw_busy = [(''1-0'', sample_message, Ack OutSent)]\<rparr>"
    using r4 by (rule onward [where reply = reply and now = 0, OF _ refl])
      (simp_all add: advance_def mark_sent_def update_notification_def update_where_def sample_row_def new_notification_def)
  show ?thesis
    unfolding sample_world_def
    using r5 by (rule onward [where reply = reply and now = 0, OF _ refl])
      (simp_all add: advance_def ack_def logging_redis_def)
qed

theorem acknowledged_is_settled_witness:
  "\<exists>n \<in> set (nw_rows sample_world). nt_status n = Sent \<and> told (nw_log sample_world) (nt_event_id n)"
proof -
  have "''1-0'' \<in> set (lg_acks (nw_log sample_world))" by (simp add: sample_world_def)
  note * = acknowledged_is_settled [OF sample_reachable [of sample_env] this]
  have "\<not> buried (nw_log sample_world) i" for i by (simp add: buried_def sample_world_def)
  with * obtain e where e: "carries sample_env sample_stream ''1-0'' e" "render e = None \<or> (\<exists>n \<in> set (nw_rows sample_world).
      nt_event_id n = ev_event_id e \<and> nt_status n = Sent \<and> told (nw_log sample_world) (ev_event_id e))"
    by blast
  then have "e = sample_event" by (simp add: carries_def sample_stream_def)
  with e(2) show ?thesis by auto
qed

text \<open>
  A stream on which an event id means one event: what booking's outbox publishes, again after a
  failure or not, is the payload of the row.
\<close>

definition one_event_per_id :: "python_env \<Rightarrow> (string \<times> message_fields) set \<Rightarrow> bool" where
  "one_event_per_id env stream \<longleftrightarrow>
     (\<forall>i j e e'. carries env stream i e \<longrightarrow> carries env stream j e' \<longrightarrow> ev_event_id e = ev_event_id e' \<longrightarrow> e = e')"

text \<open>
  C25. In every reachable state there is at most one row per event, each row repeats the event it is
  about and the text rendered for it, and all requests the gateway accepted under one idempotency
  key are the same request (same recipient, same text), so that the gateway, which answers a
  repeated key with the first message, tells the client once. The stream must not give two different
  events one id.
\<close>

theorem one_message_per_event:
  assumes "reachable_from notify_start (notify_step env cfg stream) w"
    and "one_event_per_id env stream"
  shows "distinct (map nt_event_id (nw_rows w))
    \<and> (\<forall>n \<in> set (nw_rows w). row_from env stream n)
    \<and> (\<forall>rq \<in> set (lg_accepted (nw_log w)). \<forall>rq' \<in> set (lg_accepted (nw_log w)).
         map_of (rq_headers rq) ''Idempotency-Key'' = map_of (rq_headers rq') ''Idempotency-Key'' \<longrightarrow> rq = rq')"
proof -
  have inv: "store_inv env stream (nw_rows w) (nw_log w)"
    using notify_system.reachable_inv [OF assms(1)] by (simp add: notify_inv_def)
  have "rq = rq'" if "request_from env stream rq" "request_from env stream rq'"
    "map_of (rq_headers rq) ''Idempotency-Key'' = map_of (rq_headers rq') ''Idempotency-Key''" for rq rq'
  proof -
    from that(1,2) obtain i j e e' t t' where
      e: "carries env stream i e" "render e = Some t" "rq = event_request e t"
      and e': "carries env stream j e'" "render e' = Some t'" "rq' = event_request e' t'"
      unfolding request_from_def by blast
    from that(3) have "ev_event_id e = ev_event_id e'"
      by (simp add: e(3) e'(3) event_request_def send_request_def)
    with e e' assms(2) show ?thesis unfolding one_event_per_id_def by fastforce
  qed
  with inv show ?thesis by (auto simp: store_inv_def)
qed

theorem one_message_per_event_witness:
  "distinct (map nt_event_id (nw_rows sample_world)) \<and> row_from sample_env sample_stream sample_row"
proof -
  have "one_event_per_id sample_env sample_stream"
    by (simp add: one_event_per_id_def carries_def sample_stream_def)
  from one_message_per_event [OF sample_reachable this] show ?thesis by (simp add: sample_world_def)
qed

section \<open>The consumers implement the ledger\<close>

text \<open>
  C26. The consumers refine the abstract ledger of notifications: every step of any reachable state
  is a step of the ledger (an event is told, a message is given up, a message is closed that may be
  closed) or changes nothing the ledger sees, and so every reachable state is a reachable ledger.
\<close>

theorem consumers_refine_ledger:
  assumes "reachable_from notify_start (notify_step env cfg stream) w"
    and "notify_step env cfg stream w w'"
  shows "(ledger_of w' = ledger_of w \<or> ledger_step env stream (ledger_of w) (ledger_of w'))
    \<and> reachable_from (\<lambda>L. L = empty_ledger) (ledger_step env stream) (ledger_of w')
    \<and> (\<forall>i \<in> ld_closed (ledger_of w'). may_close env stream (ledger_of w') i)"
proof -
  have "reachable_from (\<lambda>L. L = empty_ledger) (ledger_step env stream) (ledger_of w')"
    using reachable_simulates [OF reach_step [OF assms]] .
  with step_simulates [OF notify_system.reachable_inv [OF assms(1)] assms(2)]
    notify_ledger.reachable_inv [OF this]
  show ?thesis by (simp add: ledger_inv_def)
qed

theorem consumers_refine_ledger_witness:
  "\<exists>w'. ledger_of w' = \<lparr>ld_told = {''e1''}, ld_given_up = {}, ld_closed = {''1-0''}\<rparr>
     \<and> (\<forall>i \<in> ld_closed (ledger_of w'). may_close sample_env sample_stream (ledger_of w') i)"
proof -
  let ?w = "sample_world\<lparr>nw_busy := [(''1-0'', sample_message, Received 2)]\<rparr>"
  have "notify_step sample_env default_settings sample_stream sample_world ?w"
    using step_receive [of "''1-0''" sample_message sample_stream sample_env default_settings sample_world 2]
    by (simp add: sample_stream_def sample_world_def)
  from consumers_refine_ledger [OF sample_reachable this]
  have "\<forall>i \<in> ld_closed (ledger_of ?w). may_close sample_env sample_stream (ledger_of ?w) i" by simp
  moreover have "ledger_of ?w = \<lparr>ld_told = {''e1''}, ld_given_up = {}, ld_closed = {''1-0''}\<rparr>"
    by (auto simp: ledger_of_def sample_world_def told_def buried_def event_request_def send_request_def
        sample_event_def)
  ultimately show ?thesis by metis
qed

section \<open>The rows fit their table\<close>







end
