(* ===== verification/System_Journey.thy ===== *)
theory System_Journey
  imports System_Confirm Booking_Delivery Payments_Api Notifier_Properties
begin

text \<open>
  The road of a payment through all three services: PayStub's webhook, the command the relay of payments
  delivers to booking, the event the relay of booking publishes to the stream, the message the notifier
  sends to the client.
\<close>

section \<open>The four stations\<close>

text \<open>PayStub reports a charge.\<close>

lemma webhook_pays:
  assumes wf: "pay_wf s" and p: "p \<in> set (payments s)" "pm_status p = PayPending"
    and ev: "parse_webhook read_json body = Some ev" "we_type ev = ''charge.succeeded''"
      "we_reference ev = uuid_str (pm_id p)" "we_id ev \<notin> pe_event_id ` set (provider_events s)"
  obtains s1 where
    "pay_serve read_json secret http t (PostWebhook body (Some (sign body secret))) (s, w)
      = ((s1, w), PayAnswer 200 (AckOut Processed))"
    "commands s1 = commands s @ [\<lparr>cm_id = pay_next_uuid s, cm_topic = CONFIRM_BOOKING, cm_payload = confirm_payload p,
       cm_published_at = None, cm_attempts = 0, cm_last_error = None\<rparr>]"
    "payments s1 = map (\<lambda>q. if pm_id q = pm_id p then q\<lparr>pm_status := PaySucceeded, pm_updated_at := t\<rparr> else q) (payments s)"
proof -
  have small: "pm_id p < 2 ^ 128" using pay_wfD(7) [OF wf p(1)] .
  have got: "get_by pm_id (pm_id p) (payments s) = Some p"
    by (rule get_by_eq_Some [OF pay_wfD(1) [OF wf] p(1)])
  have "verify_signature body (Some (sign body secret)) secret = Inr ()"
    using verify_signature_outcome [of body "Some (sign body secret)" secret] by blast
  moreover obtain s1 where s1: "handle_webhook s (we_id ev) (we_type ev) (we_reference ev) t = (s1, Processed)"
    "commands s1 = commands s @ [\<lparr>cm_id = pay_next_uuid s, cm_topic = CONFIRM_BOOKING, cm_payload = confirm_payload p,
       cm_published_at = None, cm_attempts = 0, cm_last_error = None\<rparr>]"
    "payments s1 = map (\<lambda>q. if pm_id q = pm_id p then q\<lparr>pm_status := PaySucceeded, pm_updated_at := t\<rparr> else q) (payments s)"
    using ev(4) got p(2) small
    by (simp add: handle_webhook_def ev(2,3) target_status_def EVENT_TARGET_STATUS_def record_event_def
        find_payment_def uuid_roundtrip can_transition_iff add_command_def update_payment_def update_where_def
        confirm_payload_def Let_def)
  ultimately have "pay_serve read_json secret http t (PostWebhook body (Some (sign body secret))) (s, w)
      = ((s1, w), PayAnswer 200 (AckOut Processed))"
    using ev(1) by (simp add: paystub_webhook_def)
  from that [OF this s1(2,3)] show thesis .
qed

text \<open>The relay of payments delivers the one command there is.\<close>

definition row_changed :: "booking_db \<Rightarrow> booking \<Rightarrow> moment \<Rightarrow> booking_db" where
  "row_changed b k t = apply_change b (row_is k) Confirmed EventConfirmed (the (get_by sl_id (bk_slot_id k) (slots b))) t"

lemma relay_confirms:
  assumes wf: "wf_db b" and k: "get_by bk_id (pm_booking_id p) (bookings b) = Some k" "bk_status k = Pending"
    and u: "pm_booking_id p < 2 ^ 128" "pm_id p < 2 ^ 128"
    and c: "undelivered s = [c]" "cm_topic c = CONFIRM_BOOKING" "cm_payload c = confirm_payload p"
  shows "process_pending (booking_server shown t) paystub describe (\<lambda>_. False) t PAY_BATCH_SIZE s b
    = (pay_mark t c s, row_changed b k t, 1)"
proof -
  have "change_status b (pm_booking_id p) Confirmed t = (row_changed b k t, Inr (set_status Confirmed t k))"
    using k by (simp add: change_status_cases [OF wf] row_changed_def event_type_def)
  then have "deliver (booking_server shown t) paystub t c s b = (s, row_changed b k t, Inr ())"
    using server_outcome [OF wf u(1), of shown t] k
    by (simp add: deliver_confirmation [OF c(2,3) u])
  moreover have "pending_commands (\<lambda>_. False) PAY_BATCH_SIZE (commands s) = [c]"
    using c(1) by (simp add: pending_commands_def undelivered_def PAY_BATCH_SIZE_def)
  ultimately show ?thesis by (simp add: process_pending_def)
qed

text \<open>The stream as a publisher that appends its entries, and what a turn of booking's relay leaves there.\<close>

definition redis_stream :: "message_fields list publisher" where
  "redis_stream topic payload log = (log @ [published_fields topic payload], Inr ())"

definition entry_of :: "outbox_message \<Rightarrow> message_fields" where
  "entry_of m = published_fields (ob_topic m) (ob_payload m)"

lemma stream_delivered:
  "delivered (publish_message redis_stream) (mark_published t) ms s log = Some (s', log')
    \<Longrightarrow> log' = log @ map entry_of ms"
  by (induction ms arbitrary: s log) (fastforce simp: publish_message_def redis_stream_def entry_of_def)+

lemma relay_publishes:
  assumes inv: "booking_inv b" and few: "length (unpublished b) \<le> BATCH_SIZE"
    and run: "publish_pending redis_stream (\<lambda>_. False) t BATCH_SIZE b log = (b', log', m)"
  shows "unpublished b' = [] \<and> bookings b' = bookings b
    \<and> (\<forall>x \<in> set (unpublished b). entry_of x \<in> set (drop (length log) log'))"
proof -
  let ?batch = "pending_messages (\<lambda>_. False) BATCH_SIZE (outbox b)"
  have acc: "snd (redis_stream topic payload v) = Inr ()" for topic payload v by (simp add: redis_stream_def)
  have "bookings b' = bookings b"
    using publish_pending_delivery_only [of b redis_stream "\<lambda>_. False" t BATCH_SIZE log] run
    by (simp add: delivery_only_def)
  moreover have "unpublished b' = []"
    using publish_all_accepted [OF inv acc run] few by simp
  moreover have "log' = log @ map entry_of ?batch"
  proof -
    obtain s' v' where d: "delivered (publish_message redis_stream) (mark_published t) ?batch b log = Some (s', v')"
      using delivered_marks [of redis_stream, OF acc] by blast
    with run have "log' = v'" by (simp add: publish_pending_def relay.loop_all)
    with stream_delivered [OF d] show ?thesis by simp
  qed
  moreover have "set ?batch = set (unpublished b)"
    using few by (simp add: pending_messages_def unpublished_def)
  ultimately show ?thesis by simp
qed

text \<open>The notifier handles the first delivery of an entry.\<close>

lemma notifier_tells:
  assumes read: "read_message env entry = Inr e" and txt_e: "render e = Some t"
    and fits: "fits_columns e t" and new: "\<And>n. n \<in> set rows \<Longrightarrow> nt_event_id n \<noteq> ev_event_id e"
    and limit: "1 \<le> cs_max_deliveries cfg"
    and sent: "send env gateway (ev_event_id e) (ev_client_id e) t v = (v1, Inr ref)" "length ref \<le> 64"
  obtains rows' row where
    "handle env rd gateway clock cfg i entry 1 rows v = (rows', ack rd cfg i v1, Inr OutSent)"
    "row \<in> set (list_notifications rows' (ev_booking_id e))"
    "nt_status row = Sent" "nt_client_id row = ev_client_id e" "nt_text row = t" "nt_event_id row = ev_event_id e"
proof -
  have "get_by nt_event_id (ev_event_id e) rows = None"
    using new by (auto simp: get_by_None_iff image_iff dest: sym)
  then have claim: "already_done (clock v) e t rows = (rows @ [new_notification (clock v) e t], Inr False)"
    using fits by (simp add: already_done_def)
  let ?row = "(new_notification (clock v) e t)\<lparr>nt_status := Sent, nt_gateway_message_id := Some ref, nt_updated_at := clock v1\<rparr>"
  let ?rows = "update_notification (ev_event_id e)
    (\<lambda>n. n\<lparr>nt_status := Sent, nt_gateway_message_id := Some ref, nt_updated_at := clock v1\<rparr>)
    (rows @ [new_notification (clock v) e t])"
  have "handle env rd gateway clock cfg i entry 1 rows v = (?rows, ack rd cfg i v1, Inr OutSent)"
    using read txt_e limit claim sent by (simp add: handle_def mark_sent_def)
  moreover have "?row \<in> set ?rows"
    by (simp add: update_notification_def update_where_def new_notification_def)
  then have "?row \<in> set (list_notifications ?rows (ev_booking_id e))"
    by (simp add: list_notifications_def new_notification_def)
  ultimately show thesis by (rule that) (simp_all add: new_notification_def)
qed

section \<open>The whole road\<close>

definition confirmation_text :: "slot \<Rightarrow> string" where
  "confirmation_text sl = ''Your booking on '' @ strftime_minutes (utc_datetime (sl_starts_at sl)) @ '' is confirmed.''"

text \<open>The event a confirmation announces, as the notifier reads it.\<close>

lemma confirmation_read:
  assumes "bk_client_id k \<noteq> []" "valid_fields (utc_datetime (sl_starts_at sl))"
  shows "\<exists>e. read_message env (entry_of (event_message n Confirmed EventConfirmed (bk_id k) (bk_client_id k) sl t)) = Inr e
    \<and> ev_event_id e = uuid_str n \<and> ev_booking_id e = uuid_str (bk_id k) \<and> ev_client_id e = bk_client_id k
    \<and> ev_type e = ''booking.confirmed''
    \<and> render e = Some (confirmation_text sl)"
proof -
  obtain payload where p: "build_event n Confirmed (bk_id k) (sl_id sl) (bk_client_id k) (sl_starts_at sl) t = Inr payload"
    by (simp add: build_event_def)
  let ?m = "event_message n Confirmed EventConfirmed (bk_id k) (bk_client_id k) sl t"
  have "field_get (entry_of ?m) ''data'' = json_dumps (JObj payload)"
    using p by (simp add: entry_of_def published_fields_def field_get_def event_message_def)
  with p assms obtain ty where "event_type Confirmed = Some ty"
    "read_message env (entry_of ?m) = Inr \<lparr>ev_event_id = uuid_str n, ev_type = event_value ty,
       ev_booking_id = uuid_str (bk_id k), ev_client_id = bk_client_id k, ev_starts_at = utc_datetime (sl_starts_at sl)\<rparr>"
    by (rule published_event_read)
  then show ?thesis by (auto simp: event_type_def render_texts confirmation_text_def)
qed

lemma confirmation_told:
  assumes client: "bk_client_id k \<noteq> []" "length (bk_client_id k) \<le> 64" and date: "valid_fields (utc_datetime (sl_starts_at sl))"
    and id: "n < 2 ^ 128" "\<And>x. x \<in> set rows \<Longrightarrow> \<exists>m < n. nt_event_id x = uuid_str m" and limit: "1 \<le> cs_max_deliveries cfg"
    and accepts: "\<And>key text v. \<exists>v1 ref. send env gateway key (bk_client_id k) text v = (v1, Inr ref) \<and> length ref \<le> 64"
  obtains rows' row where
    "handle env rd gateway clock cfg i (entry_of (event_message n Confirmed EventConfirmed (bk_id k) (bk_client_id k) sl t)) 1 rows v
      = (rows', ack rd cfg i (fst (gateway (send_request (nt_event_id row) (bk_client_id k) (confirmation_text sl)) v)), Inr OutSent)"
    "row \<in> set (list_notifications rows' (uuid_str (bk_id k)))" "nt_status row = Sent" "nt_client_id row = bk_client_id k"
    "nt_text row = confirmation_text sl"
proof -
  let ?m = "event_message n Confirmed EventConfirmed (bk_id k) (bk_client_id k) sl t"
  obtain e where e: "read_message env (entry_of ?m) = Inr e" "ev_event_id e = uuid_str n"
    "ev_booking_id e = uuid_str (bk_id k)" "ev_client_id e = bk_client_id k" "ev_type e = ''booking.confirmed''"
    "render e = Some (confirmation_text sl)"
    using confirmation_read [OF client(1) date] by blast
  have fits: "fits_columns e (confirmation_text sl)"
    using e client(2) by (simp add: fits_columns_def confirmation_text_def strftime_minutes_length)
  have new: "nt_event_id x \<noteq> ev_event_id e" if "x \<in> set rows" for x
  proof -
    obtain m where "m < n" "nt_event_id x = uuid_str m" using id(2) [OF \<open>x \<in> set rows\<close>] by blast
    then show ?thesis using e(2) id(1) uuid_text.encode_eq_iff [of m n] by auto
  qed
  obtain v1 ref where sent: "send env gateway (ev_event_id e) (ev_client_id e) (confirmation_text sl) v = (v1, Inr ref)"
    "length ref \<le> 64"
    using accepts e(4) by metis
  obtain rows' r where told: "handle env rd gateway clock cfg i (entry_of ?m) 1 rows v = (rows', ack rd cfg i v1, Inr OutSent)"
    "r \<in> set (list_notifications rows' (ev_booking_id e))" "nt_status r = Sent" "nt_client_id r = ev_client_id e"
    "nt_text r = confirmation_text sl" "nt_event_id r = ev_event_id e"
    by (rule notifier_tells [OF e(1,6) fits new limit sent, where rows = rows])
  have "v1 = fst (gateway (send_request (nt_event_id r) (bk_client_id k) (confirmation_text sl)) v)"
    using send_world [of env gateway "ev_event_id e" "ev_client_id e" "confirmation_text sl" v] sent(1) told(6) e(4) by simp
  with told e(3,4) that [of rows' r] show thesis by simp
qed

text \<open>What a confirmation adds to the tables of booking.\<close>

lemma row_changed_parts:
  assumes inv: "booking_inv b" and k: "k \<in> set (bookings b)" "bk_status k = Pending"
    and sl: "get_by sl_id (bk_slot_id k) (slots b) = Some sl"
  shows "booking_inv (row_changed b k t)"
    "get_by bk_id (bk_id k) (bookings (row_changed b k t)) = Some (set_status Confirmed t k)"
    "unpublished (row_changed b k t) = unpublished b
       @ [event_message (next_uuid b) Confirmed EventConfirmed (bk_id k) (bk_client_id k) sl t]"
proof -
  have wf: "wf_db b" using inv by (simp add: booking_inv_def)
  have one: "filter (row_is k) (bookings b) = [k]"
    by (rule filter_row_is [OF wf_dbD(2) [OF wf] k(1)]) (simp add: row_is_def)
  show "booking_inv (row_changed b k t)"
    unfolding row_changed_def using inv k(2)
    by (intro apply_change_inv) (auto simp: event_type_def row_is_def)
  show "get_by bk_id (bk_id k) (bookings (row_changed b k t)) = Some (set_status Confirmed t k)"
    using get_by_update_where [of bk_id "set_status Confirmed t" "bk_id k" "row_is k" "bookings b"]
      get_by_eq_Some [OF wf_dbD(2) [OF wf] k(1)]
    by (simp add: row_changed_def row_is_def)
  show "unpublished (row_changed b k t) = unpublished b
       @ [event_message (next_uuid b) Confirmed EventConfirmed (bk_id k) (bk_client_id k) sl t]"
    using one sl by (simp add: row_changed_def unpublished_def event_message_def)
qed

text \<open>
  C11. From a charge to the message. PayStub reports the charge of a pending booking with a signed webhook;
  one turn of the relay of payments, which has nothing else to deliver, one turn of the relay of booking and one
  delivery to the notifier later, the payment is settled, the booking is confirmed, nothing waits in either
  outbox, and the client has been told: the gateway was sent the text with the start of the slot, and the
  notifications of the booking show it as sent.
\<close>

theorem charge_reaches_the_client:
  assumes "booking_inv b" "next_uuid b < 2 ^ 128" "k \<in> set (bookings b)" "bk_status k = Pending"
    and "sl \<in> set (slots b)" "sl_id sl = bk_slot_id k" "valid_fields (utc_datetime (sl_starts_at sl))"
    and "bk_client_id k \<noteq> []" "length (bk_client_id k) \<le> 64" "length (unpublished b) < BATCH_SIZE"
    and "pay_wf s" "p \<in> set (payments s)" "pm_booking_id p = bk_id k" "pm_status p = PayPending" "undelivered s = []"
    and "parse_webhook read_json body = Some ev" "we_type ev = ''charge.succeeded''" "we_reference ev = uuid_str (pm_id p)"
      "we_id ev \<notin> pe_event_id ` set (provider_events s)"
    and "\<forall>n \<in> set rows. nt_event_id n \<in> (\<lambda>m. uuid_str (ob_id m)) ` set (outbox b)" "1 \<le> cs_max_deliveries cfg"
    and "\<And>key text v. \<exists>v1 ref. send env gateway key (bk_client_id k) text v = (v1, Inr ref) \<and> length ref \<le> 64"
    and "pay_serve read_json secret http t1 (PostWebhook body (Some (sign body secret))) (s, w) = ((s1, w1), reply)"
      "process_pending (booking_server render1 t2) paystub describe (\<lambda>_. False) t2 PAY_BATCH_SIZE s1 b = (s2, b2, delivered_commands)"
      "publish_pending redis_stream (\<lambda>_. False) t3 BATCH_SIZE b2 log = (b3, log3, published)"
  shows "reply = PayAnswer 200 (AckOut Processed) \<and> undelivered s2 = [] \<and> unpublished b3 = []
    \<and> (\<exists>q \<in> set (payments s2). pm_id q = pm_id p \<and> pm_status q = PaySucceeded \<and> pm_booking_id q = bk_id k)
    \<and> get_by bk_id (bk_id k) (bookings b3) = Some (set_status Confirmed t2 k)
    \<and> (\<exists>entry \<in> set (drop (length log) log3). \<exists>rows' row.
        handle env rd gateway clock cfg i entry 1 rows v
          = (rows', ack rd cfg i (fst (gateway (send_request (nt_event_id row) (bk_client_id k) (confirmation_text sl)) v)), Inr OutSent)
        \<and> row \<in> set (list_notifications rows' (uuid_str (bk_id k))) \<and> nt_status row = Sent
        \<and> nt_client_id row = bk_client_id k \<and> nt_text row = confirmation_text sl)"
proof -
  have wf: "wf_db b" using assms(1) by (simp add: booking_inv_def)
  note u = pay_wfD(8) [OF assms(11,12)] pay_wfD(7) [OF assms(11,12)]
  have got: "get_by bk_id (pm_booking_id p) (bookings b) = Some k"
    using get_by_eq_Some [OF wf_dbD(2) [OF wf] assms(3)] assms(13) by simp
  have sl: "get_by sl_id (bk_slot_id k) (slots b) = Some sl"
    using get_by_eq_Some [OF wf_dbD(1) [OF wf] assms(5)] assms(6) by simp
  obtain t where t: "pay_serve read_json secret http t1 (PostWebhook body (Some (sign body secret))) (s, w)
      = ((t, w), PayAnswer 200 (AckOut Processed))"
    and cmds: "commands t = commands s @ [\<lparr>cm_id = pay_next_uuid s, cm_topic = CONFIRM_BOOKING, cm_payload = confirm_payload p,
       cm_published_at = None, cm_attempts = 0, cm_last_error = None\<rparr>]" (is "_ = _ @ [?c]")
    and paid: "payments t = map (\<lambda>q. if pm_id q = pm_id p then q\<lparr>pm_status := PaySucceeded, pm_updated_at := t1\<rparr> else q) (payments s)"
    by (rule webhook_pays [OF assms(11,12,14,16-19)])
  have s1: "s1 = t" "reply = PayAnswer 200 (AckOut Processed)" using t assms(23) by simp_all
  have one: "undelivered t = [?c]" using assms(15) cmds by (simp add: undelivered_def)
  have turn: "s2 = pay_mark t2 ?c t" "b2 = row_changed b k t2"
    using relay_confirms [OF wf got assms(4) u one] assms(24) s1(1) by simp_all
  have clean: "undelivered s2 = []" using one by (simp add: turn(1) undelivered_mark)
  note row = row_changed_parts [OF assms(1,3,4) sl, of t2]
  note out = relay_publishes [OF row(1) _ assms(25) [unfolded turn(2)]]
  let ?m = "event_message (next_uuid b) Confirmed EventConfirmed (bk_id k) (bk_client_id k) sl t2"
  have few: "length (unpublished (row_changed b k t2)) \<le> BATCH_SIZE" using assms(10) row(3) by simp
  have "ob_id m < next_uuid b" if "m \<in> set (outbox b)" for m using wf_dbD(8) [OF wf] that by blast
  then have known: "\<And>n. n \<in> set rows \<Longrightarrow> \<exists>m < next_uuid b. nt_event_id n = uuid_str m" using assms(20) by blast
  obtain rows' r where told: "handle env rd gateway clock cfg i (entry_of ?m) 1 rows v
      = (rows', ack rd cfg i (fst (gateway (send_request (nt_event_id r) (bk_client_id k) (confirmation_text sl)) v)), Inr OutSent)"
    "r \<in> set (list_notifications rows' (uuid_str (bk_id k)))" "nt_status r = Sent" "nt_client_id r = bk_client_id k"
    "nt_text r = confirmation_text sl"
    by (rule confirmation_told [OF assms(8,9,7,2) known assms(21,22)])
  have "entry_of ?m \<in> set (drop (length log) log3)" using out [OF few] row(3) by simp
  moreover have "\<exists>q \<in> set (payments s2). pm_id q = pm_id p \<and> pm_status q = PaySucceeded \<and> pm_booking_id q = bk_id k"
    using assms(12,13)
    by (intro bexI [of _ "p\<lparr>pm_status := PaySucceeded, pm_updated_at := t1\<rparr>"])
      (auto simp: turn(1) pay_mark_def paid image_iff)
  moreover have "unpublished b3 = []" "get_by bk_id (bk_id k) (bookings b3) = Some (set_status Confirmed t2 k)"
    using out [OF few] row(2) by simp_all
  ultimately show ?thesis
    using s1(2) clean told by blast
qed

text \<open>The webhook of the example, and a gateway that accepts everything.\<close>

definition charge_event :: json where
  "charge_event = JObj [(''id'', JStr ''e1''), (''type'', JStr ''charge.succeeded''),
     (''data'', JObj [(''charge_id'', JStr ''ch''), (''reference'', JStr (uuid_str 0))])]"

definition kind_gateway :: "http_request list transport" where
  "kind_gateway rq seen = (seen @ [rq], Reply 201 (Some (JObj [(''id'', JStr ''g1'')])))"

definition idle_redis :: "'w redis" where
  "idle_redis = \<lparr>rd_group_create = (\<lambda>s g w. (w, None)), rd_pending = (\<lambda>s g n idle w. (w, [])),
     rd_claim = (\<lambda>s g c idle ids w. (w, [])), rd_read = (\<lambda>g c s n blk w. (w, [])), rd_ack = (\<lambda>s g i w. w), rd_add = (\<lambda>s f w. w)\<rparr>"

theorem charge_reaches_the_client_witness:
  "\<exists>s1 s2 b2 b3 log3 n m entry rows' row.
      pay_serve (\<lambda>_. Some charge_event) ''secret'' example_paystub 20 (PostWebhook [1] (Some (sign [1] ''secret'')))
        (example_pay_db\<lparr>payments := [example_payment\<lparr>pm_booking_id := 1\<rparr>]\<rparr>, ()) = ((s1, ()), PayAnswer 200 (AckOut Processed))
    \<and> process_pending (booking_server (\<lambda>a. JNull) 30) (\<lambda>rq w. (w, HTTPError)) (\<lambda>_. ''boom'') (\<lambda>_. False) 30 PAY_BATCH_SIZE s1 example_db
        = (s2, b2, n)
    \<and> publish_pending redis_stream (\<lambda>_. False) 40 BATCH_SIZE b2 [] = (b3, log3, m)
    \<and> get_by bk_id 1 (bookings b3) = Some (set_status Confirmed 30 example_booking)
    \<and> entry \<in> set log3
    \<and> handle sample_env idle_redis kind_gateway (\<lambda>_. 50) default_settings ''1-0'' entry 1 [] []
        = (rows', [send_request (nt_event_id row) ''c'' (confirmation_text example_slot)], Inr OutSent)
    \<and> row \<in> set (list_notifications rows' (uuid_str 1)) \<and> nt_status row = Sent"
proof -
  let ?s = "example_pay_db\<lparr>payments := [example_payment\<lparr>pm_booking_id := 1\<rparr>]\<rparr>"
  let ?ev = "\<lparr>we_id = ''e1'', we_type = ''charge.succeeded'', we_reference = uuid_str 0\<rparr>"
  have k: "example_booking \<in> set (bookings example_db)" "bk_status example_booking = Pending" "bk_id example_booking = 1"
    "example_slot \<in> set (slots example_db)" "sl_id example_slot = bk_slot_id example_booking" "bk_client_id example_booking = ''c''"
    "next_uuid example_db < 2 ^ 128" "length (unpublished example_db) < BATCH_SIZE" "bk_client_id example_booking \<noteq> []"
    "length (bk_client_id example_booking) \<le> 64"
    by (simp_all add: example_defs unpublished_def BATCH_SIZE_def)
  have "fst (ord2ymd (5000 div days 1 + epoch_ord)) = 1970" by code_simp
  then have date: "valid_fields (utc_datetime (sl_starts_at example_slot))"
    by (intro valid_utc_datetime) (simp_all add: example_slot_def)
  have wf: "pay_wf ?s" by (simp add: pay_wf_def pay_violated_constraint_def example_pay_db_def example_payment_def)
  have ev: "parse_webhook (\<lambda>_. Some charge_event) [1] = Some ?ev"
    by (simp add: parse_webhook_def charge_event_def dict_get_def short_text_def any_text_def printable_def)
  have p: "example_payment\<lparr>pm_booking_id := 1\<rparr> \<in> set (payments ?s)" "undelivered ?s = []"
    "pm_booking_id (example_payment\<lparr>pm_booking_id := 1\<rparr>) = bk_id example_booking"
    "pm_status (example_payment\<lparr>pm_booking_id := 1\<rparr>) = PayPending" "we_id ?ev \<notin> pe_event_id ` set (provider_events ?s)"
    "we_type ?ev = ''charge.succeeded''" "we_reference ?ev = uuid_str (pm_id (example_payment\<lparr>pm_booking_id := 1\<rparr>))"
    by (simp_all add: example_pay_db_def example_payment_def undelivered_def k)
  have gate: "\<exists>v1 ref. send sample_env kind_gateway key (bk_client_id example_booking) words v = (v1, Inr ref) \<and> length ref \<le> 64"
    for key words v by (simp add: send_def kind_gateway_def text_field_def dict_get_def)
  obtain s1 w1 reply where r1: "pay_serve (\<lambda>_. Some charge_event) ''secret'' example_paystub 20
      (PostWebhook [1] (Some (sign [1] ''secret''))) (?s, ()) = ((s1, w1), reply)" by (metis prod.exhaust)
  obtain s2 b2 n where r2: "process_pending (booking_server (\<lambda>a. JNull) 30) (\<lambda>rq w. (w, HTTPError)) (\<lambda>_. ''boom'')
      (\<lambda>_. False) 30 PAY_BATCH_SIZE s1 example_db = (s2, b2, n)" by (metis prod_cases3)
  obtain b3 log3 m where r3: "publish_pending redis_stream (\<lambda>_. False) 40 BATCH_SIZE b2 [] = (b3, log3, m)"
    by (metis prod_cases3)
  have rows: "\<forall>x \<in> set []. nt_event_id x \<in> (\<lambda>m. uuid_str (ob_id m)) ` set (outbox example_db)" by simp
  have limit: "1 \<le> cs_max_deliveries default_settings" by (simp add: default_settings_def)
  note all = charge_reaches_the_client [OF example_inv k(7,1,2,4,5) date k(9,10,8) wf p(1,3,4,2) ev p(6,7,5) rows limit gate r1 r2 r3,
      where rd = idle_redis and clock = "\<lambda>_. 50" and i = "''1-0''" and v = "[]"]
  from all obtain entry rows' row where "entry \<in> set log3"
    "handle sample_env idle_redis kind_gateway (\<lambda>_. 50) default_settings ''1-0'' entry 1 [] []
      = (rows', ack idle_redis default_settings ''1-0'' (fst (kind_gateway (send_request (nt_event_id row) (bk_client_id example_booking)
          (confirmation_text example_slot)) [])), Inr OutSent)"
    "row \<in> set (list_notifications rows' (uuid_str (bk_id example_booking)))" "nt_status row = Sent"
    by auto
  moreover have "get_by bk_id 1 (bookings b3) = Some (set_status Confirmed 30 example_booking)" "reply = PayAnswer 200 (AckOut Processed)"
    using all k(3) by simp_all
  ultimately show ?thesis
    using r1 r2 r3 by (auto simp: k(3,6) kind_gateway_def ack_def idle_redis_def)
qed

end
