(* ===== verification/System_Contract.thy ===== *)
theory System_Contract
  imports Booking_Api Booking_Delivery Notifier_Properties
begin

text \<open>
  The published contract of the event stream: \<open>BookingEventV1\<close> and the other constraints of
  \<open>services/booking/src/booking/schemas.py\<close>, and that whatever requests booking serves, every message its outbox
  can hold keeps the contract and is told to the client by the notifier.
\<close>

section \<open>The schemas\<close>

definition external_id :: "string \<Rightarrow> bool" where
  "external_id s \<longleftrightarrow> 1 \<le> length s \<and> length s \<le> MAX_EXTERNAL_ID_LENGTH \<and> matches_id s"

definition MAX_PRICE_MINOR :: int where
  "MAX_PRICE_MINOR = 1000000000"

text \<open>A datetime of Python, years 1 to 9999, read back in UTC.\<close>

definition in_calendar :: "moment \<Rightarrow> bool" where
  "in_calendar t \<longleftrightarrow> valid_fields (utc_datetime t)"

text \<open>
  What validation leaves of a request: \<open>SlotCreate\<close> wants aware datetimes and a price in its range, the query of
  \<open>GET /slots\<close> an external id. A slot that starts within hours of the end of year 9999 in another zone is left out.
\<close>

fun valid_request :: "api_request \<Rightarrow> bool" where
  "valid_request (PostSlots c starts ends price) =
     (dt_offset starts \<noteq> None \<and> dt_offset ends \<noteq> None \<and> 0 < price \<and> price \<le> MAX_PRICE_MINOR
      \<and> (\<forall>t. moment_of starts = Some t \<longrightarrow> in_calendar t))"
| "valid_request (GetSlots master day) = external_id master"
| "valid_request _ = True"

record event_v1 =
  v1_event_id :: uuid
  v1_type :: booking_event_type
  v1_version :: int
  v1_occurred_at :: datetime
  v1_booking_id :: uuid
  v1_slot_id :: uuid
  v1_client_id :: string
  v1_starts_at :: datetime

definition event_type_named :: "json \<Rightarrow> booking_event_type option" where
  "event_type_named v = find (\<lambda>ty. v = JStr (event_value ty)) [EventConfirmed, EventCancelled, EventExpired]"

definition v1_uuid :: "json \<Rightarrow> uuid option" where
  "v1_uuid v = (case v of JStr s \<Rightarrow> uuid_of_string s | _ \<Rightarrow> None)"

definition aware_field :: "(string \<Rightarrow> datetime option) \<Rightarrow> json \<Rightarrow> datetime option" where
  "aware_field other v =
     (case v of
        JStr s \<Rightarrow> (case fromisoformat other s of Some d \<Rightarrow> if dt_offset d = None then None else Some d | None \<Rightarrow> None)
      | _ \<Rightarrow> None)"

definition id_field :: "json \<Rightarrow> string option" where
  "id_field v = (case v of JStr s \<Rightarrow> if external_id s then Some s else None | _ \<Rightarrow> None)"

text \<open>\<open>BookingEventV1.model_validate\<close>; \<open>None\<close> is a \<open>ValidationError\<close>.\<close>

definition booking_event_v1 :: "(string \<Rightarrow> datetime option) \<Rightarrow> (string \<times> json) list \<Rightarrow> event_v1 option" where
  "booking_event_v1 other event =
     (case (v1_uuid (dict_get event ''event_id''), event_type_named (dict_get event ''type''),
            aware_field other (dict_get event ''occurred_at''), v1_uuid (dict_get event ''booking_id''),
            v1_uuid (dict_get event ''slot_id''), id_field (dict_get event ''client_id''),
            aware_field other (dict_get event ''starts_at'')) of
        (Some i, Some ty, Some at, Some b, Some sl, Some c, Some starts) \<Rightarrow>
          if dict_get event ''version'' = JInt 1
          then Some \<lparr>v1_event_id = i, v1_type = ty, v1_version = 1, v1_occurred_at = at, v1_booking_id = b,
                     v1_slot_id = sl, v1_client_id = c, v1_starts_at = starts\<rparr>
          else None
      | _ \<Rightarrow> None)"

section \<open>Serving requests\<close>

text \<open>
  One request from its validation to its answer, the write of a status change whose row was read earlier, or a batch of
  a relay, on the database.
\<close>

inductive api_step ::
  "text_reader \<Rightarrow> api_settings \<Rightarrow> 'w transport \<Rightarrow> 'v publisher \<Rightarrow> booking_db \<Rightarrow> booking_db \<Rightarrow> bool"
  for rd st and http :: "'w transport" and publish :: "'v publisher" where
  api_request:
    "serve rd st http auth_now now req (s, w) = ((s', w'), reply) \<Longrightarrow> valid_request req \<Longrightarrow> in_calendar now \<Longrightarrow>
     api_step rd st http publish s s'"
| api_write:
    "r \<in> set (bookings s) \<Longrightarrow> same_booking b r \<Longrightarrow> target \<in> set (ALLOWED_TRANSITIONS (bk_status b)) \<Longrightarrow>
     in_calendar now \<Longrightarrow> api_step rd st http publish s (fst (write_status s b target now))"
| api_relay:
    "api_step rd st http publish s (fst (publish_pending publish locked now n s v))"

section \<open>What the messages say\<close>

definition tells :: "booking_db \<Rightarrow> outbox_message \<Rightarrow> bool" where
  "tells s m \<longleftrightarrow>
     (\<exists>b \<in> set (bookings s). \<exists>sl \<in> set (slots s). \<exists>st ty t. bk_slot_id b = sl_id sl \<and> event_type st = Some ty
        \<and> in_calendar t \<and> ob_topic m = event_value ty
        \<and> build_event (ob_id m) st (bk_id b) (sl_id sl) (bk_client_id b) (sl_starts_at sl) t = Inr (ob_payload m))"

definition contract_inv :: "booking_db \<Rightarrow> bool" where
  "contract_inv s \<longleftrightarrow>
     (\<forall>b \<in> set (bookings s). external_id (bk_client_id b)) \<and> (\<forall>sl \<in> set (slots s). in_calendar (sl_starts_at sl))
     \<and> (\<forall>m \<in> set (outbox s). tells s m)"

text \<open>A message says the same of a later database, and as a copy that only differs in its delivery.\<close>

lemma tells_later:
  assumes "tells s m" "keeps_bookings s t" "set (slots s) \<subseteq> set (slots t)" "sent_form m' = sent_form m"
  shows "tells t m'"
proof -
  obtain b sl st ty x where b: "b \<in> set (bookings s)" "sl \<in> set (slots s)" "bk_slot_id b = sl_id sl"
    "event_type st = Some ty" "in_calendar x" "ob_topic m = event_value ty"
    "build_event (ob_id m) st (bk_id b) (sl_id sl) (bk_client_id b) (sl_starts_at sl) x = Inr (ob_payload m)"
    using assms(1) by (auto simp: tells_def)
  then obtain r where "r \<in> set (bookings t)" "bk_id r = bk_id b" "bk_slot_id r = bk_slot_id b" "bk_client_id r = bk_client_id b"
    using assms(2) by (force simp: keeps_bookings_def same_booking_def)
  moreover have "sl \<in> set (slots t)" using assms(3) b(2) by blast
  ultimately show ?thesis
    using b assms(4) unfolding tells_def by (intro bexI [of _ r] bexI [of _ sl] exI [of _ st] exI [of _ ty] exI [of _ x])
      (simp_all add: sent_form_def)
qed

lemma new_messages:
  "m \<in> set (event_messages n st ty xs sl now) \<Longrightarrow> \<exists>(bid, c) \<in> set xs. m = event_message (ob_id m) st ty bid c sl now"
  by (induction n st ty xs sl now rule: event_messages.induct) auto

lemma contract_change:
  assumes inv: "contract_inv s" and sl: "sl \<in> set (slots s)" and ty: "event_type st = Some ty"
    and here: "\<And>b. b \<in> set (bookings s) \<Longrightarrow> P b \<Longrightarrow> bk_slot_id b = sl_id sl" and now: "in_calendar now"
  shows "contract_inv (apply_change s P st ty sl now)"
proof -
  let ?t = "apply_change s P st ty sl now"
  have keeps: "keeps_bookings s ?t" by (rule keeps_apply_change)
  have "tells ?t m" if "m \<in> set (outbox ?t)" for m
  proof (cases "m \<in> set (outbox s)")
    case True
    with inv show ?thesis by (auto simp: contract_inv_def intro: tells_later [OF _ keeps])
  next
    case False
    with that have "m \<in> set (event_messages (next_uuid s) st ty
        (map (\<lambda>b. (bk_id b, bk_client_id b)) (filter P (bookings s))) sl now)" by simp
    from new_messages [OF this] obtain b where b: "b \<in> set (bookings s)" "P b"
      and m: "m = event_message (ob_id m) st ty (bk_id b) (bk_client_id b) sl now" by auto
    obtain p where p: "build_event (ob_id m) st (bk_id b) (sl_id sl) (bk_client_id b) (sl_starts_at sl) now = Inr p"
      using build_event_announced [OF ty] by blast
    then have "ob_payload m = p" "ob_topic m = event_value ty" by (subst m, simp add: event_message_def)+
    with b sl here [OF b] ty now p have "tells s m"
      unfolding tells_def
      by (intro bexI [of _ b] bexI [of _ sl] exI [of _ st] exI [of _ ty] exI [of _ now]) simp_all
    then show ?thesis by (rule tells_later [OF _ keeps]) simp_all
  qed
  moreover have "external_id (bk_client_id b)" if "b \<in> set (bookings ?t)" for b
    using that inv by (auto simp: contract_inv_def set_update_where split: if_splits)
  ultimately show ?thesis using inv by (simp add: contract_inv_def)
qed

lemma contract_create:
  assumes "booking_inv s" "contract_inv s" "\<And>t. moment_of starts = Some t \<Longrightarrow> in_calendar t"
  shows "contract_inv (fst (create_slot s master starts ends price now))"
proof -
  have wf: "wf_db s" using assms(1) by (simp add: booking_inv_def)
  have "tells (s\<lparr>slots := slots s @ [sl], next_uuid := k\<rparr>) m" if "m \<in> set (outbox s)" for m sl k
    using assms(2) that by (auto simp: contract_inv_def intro: tells_later [OF _ keeps_same])
  with assms(2,3) show ?thesis
    by (auto simp: create_slot_cases [OF wf] Let_def contract_inv_def split: option.split)
qed

lemma contract_book:
  assumes inv: "booking_inv s" "contract_inv s" and client: "external_id client" and now: "in_calendar now"
  shows "contract_inv (fst (book_slot s sid client now ttl))"
proof -
  have wf: "wf_db s" using inv(1) by (simp add: booking_inv_def)
  have "contract_inv (insert_booking t b)" if "contract_inv t" "external_id (bk_client_id b)" for t b
  proof -
    have "keeps_bookings t (insert_booking t b)" by (rule keeps_insert) simp
    with that show ?thesis by (auto simp: contract_inv_def intro: tells_later)
  qed
  moreover have "contract_inv (apply_change s (stale_on sid now ttl) Expired EventExpired sl now)"
    if "get_by sl_id sid (slots s) = Some sl" for sl
    using that by (intro contract_change [OF inv(2) _ _ _ now]) (auto simp: event_type_def stale_on_def dest: get_by_SomeD)
  ultimately show ?thesis
    using inv(2) client by (auto simp: book_slot_cases [OF wf] Let_def split: option.split)
qed

lemma contract_write:
  assumes inv: "booking_inv s" "contract_inv s" and r: "r \<in> set (bookings s)" "same_booking b r"
    and ok: "target \<in> set (ALLOWED_TRANSITIONS (bk_status b))" and now: "in_calendar now"
  shows "contract_inv (fst (write_status s b target now))"
proof (cases "\<exists>q \<in> set (bookings s). row_is b q")
  case False
  then show ?thesis by (simp add: write_status_stale inv(2))
next
  case True
  have wf: "wf_db s" using inv(1) by (simp add: booking_inv_def)
  from True obtain q where q: "q \<in> set (bookings s)" "row_is b q" by blast
  with r have "q = r" using distinct_key_eq [OF wf_dbD(2) [OF wf]] by (simp add: row_is_def same_booking_def)
  with q r have same: "same_booking b q" by simp
  obtain ty where ty: "event_type target = Some ty"
    using ok by (cases "bk_status b"; cases target) (auto simp: event_type_def)
  obtain sl where sl: "get_by sl_id (bk_slot_id b) (slots s) = Some sl"
    using wf_dbD(1,3) [OF wf] q same by (metis get_by_eq_Some image_iff same_booking_def)
  have "bk_slot_id p = sl_id sl" if "p \<in> set (bookings s)" "row_is b p" for p
  proof -
    have "p = q" using that q distinct_key_eq [OF wf_dbD(2) [OF wf]] by (simp add: row_is_def)
    with same sl show ?thesis by (auto simp: same_booking_def dest: get_by_SomeD)
  qed
  with sl show ?thesis
    unfolding write_status_ok [OF wf q same ok ty sl] fst_conv
    by (intro contract_change [OF inv(2) _ ty _ now]) (auto dest: get_by_SomeD)
qed

lemma contract_status:
  assumes "booking_inv s" "contract_inv s" "in_calendar now"
  shows "contract_inv (fst (change_status s bid target now))"
proof (cases "\<exists>b. get_booking s bid = Inr b \<and> bk_status b \<noteq> target \<and> target \<in> set (ALLOWED_TRANSITIONS (bk_status b))")
  case True
  then obtain b where b: "get_booking s bid = Inr b" "bk_status b \<noteq> target" "target \<in> set (ALLOWED_TRANSITIONS (bk_status b))"
    by blast
  moreover have "b \<in> set (bookings s)" using b(1) assms(1) by (simp add: booking_inv_def get_booking_wf)
  ultimately show ?thesis
    using contract_write [OF assms(1,2) _ same_booking_refl _ assms(3)]
    by (simp add: change_status_def ensure_transition_def)
next
  case False
  then show ?thesis
    using assms(2) by (auto simp: change_status_def ensure_transition_def split: sum.split)
qed

lemma contract_delivery:
  assumes "contract_inv s" "delivery_only s t"
  shows "contract_inv t"
proof -
  have "tells t m" if "m \<in> set (outbox t)" for m
  proof -
    have "sent_form m \<in> set (map sent_form (outbox s))"
      using that assms(2) by (metis delivery_only_def image_eqI list.set_map)
    then obtain m0 where "m0 \<in> set (outbox s)" "sent_form m = sent_form m0" by auto
    with assms show ?thesis
      by (auto simp: contract_inv_def delivery_only_def intro: tells_later keeps_same)
  qed
  with assms show ?thesis by (simp add: contract_inv_def delivery_only_def)
qed

lemma caller_external: "caller rd st c now = Inr who \<Longrightarrow> external_id (subject who)"
  by (auto simp: caller_def external_id_def MAX_EXTERNAL_ID_LENGTH_def verify_token_signed identity_of_Inr claims_name_def
      matches_id_def Suc_le_eq split: option.splits)

lemma contract_serve:
  assumes inv: "booking_inv s" "contract_inv s" and ok: "valid_request req" and now: "in_calendar now"
    and run: "serve rd st http auth_now now req (s, w) = ((s', w'), reply)"
  shows "booking_inv s' \<and> contract_inv s'"
proof (cases req)
  case (PostSlots c starts ends price)
  then have "s' = s \<or> (\<exists>master. s' = fst (create_slot s master starts ends price now))"
    using run by (auto simp: guarded_def post_slots_def Let_def split: sum.splits prod.splits) (metis fst_conv)
  with inv create_slot_inv [OF inv(1)] contract_create [OF inv] ok PostSlots show ?thesis by auto
next
  case (PostBookings c sid)
  then have "s' = s \<or> (\<exists>who. caller rd st c auth_now = Inr who
      \<and> s' = fst (book_slot s sid (subject who) now (st_pending_ttl st)))"
    using run by (auto simp: guarded_def post_bookings_def a_client_def caller_as_Inr Let_def split: sum.splits prod.splits)
  with inv book_slot_inv [OF inv(1)] contract_book [OF inv _ now] caller_external show ?thesis by auto
next
  case (PostPayment c bid)
  then have "s' = s"
    using run by (auto simp: guarded_def post_payment_def Let_def split: sum.splits prod.splits)
  with inv show ?thesis by simp
next
  case (DeleteBooking c bid)
  then have "s' = s \<or> (\<exists>i. s' = fst (change_status s i Cancelled now))"
    using run by (auto simp: guarded_def delete_booking_def cancel_booking_def Let_def split: sum.splits prod.splits) (metis fst_conv)+
  with inv change_status_inv [OF inv(1)] contract_status [OF inv now] show ?thesis by auto
next
  case (PostConfirm bid)
  then have "s' = fst (change_status s bid Confirmed now)"
    using run by (auto simp: post_confirm_def split: prod.splits)
  with inv change_status_inv [OF inv(1)] contract_status [OF inv now] show ?thesis by simp
qed (use run inv in \<open>auto simp: guarded_def get_bookings_def get_booking_by_id_def split: sum.splits prod.splits\<close>)

interpretation contract: invariant_system "\<lambda>s. s = empty_db" "api_step rd st http publish"
    "\<lambda>s. booking_inv s \<and> contract_inv s"
  for rd st and http :: "'w transport" and publish :: "'v publisher"
proof
  fix s t
  show "s = empty_db \<Longrightarrow> booking_inv s \<and> contract_inv s"
    using empty_inv by (simp add: contract_inv_def empty_db_def)
  assume inv: "booking_inv s \<and> contract_inv s" and "api_step rd st http publish s t"
  from this(2) show "booking_inv t \<and> contract_inv t"
  proof cases
    case (api_request auth_now now req w w' reply)
    from contract_serve [OF conjunct1 [OF inv] conjunct2 [OF inv] api_request(2,3,1)] show ?thesis .
  next
    case (api_write r b target now)
    with inv show ?thesis by (simp add: contract_write write_status_inv)
  next
    case (api_relay locked now n v)
    have only: "delivery_only s t" unfolding api_relay by (rule publish_pending_delivery_only)
    with inv show ?thesis by (simp add: contract_delivery [OF _ only] delivery_only_inv [OF only])
  qed
qed

section \<open>What subscribers can rely on\<close>

lemma event_of_contract:
  assumes p: "build_event i st b sl c starts at = Inr event" and ty: "event_type st = Some ty"
    and ids: "i < 2 ^ 128" "b < 2 ^ 128" "sl < 2 ^ 128" and c: "external_id c"
    and dates: "in_calendar starts" "in_calendar at"
  shows "booking_event_v1 other event = Some \<lparr>v1_event_id = i, v1_type = ty, v1_version = 1,
    v1_occurred_at = utc_datetime at, v1_booking_id = b, v1_slot_id = sl, v1_client_id = c, v1_starts_at = utc_datetime starts\<rparr>"
proof -
  obtain ty' where "event_type st = Some ty'" and event: "event = [(''event_id'', JStr (uuid_str i)), (''type'', JStr (event_value ty')),
       (''version'', JInt 1), (''occurred_at'', JStr (isoformat (utc_datetime at))),
       (''booking_id'', JStr (uuid_str b)), (''slot_id'', JStr (uuid_str sl)),
       (''client_id'', JStr c), (''starts_at'', JStr (isoformat (utc_datetime starts)))]"
    using p by (rule build_event_payload)
  with ty have "ty' = ty" by simp
  moreover have "event_type_named (JStr (event_value ty)) = Some ty"
    by (cases ty) (simp_all add: event_type_named_def)
  moreover have "aware_field other (JStr (isoformat (utc_datetime t))) = Some (utc_datetime t)" if "in_calendar t" for t
    using that fromisoformat_isoformat by (simp add: aware_field_def in_calendar_def utc_datetime_def Let_def split: prod.split)
  ultimately show ?thesis
    using ids c dates by (simp add: booking_event_v1_def event dict_get_def v1_uuid_def uuid_roundtrip id_field_def)
qed

text \<open>
  C12. The published contract holds of everything booking can publish. Whatever valid requests it has served, with
  status changes that interleave and relays at work, each message of the outbox is about a booking and its slot, keeps
  \<open>BookingEventV1\<close> (an external id as the client, a known type, aware datetimes, version 1) with the ids of the
  rows it is about, and is read by the notifier as the same event (type, ids, client and start), with a text for the client that fits the columns of its table:
  no published event ends in the dead-letter stream because of what it says. As long as ids have 128 bits.
\<close>

theorem published_events_keep_contract:
  assumes "reachable_from (\<lambda>s. s = empty_db) (api_step rd st http publish) s" "m \<in> set (outbox s)" "next_uuid s \<le> 2 ^ 128"
  shows "\<exists>b \<in> set (bookings s). \<exists>sl \<in> set (slots s). \<exists>v e t. bk_slot_id b = sl_id sl
    \<and> booking_event_v1 other (ob_payload m) = Some v \<and> v1_event_id v = ob_id m \<and> event_value (v1_type v) = ob_topic m
    \<and> v1_booking_id v = bk_id b \<and> v1_slot_id v = sl_id sl \<and> v1_client_id v = bk_client_id b
    \<and> v1_starts_at v = utc_datetime (sl_starts_at sl)
    \<and> read_message env (published_fields (ob_topic m) (ob_payload m)) = Inr e \<and> ev_event_id e = uuid_str (ob_id m)
    \<and> ev_type e = ob_topic m \<and> ev_booking_id e = uuid_str (bk_id b) \<and> ev_client_id e = bk_client_id b
    \<and> ev_starts_at e = utc_datetime (sl_starts_at sl) \<and> render e = Some t \<and> fits_columns e t"
proof -
  from contract.reachable_inv [OF assms(1)] have wf: "wf_db s" and inv: "contract_inv s" by (auto simp: booking_inv_def)
  with assms(2) obtain b sl st ty x where b: "b \<in> set (bookings s)" and sl: "sl \<in> set (slots s)" "bk_slot_id b = sl_id sl"
    and ty: "event_type st = Some ty" and x: "in_calendar x" and topic: "ob_topic m = event_value ty"
    and p: "build_event (ob_id m) st (bk_id b) (sl_id sl) (bk_client_id b) (sl_starts_at sl) x = Inr (ob_payload m)"
    unfolding contract_inv_def tells_def by blast
  have ids: "ob_id m < 2 ^ 128" "bk_id b < 2 ^ 128" "sl_id sl < 2 ^ 128"
    using wf_dbD(6-8) [OF wf] assms(2,3) b sl(1) by (meson less_le_trans)+
  have c: "external_id (bk_client_id b)" and date: "in_calendar (sl_starts_at sl)"
    using inv b sl(1) by (auto simp: contract_inv_def)
  have data: "field_get (published_fields (ob_topic m) (ob_payload m)) ''data'' = json_dumps (JObj (ob_payload m))"
    by (simp add: published_fields_def field_get_def)
  have "bk_client_id b \<noteq> []" using c by (auto simp: external_id_def)
  from published_event_read [OF p this date [unfolded in_calendar_def] data, of env] ty
  obtain e where e: "read_message env (published_fields (ob_topic m) (ob_payload m)) = Inr e"
    "ev_event_id e = uuid_str (ob_id m)" "ev_type e = event_value ty" "ev_booking_id e = uuid_str (bk_id b)"
    "ev_client_id e = bk_client_id b" "ev_starts_at e = utc_datetime (sl_starts_at sl)"
    by (metis event.select_convs(1-5) option.inject)
  obtain t where t: "render e = Some t" using render_texts [of e] e(3) by (cases ty) simp_all
  have "length (event_value ty) \<le> 64" by (cases ty) simp_all
  with c render_length [OF t] have fits: "fits_columns e t"
    by (simp add: fits_columns_def external_id_def MAX_EXTERNAL_ID_LENGTH_def e(2-5))
  have kind: "ev_type e = ob_topic m" by (simp add: e(3) topic)
  obtain v where v: "booking_event_v1 other (ob_payload m) = Some v" "v1_event_id v = ob_id m" "v1_type v = ty"
    "v1_booking_id v = bk_id b" "v1_slot_id v = sl_id sl" "v1_client_id v = bk_client_id b"
    "v1_starts_at v = utc_datetime (sl_starts_at sl)"
    by (rule that [OF event_of_contract [OF p ty ids c date x]]) simp_all
  have named: "event_value (v1_type v) = ob_topic m" by (simp add: v(3) topic)
  show ?thesis
    by (intro bexI [OF _ b] bexI [OF _ sl(1)] exI [of _ v] exI [of _ e] exI [of _ t] conjI) (fact sl(2) v e t fits named kind)+
qed

lemma early_moments: "in_calendar 5" "in_calendar 10" "in_calendar 20" "in_calendar 5000"
proof -
  have year: "fst (ord2ymd (0 + epoch_ord)) = 1970" by code_simp
  have early: "in_calendar t" if "t div days 1 = 0" for t
    unfolding in_calendar_def by (rule valid_utc_datetime; unfold that year; simp)
  show "in_calendar 5" "in_calendar 10" "in_calendar 20" "in_calendar 5000"
    by (rule early; simp add: days_def seconds_def)+
qed

text \<open>A master publishes a slot, a client books it, payments confirms it.\<close>

lemma confirmed_served:
  "reachable_from (\<lambda>s. s = empty_db) (api_step example_reader example_settings no_network publish) confirmed_db"
proof -
  let ?R = "reachable_from (\<lambda>s. s = empty_db) (api_step example_reader example_settings no_network publish)"
  have names: "matches_id ''m''" "matches_id ''c''" by code_simp+
  obtain tm where tm: "caller example_reader example_settings (Some tm) 20 = Inr \<lparr>subject = ''m'', id_role = Master\<rparr>"
    using example_token [OF names(1), where r = WebMaster] by auto
  obtain tc where tc: "caller example_reader example_settings (Some tc) 20 = Inr \<lparr>subject = ''c'', id_role = Client\<rparr>"
    using example_token [OF names(2), where r = WebClient] by auto
  have role: "a_master example_reader example_settings (Some tm) 20 = Inr \<lparr>subject = ''m'', id_role = Master\<rparr>"
    "a_client example_reader example_settings (Some tc) 20 = Inr \<lparr>subject = ''c'', id_role = Client\<rparr>"
    by (simp_all add: a_master_def a_client_def caller_as_Inr tm tc)
  have "dt_offset (utc_datetime t) \<noteq> None" for t by (simp add: utc_datetime_def Let_def split: prod.split)
  then have "valid_request (PostSlots (Some tm) (utc_datetime 5000) (utc_datetime 6000) 100)"
    using early_moments by (simp add: example_moments MAX_PRICE_MINOR_def)
  note published = this
  let ?s = "\<lparr>slots = [example_slot], bookings = [], outbox = [], next_uuid = Suc 0\<rparr>"
  obtain a where "serve example_reader example_settings no_network 20 5
      (PostSlots (Some tm) (utc_datetime 5000) (utc_datetime 6000) 100) (empty_db, ()) = ((?s, ()), a)"
    by (simp add: guarded_def role post_slots_def example_created)
  from api_request [OF this published early_moments(1)]
  have "api_step example_reader example_settings no_network publish empty_db ?s" .
  moreover have ttl: "st_pending_ttl example_settings = 100" by (simp add: example_settings_def)
  moreover obtain a where "serve example_reader example_settings no_network 20 10 (PostBookings (Some tc) 0) (?s, ())
      = ((example_db, ()), a)"
    by (simp add: guarded_def role post_bookings_def example_booked ttl)
  from api_request [OF this _ early_moments(2)]
  have "api_step example_reader example_settings no_network publish ?s example_db" by simp
  moreover have "api_step example_reader example_settings no_network publish example_db confirmed_db"
    unfolding confirmed_db_def
    by (rule api_write [where r = example_booking]) (simp_all add: example_defs same_booking_def early_moments)
  ultimately show ?thesis using reach_start [of "\<lambda>s. s = empty_db"] by (metis reach_step)
qed

theorem published_events_keep_contract_witness:
  "\<exists>v e. booking_event_v1 (\<lambda>_. None) (ob_payload confirmed_message) = Some v \<and> v1_type v = EventConfirmed
     \<and> v1_client_id v = ''c'' \<and> read_message sample_env (published_fields ''booking.confirmed'' (ob_payload confirmed_message)) = Inr e
     \<and> ev_client_id e = ''c''"
proof -
  have "confirmed_message \<in> set (outbox confirmed_db)" "next_uuid confirmed_db \<le> 2 ^ 128"
    by (simp_all add: confirmed_db_def example_confirmed)
  from published_events_keep_contract [OF confirmed_served this, of "\<lambda>_. None" sample_env] obtain b v e where
    "b \<in> set (bookings confirmed_db)" "booking_event_v1 (\<lambda>_. None) (ob_payload confirmed_message) = Some v"
    "event_value (v1_type v) = ob_topic confirmed_message" "v1_client_id v = bk_client_id b"
    "read_message sample_env (published_fields (ob_topic confirmed_message) (ob_payload confirmed_message)) = Inr e"
    "ev_client_id e = bk_client_id b" by blast
  moreover have "bk_client_id b = ''c''" if "b \<in> set (bookings confirmed_db)" for b
    using that unfolding confirmed_db_def example_confirmed by (simp add: example_booking_def)
  moreover have "ob_topic confirmed_message = event_value EventConfirmed" by (simp add: confirmed_message_def event_message_def)
  ultimately show ?thesis using event_value_inj by (metis event_value.simps(1))
qed

end
