(* ===== verification/Db_Schema.thy ===== *)
theory Db_Schema
  imports Prelude
begin

text \<open>
  Tables as the services' models declare them and the operations of a migration on them. An operation that
  PostgreSQL refuses is \<open>None\<close>; whether it refuses may depend on the rows, of which only two things
  matter: which tables have any, and which columns hold a value twice.
\<close>

section \<open>Tables\<close>

datatype sql_type = SqlUuid | SqlString nat | SqlTimestamp | SqlInteger | SqlBoolean | SqlJsonb

record sql_column =
  cl_name :: string
  cl_type :: sql_type
  cl_primary :: bool
  cl_nullable :: bool
  cl_default :: "string option"
  cl_references :: "string option"

text \<open>The conditions of checks and partial indexes: \<open>c IN (...)\<close>, \<open>c > 0\<close>, \<open>c IS NULL\<close>.\<close>

datatype sql_condition = OneOf string "string set" | Positive string | IsNull string

fun condition_column :: "sql_condition \<Rightarrow> string" where
  "condition_column (OneOf c values) = c"
| "condition_column (Positive c) = c"
| "condition_column (IsNull c) = c"

datatype sql_constraint = Unique string "string list" | Check string sql_condition

fun constraint_columns :: "sql_constraint \<Rightarrow> string list" where
  "constraint_columns (Unique name cs) = cs"
| "constraint_columns (Check name cond) = [condition_column cond]"

record sql_index =
  ix_name :: string
  ix_columns :: "string list"
  ix_unique :: bool
  ix_where :: "sql_condition option"

definition index_columns :: "sql_index \<Rightarrow> string list" where
  "index_columns ix = ix_columns ix @ (case ix_where ix of None \<Rightarrow> [] | Some cond \<Rightarrow> [condition_column cond])"

record sql_table =
  tb_columns :: "sql_column list"
  tb_constraints :: "sql_constraint list"
  tb_indexes :: "sql_index list"

type_synonym schema = "(string \<times> sql_table) list"

text \<open>Columns as \<open>sa.Column\<close> and \<open>mapped_column\<close> write them.\<close>

definition column :: "string \<Rightarrow> sql_type \<Rightarrow> sql_column" where
  "column name ty = \<lparr>cl_name = name, cl_type = ty, cl_primary = False, cl_nullable = False, cl_default = None,
     cl_references = None\<rparr>"

definition primary_key :: "sql_column \<Rightarrow> sql_column" where "primary_key c = c\<lparr>cl_primary := True\<rparr>"
definition nullable :: "sql_column \<Rightarrow> sql_column" where "nullable c = c\<lparr>cl_nullable := True\<rparr>"
definition server_default :: "string \<Rightarrow> sql_column \<Rightarrow> sql_column" where "server_default d c = c\<lparr>cl_default := Some d\<rparr>"
definition foreign_key :: "string \<Rightarrow> sql_column \<Rightarrow> sql_column" where "foreign_key t c = c\<lparr>cl_references := Some t\<rparr>"

lemmas column_defs = column_def primary_key_def nullable_def server_default_def foreign_key_def

definition column_names :: "sql_table \<Rightarrow> string list" where
  "column_names tb = map cl_name (tb_columns tb)"

definition mentioned :: "sql_table \<Rightarrow> string list" where
  "mentioned tb = concat (map constraint_columns (tb_constraints tb)) @ concat (map index_columns (tb_indexes tb))"

definition index_names :: "schema \<Rightarrow> string list" where
  "index_names S = concat (map (\<lambda>(t, tb). map ix_name (tb_indexes tb)) S)"

definition references :: "sql_table \<Rightarrow> string \<Rightarrow> bool" where
  "references tb t \<longleftrightarrow> Some t \<in> set (map cl_references (tb_columns tb))"

section \<open>Operations\<close>

record table_data =
  has_rows :: "string \<Rightarrow> bool"
  has_duplicates :: "string \<Rightarrow> sql_index \<Rightarrow> bool"

datatype ddl =
  CreateTable string sql_table
| DropTable string
| AddColumn string sql_column
| DropColumn string string
| CreateIndex string sql_index
| DropIndex string string

definition alter :: "string \<Rightarrow> (sql_table \<Rightarrow> sql_table) \<Rightarrow> schema \<Rightarrow> schema" where
  "alter t f S = map (\<lambda>(u, tb). (u, if u = t then f tb else tb)) S"

fun apply_ddl :: "table_data \<Rightarrow> ddl \<Rightarrow> schema \<Rightarrow> schema option" where
  "apply_ddl d (CreateTable t tb) S =
     (if t \<in> fst ` set S \<or> \<not> distinct (column_names tb) \<or> \<not> set (mentioned tb) \<subseteq> set (column_names tb)
         \<or> \<not> list_all (\<lambda>c. case cl_references c of None \<Rightarrow> True | Some u \<Rightarrow> u \<in> fst ` set S) (tb_columns tb)
         \<or> tb_indexes tb \<noteq> []
      then None else Some (S @ [(t, tb)]))"
| "apply_ddl d (DropTable t) S =
     (if t \<notin> fst ` set S \<or> list_ex (\<lambda>(u, tb). u \<noteq> t \<and> references tb t) S then None
      else Some (filter (\<lambda>(u, tb). u \<noteq> t) S))"
| "apply_ddl d (AddColumn t c) S =
     (case map_of S t of
        None \<Rightarrow> None
      | Some tb \<Rightarrow>
          if cl_name c \<in> set (column_names tb) \<or> cl_primary c \<or> cl_references c \<noteq> None
             \<or> (has_rows d t \<and> \<not> cl_nullable c \<and> cl_default c = None) then None
          else Some (alter t (\<lambda>tb. tb\<lparr>tb_columns := tb_columns tb @ [c]\<rparr>) S))"
| "apply_ddl d (DropColumn t name) S =
     (case map_of S t of
        None \<Rightarrow> None
      | Some tb \<Rightarrow>
          if name \<notin> set (column_names tb) then None
          else Some (alter t (\<lambda>tb. tb\<lparr>tb_columns := filter (\<lambda>c. cl_name c \<noteq> name) (tb_columns tb),
             tb_constraints := filter (\<lambda>k. name \<notin> set (constraint_columns k)) (tb_constraints tb),
             tb_indexes := filter (\<lambda>ix. name \<notin> set (index_columns ix)) (tb_indexes tb)\<rparr>) S))"
| "apply_ddl d (CreateIndex t ix) S =
     (case map_of S t of
        None \<Rightarrow> None
      | Some tb \<Rightarrow>
          if ix_name ix \<in> set (index_names S) \<or> \<not> set (index_columns ix) \<subseteq> set (column_names tb)
             \<or> (ix_unique ix \<and> has_duplicates d t ix) then None
          else Some (alter t (\<lambda>tb. tb\<lparr>tb_indexes := tb_indexes tb @ [ix]\<rparr>) S))"
| "apply_ddl d (DropIndex name t) S =
     (case map_of S t of
        None \<Rightarrow> None
      | Some tb \<Rightarrow>
          if name \<notin> ix_name ` set (tb_indexes tb) then None
          else Some (alter t (\<lambda>tb. tb\<lparr>tb_indexes := filter (\<lambda>ix. ix_name ix \<noteq> name) (tb_indexes tb)\<rparr>) S))"

fun run_ddl :: "table_data \<Rightarrow> ddl list \<Rightarrow> schema \<Rightarrow> schema option" where
  "run_ddl d [] S = Some S"
| "run_ddl d (x # xs) S = Option.bind (apply_ddl d x S) (run_ddl d xs)"

lemma run_ddl_append: "run_ddl d (xs @ ys) S = Option.bind (run_ddl d xs S) (run_ddl d ys)"
  by (induction xs arbitrary: S) (simp_all split: bind_splits)

section \<open>Undoing an operation\<close>

text \<open>A schema the database can be in.\<close>

definition wf_table :: "schema \<Rightarrow> sql_table \<Rightarrow> bool" where
  "wf_table S tb \<longleftrightarrow> distinct (column_names tb) \<and> set (mentioned tb) \<subseteq> set (column_names tb)
     \<and> (\<forall>u. references tb u \<longrightarrow> u \<in> fst ` set S)"

definition wf_schema :: "schema \<Rightarrow> bool" where
  "wf_schema S \<longleftrightarrow> distinct (map fst S) \<and> (\<forall>(t, tb) \<in> set S. wf_table S tb) \<and> distinct (index_names S)"

lemma fst_alter [simp]: "map fst (alter t f S) = map fst S"
  by (simp add: alter_def comp_def case_prod_unfold)

lemma names_alter [simp]: "fst ` set (alter t f S) = fst ` set S"
  by (metis fst_alter list.set_map)

lemma alter_alter [simp]: "alter t g (alter t f S) = alter t (g \<circ> f) S"
  by (simp add: alter_def comp_def case_prod_unfold)

lemma map_of_alter [simp]: "map_of (alter t f S) u = (if u = t then map_option f (map_of S t) else map_of S u)"
  by (induction S) (auto simp: alter_def)

lemma alter_same:
  assumes "distinct (map fst S)" "map_of S t = Some tb" "f tb = tb"
  shows "alter t f S = S"
proof -
  have "f x = x" if "(t, x) \<in> set S" for x
    using map_of_is_SomeI [OF assms(1) that] assms(2,3) by simp
  then show ?thesis unfolding alter_def by (intro map_idI) auto
qed

lemma alter_others: "filter (\<lambda>(u, tb). u \<noteq> t) (alter t f S) = filter (\<lambda>(u, tb). u \<noteq> t) S"
  by (induction S) (auto simp: alter_def)

text \<open>The operation that takes another one back.\<close>

fun undo :: "ddl \<Rightarrow> ddl" where
  "undo (CreateTable t tb) = DropTable t"
| "undo (AddColumn t c) = DropColumn t (cl_name c)"
| "undo (CreateIndex t ix) = DropIndex (ix_name ix) t"
| "undo x = x"

fun builds :: "ddl \<Rightarrow> bool" where
  "builds (CreateTable t tb) = True"
| "builds (AddColumn t c) = True"
| "builds (CreateIndex t ix) = True"
| "builds x = False"

text \<open>A table of the schema, and what altering it does to the list.\<close>

lemma split_table:
  assumes "distinct (map fst S)" "map_of S t = Some tb"
  obtains pre post where "S = pre @ (t, tb) # post" "\<And>f. alter t f S = pre @ (t, f tb) # post"
proof -
  obtain pre post where S: "S = pre @ (t, tb) # post"
    using map_of_SomeD [OF assms(2)] by (auto dest: split_list)
  with assms(1) have "t \<notin> fst ` set pre" "t \<notin> fst ` set post" by auto
  then have "alter t f pre = pre" "alter t f post = post" for f
    by (force simp: alter_def intro: map_idI)+
  then have "alter t f S = pre @ (t, f tb) # post" for f by (simp add: S alter_def)
  with S that show thesis by blast
qed

lemma index_names_split: "index_names (pre @ (t, tb) # post) = index_names pre @ map ix_name (tb_indexes tb) @ index_names post"
  by (simp add: index_names_def)

lemma filter_new_key: "k \<notin> key ` set xs \<Longrightarrow> filter (\<lambda>x. key x \<noteq> k) xs = xs"
  by (induction xs) auto

lemma wf_table_names: "fst ` set S = fst ` set S' \<Longrightarrow> wf_table S tb = wf_table S' tb"
  by (simp add: wf_table_def)

lemma wf_alter:
  assumes wf: "wf_schema S" and tb: "map_of S t = Some tb" and f: "wf_table S tb \<Longrightarrow> wf_table S (f tb)"
    and ix: "map ix_name (tb_indexes (f tb)) = map ix_name (tb_indexes tb) @ new" "distinct new" "set new \<inter> set (index_names S) = {}"
  shows "wf_schema (alter t f S)"
proof -
  from wf have d: "distinct (map fst S)" by (simp add: wf_schema_def)
  obtain pre post where S: "S = pre @ (t, tb) # post" and a: "alter t f S = pre @ (t, f tb) # post"
    using split_table [OF d tb] by metis
  have "wf_table (alter t f S) x = wf_table S x" for x by (rule wf_table_names) simp
  moreover have "distinct (index_names (alter t f S))"
    using wf ix unfolding a unfolding S wf_schema_def index_names_split by auto
  moreover have "distinct (map fst (alter t f S))" using d by simp
  moreover have "\<forall>(u, x) \<in> set (alter t f S). wf_table S x"
    using wf f unfolding a unfolding S by (auto simp: wf_schema_def)
  ultimately show ?thesis by (simp add: wf_schema_def)
qed

lemma undo_create_table:
  assumes wf: "wf_schema S" and run: "apply_ddl d (CreateTable t tb) S = Some S'"
  shows "apply_ddl d' (DropTable t) S' = Some S \<and> wf_schema S'"
proof -
  have new: "t \<notin> fst ` set S" and S': "S' = S @ [(t, tb)]" and tb: "distinct (column_names tb)"
    "set (mentioned tb) \<subseteq> set (column_names tb)" "tb_indexes tb = []"
    and refs: "\<And>u. references tb u \<Longrightarrow> u \<in> fst ` set S"
    using run by (auto simp: references_def list_all_iff split: if_splits option.splits)
  have "\<not> references x t" if "(u, x) \<in> set S" for u x
    using wf that new by (auto simp: wf_schema_def wf_table_def)
  then have "apply_ddl d' (DropTable t) S' = Some (filter (\<lambda>(u, tb). u \<noteq> t) S)"
    using S' by (auto simp: list_ex_iff)
  also have "filter (\<lambda>(u, tb). u \<noteq> t) S = S" using new by (force simp: filter_id_conv)
  finally have "apply_ddl d' (DropTable t) S' = Some S" .
  moreover have "wf_schema S'"
    using wf new tb refs by (auto simp: S' wf_schema_def wf_table_def index_names_def)
  ultimately show ?thesis ..
qed

lemma undo_add_column:
  assumes wf: "wf_schema S" and run: "apply_ddl d (AddColumn t c) S = Some S'"
  shows "apply_ddl d' (DropColumn t (cl_name c)) S' = Some S \<and> wf_schema S'"
proof -
  let ?f = "\<lambda>tb. tb\<lparr>tb_columns := tb_columns tb @ [c]\<rparr>"
  obtain tb where tb: "map_of S t = Some tb" and new: "cl_name c \<notin> set (column_names tb)" "cl_references c = None"
    and S': "S' = alter t ?f S"
    using run by (auto split: option.splits if_splits)
  have d: "distinct (map fst S)" and wft: "wf_table S tb"
    using wf map_of_SomeD [OF tb] by (auto simp: wf_schema_def)
  then have "cl_name c \<notin> set (mentioned tb)" using new by (auto simp: wf_table_def)
  then have keep: "filter (\<lambda>k. cl_name c \<notin> set (constraint_columns k)) (tb_constraints tb) = tb_constraints tb"
    "filter (\<lambda>ix. cl_name c \<notin> set (index_columns ix)) (tb_indexes tb) = tb_indexes tb"
    "filter (\<lambda>k. cl_name k \<noteq> cl_name c) (tb_columns tb) = tb_columns tb"
    using new filter_new_key [of "cl_name c" cl_name] by (auto simp: mentioned_def filter_id_conv column_names_def)
  have "apply_ddl d' (DropColumn t (cl_name c)) S' = Some S"
    using tb keep alter_same [OF d tb] by (simp add: S' column_names_def comp_def)
  moreover have "wf_schema S'"
    unfolding S' using new by (intro wf_alter [OF wf tb, where new = "[]"])
      (auto simp: wf_table_def column_names_def mentioned_def references_def)
  ultimately show ?thesis ..
qed

lemma undo_create_index:
  assumes wf: "wf_schema S" and run: "apply_ddl d (CreateIndex t ix) S = Some S'"
  shows "apply_ddl d' (DropIndex (ix_name ix) t) S' = Some S \<and> wf_schema S'"
proof -
  let ?f = "\<lambda>tb. tb\<lparr>tb_indexes := tb_indexes tb @ [ix]\<rparr>"
  obtain tb where tb: "map_of S t = Some tb" and new: "ix_name ix \<notin> set (index_names S)"
    "set (index_columns ix) \<subseteq> set (column_names tb)" and S': "S' = alter t ?f S"
    using run by (auto split: option.splits if_splits)
  have d: "distinct (map fst S)" using wf by (simp add: wf_schema_def)
  have "ix_name ix \<notin> ix_name ` set (tb_indexes tb)"
    using new map_of_SomeD [OF tb] by (force simp: index_names_def)
  then have "filter (\<lambda>k. ix_name k \<noteq> ix_name ix) (tb_indexes tb) = tb_indexes tb" by (rule filter_new_key)
  then have "apply_ddl d' (DropIndex (ix_name ix) t) S' = Some S"
    using tb alter_same [OF d tb] by (simp add: S' comp_def)
  moreover have "wf_schema S'"
    unfolding S' using new by (intro wf_alter [OF wf tb, where new = "[ix_name ix]"])
      (auto simp: wf_table_def column_names_def mentioned_def references_def)
  ultimately show ?thesis ..
qed

lemma undo_step:
  assumes "wf_schema S" "builds x" "apply_ddl d x S = Some S'"
  shows "apply_ddl d' (undo x) S' = Some S \<and> wf_schema S'"
proof (cases x)
  case (CreateTable t tb)
  from undo_create_table [OF assms(1) assms(3) [unfolded this]] show ?thesis
    by (simp only: CreateTable undo.simps simp_thms)
next
  case (AddColumn t c)
  from undo_add_column [OF assms(1) assms(3) [unfolded this]] show ?thesis
    by (simp only: AddColumn undo.simps simp_thms)
next
  case (CreateIndex t ix)
  from undo_create_index [OF assms(1) assms(3) [unfolded this]] show ?thesis
    by (simp only: CreateIndex undo.simps simp_thms)
qed (use assms(2) in simp_all)

lemma undo_run:
  assumes "wf_schema S" "list_all builds xs" "run_ddl d xs S = Some S'"
  shows "run_ddl d' (map undo (rev xs)) S' = Some S \<and> wf_schema S'"
  using assms
proof (induction xs arbitrary: S)
  case (Cons x xs)
  then obtain T where T: "apply_ddl d x S = Some T" "run_ddl d xs T = Some S'"
    by (auto simp del: apply_ddl.simps simp: bind_eq_Some_conv)
  with undo_step [of S x d T d'] Cons have "apply_ddl d' (undo x) T = Some S" "wf_schema T" by simp_all
  with Cons.IH [of T] Cons.prems(2) T(2) show ?case by (simp add: run_ddl_append del: apply_ddl.simps)
qed simp

text \<open>Dropping a table drops its indexes.\<close>

lemma drop_indexed:
  assumes "apply_ddl d (CreateIndex t ix) S = Some S'"
  shows "apply_ddl d' (DropTable t) S' = apply_ddl d' (DropTable t) S"
proof -
  obtain tb where tb: "map_of S t = Some tb" and S': "S' = alter t (\<lambda>tb. tb\<lparr>tb_indexes := tb_indexes tb @ [ix]\<rparr>) S"
    using assms by (auto split: option.splits if_splits)
  have "list_ex (\<lambda>(u, tb). u \<noteq> t \<and> references tb t) S' = list_ex (\<lambda>(u, tb). u \<noteq> t \<and> references tb t) S"
    unfolding S' alter_def list_ex_iff by force
  then show ?thesis by (simp add: S' alter_others)
qed

end
