(* ===== verification/Db_Migrations.thy ===== *)
theory Db_Migrations
  imports "HOL-Library.Multiset" Db_Schema Booking_Service Payments_Service Notifier_Consumer
begin

text \<open>
  The migrations of the three services with a database, next to the tables their models declare. The order
  of the revisions is that of \<open>down_revision\<close>, which Alembic follows.
\<close>

record migration =
  mg_revision :: string
  mg_down_revision :: "string option"
  mg_upgrade :: "ddl list"
  mg_downgrade :: "ddl list"

definition table :: "sql_column list \<Rightarrow> sql_constraint list \<Rightarrow> sql_table" where
  "table columns constraints = \<lparr>tb_columns = columns, tb_constraints = constraints, tb_indexes = []\<rparr>"

definition index :: "string \<Rightarrow> string list \<Rightarrow> sql_index" where
  "index name columns = \<lparr>ix_name = name, ix_columns = columns, ix_unique = False, ix_where = None\<rparr>"

section \<open>Booking\<close>

definition booking_0001 :: migration where
  "booking_0001 = \<lparr>mg_revision = ''0001'', mg_down_revision = None,
     mg_upgrade =
       [CreateTable ''slots'' (table
          [primary_key (column ''id'' SqlUuid),
           column ''master_id'' (SqlString 64),
           column ''starts_at'' SqlTimestamp,
           column ''ends_at'' SqlTimestamp,
           server_default ''now()'' (column ''created_at'' SqlTimestamp)] []),
        CreateIndex ''slots'' (index ''ix_slots_master_starts_at'' [''master_id'', ''starts_at'']),
        CreateTable ''bookings'' (table
          [primary_key (column ''id'' SqlUuid),
           foreign_key ''slots'' (column ''slot_id'' SqlUuid),
           column ''client_id'' (SqlString 64),
           column ''status'' (SqlString 16),
           server_default ''now()'' (column ''created_at'' SqlTimestamp),
           server_default ''now()'' (column ''updated_at'' SqlTimestamp)]
          [Check ''ck_bookings_status'' (OneOf ''status'' {''pending'', ''confirmed'', ''cancelled'', ''expired''})]),
        CreateIndex ''bookings'' (index ''ix_bookings_slot_id'' [''slot_id''])],
     mg_downgrade = [DropTable ''bookings'', DropTable ''slots'']\<rparr>"

definition booking_0002 :: migration where
  "booking_0002 = \<lparr>mg_revision = ''0002'', mg_down_revision = Some ''0001'',
     mg_upgrade =
       [CreateIndex ''bookings'' ((index ''uq_bookings_active_slot'' [''slot_id''])
          \<lparr>ix_unique := True, ix_where := Some (OneOf ''status'' {''pending'', ''confirmed''})\<rparr>)],
     mg_downgrade = [DropIndex ''uq_bookings_active_slot'' ''bookings'']\<rparr>"

definition booking_0003 :: migration where
  "booking_0003 = \<lparr>mg_revision = ''0003'', mg_down_revision = Some ''0002'',
     mg_upgrade = [AddColumn ''slots'' (server_default ''0'' (column ''price_minor'' SqlInteger))],
     mg_downgrade = [DropColumn ''slots'' ''price_minor'']\<rparr>"

definition booking_0004 :: migration where
  "booking_0004 = \<lparr>mg_revision = ''0004'', mg_down_revision = Some ''0003'',
     mg_upgrade =
       [CreateTable ''outbox_messages'' (table
          [primary_key (column ''id'' SqlUuid),
           column ''topic'' (SqlString 64),
           column ''payload'' SqlJsonb,
           server_default ''now()'' (column ''created_at'' SqlTimestamp),
           nullable (column ''published_at'' SqlTimestamp),
           server_default ''0'' (column ''attempts'' SqlInteger),
           nullable (column ''last_error'' (SqlString 200))] []),
        CreateIndex ''outbox_messages'' ((index ''ix_outbox_messages_unpublished'' [''id''])
          \<lparr>ix_where := Some (IsNull ''published_at'')\<rparr>)],
     mg_downgrade = [DropIndex ''ix_outbox_messages_unpublished'' ''outbox_messages'', DropTable ''outbox_messages'']\<rparr>"

definition booking_0005 :: migration where
  "booking_0005 = \<lparr>mg_revision = ''0005'', mg_down_revision = Some ''0004'',
     mg_upgrade = [CreateIndex ''bookings'' (index ''ix_bookings_client_id'' [''client_id''])],
     mg_downgrade = [DropIndex ''ix_bookings_client_id'' ''bookings'']\<rparr>"

definition booking_migrations :: "migration list" where
  "booking_migrations = [booking_0001, booking_0002, booking_0003, booking_0004, booking_0005]"

definition slots_table :: sql_table where
  "slots_table = (table
     [primary_key (column ''id'' SqlUuid),
      column ''master_id'' (SqlString 64),
      column ''starts_at'' SqlTimestamp,
      column ''ends_at'' SqlTimestamp,
      server_default ''0'' (column ''price_minor'' SqlInteger),
      server_default ''now()'' (column ''created_at'' SqlTimestamp)] [])
     \<lparr>tb_indexes := [index ''ix_slots_master_starts_at'' [''master_id'', ''starts_at'']]\<rparr>"

definition bookings_table :: sql_table where
  "bookings_table = (table
     [primary_key (column ''id'' SqlUuid),
      foreign_key ''slots'' (column ''slot_id'' SqlUuid),
      column ''client_id'' (SqlString 64),
      column ''status'' (SqlString 16),
      server_default ''now()'' (column ''created_at'' SqlTimestamp),
      server_default ''now()'' (column ''updated_at'' SqlTimestamp)]
     [Check ''ck_bookings_status'' (OneOf ''status'' (status_value ` set all_statuses))])
     \<lparr>tb_indexes :=
        [index ''ix_bookings_slot_id'' [''slot_id''],
         index ''ix_bookings_client_id'' [''client_id''],
         (index ACTIVE_SLOT_INDEX [''slot_id''])
           \<lparr>ix_unique := True, ix_where := Some (OneOf ''status'' (status_value ` set ACTIVE_STATUSES))\<rparr>]\<rparr>"

definition outbox_table :: sql_table where
  "outbox_table = (table
     [primary_key (column ''id'' SqlUuid),
      column ''topic'' (SqlString 64),
      column ''payload'' SqlJsonb,
      server_default ''now()'' (column ''created_at'' SqlTimestamp),
      nullable (column ''published_at'' SqlTimestamp),
      server_default ''0'' (column ''attempts'' SqlInteger),
      nullable (column ''last_error'' (SqlString 200))] [])
     \<lparr>tb_indexes := [(index ''ix_outbox_messages_unpublished'' [''id''])\<lparr>ix_where := Some (IsNull ''published_at'')\<rparr>]\<rparr>"

definition booking_metadata :: schema where
  "booking_metadata = [(''slots'', slots_table), (''bookings'', bookings_table), (''outbox_messages'', outbox_table)]"

section \<open>Payments\<close>

definition payments_0001 :: migration where
  "payments_0001 = \<lparr>mg_revision = ''0001'', mg_down_revision = None,
     mg_upgrade =
       [CreateTable ''payments'' (table
          [primary_key (column ''id'' SqlUuid),
           column ''booking_id'' SqlUuid,
           column ''amount_minor'' SqlInteger,
           column ''currency'' (SqlString 3),
           column ''status'' (SqlString 16),
           nullable (column ''provider_charge_id'' (SqlString 64)),
           nullable (column ''checkout_url'' (SqlString 512)),
           server_default ''false'' (column ''needs_refund'' SqlBoolean),
           server_default ''now()'' (column ''created_at'' SqlTimestamp),
           server_default ''now()'' (column ''updated_at'' SqlTimestamp)]
          [Unique ''uq_payments_booking_id'' [''booking_id''],
           Check ''ck_payments_status'' (OneOf ''status'' {''failed'', ''pending'', ''succeeded''}),
           Check ''ck_payments_amount_positive'' (Positive ''amount_minor'')]),
        CreateTable ''provider_events'' (table
          [primary_key (column ''event_id'' (SqlString 64)),
           column ''event_type'' (SqlString 64),
           column ''received_at'' SqlTimestamp] [])],
     mg_downgrade = [DropTable ''provider_events'', DropTable ''payments'']\<rparr>"

definition payments_0002 :: migration where
  "payments_0002 = \<lparr>mg_revision = ''0002'', mg_down_revision = Some ''0001'',
     mg_upgrade =
       [CreateTable ''outbox_messages'' (table
          [primary_key (column ''id'' SqlUuid),
           column ''topic'' (SqlString 64),
           column ''payload'' SqlJsonb,
           server_default ''now()'' (column ''created_at'' SqlTimestamp),
           nullable (column ''published_at'' SqlTimestamp),
           server_default ''0'' (column ''attempts'' SqlInteger),
           nullable (column ''last_error'' (SqlString 200))] []),
        CreateIndex ''outbox_messages'' ((index ''ix_outbox_messages_unpublished'' [''id''])
          \<lparr>ix_where := Some (IsNull ''published_at'')\<rparr>),
        AddColumn ''payments'' (nullable (column ''provider_refund_id'' (SqlString 64))),
        AddColumn ''payments'' (nullable (column ''refunded_at'' SqlTimestamp))],
     mg_downgrade =
       [DropColumn ''payments'' ''refunded_at'', DropColumn ''payments'' ''provider_refund_id'',
        DropIndex ''ix_outbox_messages_unpublished'' ''outbox_messages'', DropTable ''outbox_messages'']\<rparr>"

definition payments_migrations :: "migration list" where
  "payments_migrations = [payments_0001, payments_0002]"

definition payments_table :: sql_table where
  "payments_table = table
     [primary_key (column ''id'' SqlUuid),
      column ''booking_id'' SqlUuid,
      column ''amount_minor'' SqlInteger,
      column ''currency'' (SqlString 3),
      column ''status'' (SqlString 16),
      nullable (column ''provider_charge_id'' (SqlString 64)),
      nullable (column ''checkout_url'' (SqlString 512)),
      server_default ''false'' (column ''needs_refund'' SqlBoolean),
      nullable (column ''provider_refund_id'' (SqlString 64)),
      nullable (column ''refunded_at'' SqlTimestamp),
      server_default ''now()'' (column ''created_at'' SqlTimestamp),
      server_default ''now()'' (column ''updated_at'' SqlTimestamp)]
     [Unique ONE_PAYMENT_PER_BOOKING [''booking_id''],
      Check ''ck_payments_status'' (OneOf ''status'' (range payment_status_value)),
      Check ''ck_payments_amount_positive'' (Positive ''amount_minor'')]"

definition provider_events_table :: sql_table where
  "provider_events_table = table
     [primary_key (column ''event_id'' (SqlString 64)),
      column ''event_type'' (SqlString 64),
      column ''received_at'' SqlTimestamp] []"

definition payments_metadata :: schema where
  "payments_metadata =
     [(''payments'', payments_table), (''provider_events'', provider_events_table), (''outbox_messages'', outbox_table)]"

section \<open>Notifier\<close>

definition notifier_0001 :: migration where
  "notifier_0001 = \<lparr>mg_revision = ''0001'', mg_down_revision = None,
     mg_upgrade =
       [CreateTable ''notifications'' (table
          [primary_key (column ''event_id'' (SqlString 64)),
           column ''booking_id'' (SqlString 64),
           column ''client_id'' (SqlString 64),
           column ''event_type'' (SqlString 64),
           column ''text'' (SqlString 512),
           column ''status'' (SqlString 16),
           server_default ''0'' (column ''attempts'' SqlInteger),
           nullable (column ''last_error'' (SqlString 200)),
           nullable (column ''gateway_message_id'' (SqlString 64)),
           server_default ''now()'' (column ''created_at'' SqlTimestamp),
           server_default ''now()'' (column ''updated_at'' SqlTimestamp)]
          [Check ''ck_notifications_status'' (OneOf ''status'' {''dead'', ''sending'', ''sent''})]),
        CreateIndex ''notifications'' (index ''ix_notifications_booking_id'' [''booking_id''])],
     mg_downgrade = [DropIndex ''ix_notifications_booking_id'' ''notifications'', DropTable ''notifications'']\<rparr>"

definition notifications_table :: sql_table where
  "notifications_table = (table
     [primary_key (column ''event_id'' (SqlString 64)),
      column ''booking_id'' (SqlString 64),
      column ''client_id'' (SqlString 64),
      column ''event_type'' (SqlString 64),
      column ''text'' (SqlString 512),
      column ''status'' (SqlString 16),
      server_default ''0'' (column ''attempts'' SqlInteger),
      nullable (column ''last_error'' (SqlString 200)),
      nullable (column ''gateway_message_id'' (SqlString 64)),
      server_default ''now()'' (column ''created_at'' SqlTimestamp),
      server_default ''now()'' (column ''updated_at'' SqlTimestamp)]
     [Check ''ck_notifications_status'' (OneOf ''status'' (range notification_status_value))])
     \<lparr>tb_indexes := [index ''ix_notifications_booking_id'' [''booking_id'']]\<rparr>"

definition notifier_metadata :: schema where
  "notifier_metadata = [(''notifications'', notifications_table)]"

section \<open>Upgrading\<close>

text \<open>The revisions in the order of their \<open>down_revision\<close>, beginning after \<open>at\<close>.\<close>

fun history :: "nat \<Rightarrow> migration list \<Rightarrow> string option \<Rightarrow> migration list" where
  "history 0 ms at = []"
| "history (Suc n) ms at =
     (case find (\<lambda>m. mg_down_revision m = at) ms of
        None \<Rightarrow> []
      | Some m \<Rightarrow> m # history n ms (Some (mg_revision m)))"

definition upgrade :: "table_data \<Rightarrow> migration list \<Rightarrow> schema option" where
  "upgrade d ms = run_ddl d (concat (map mg_upgrade (history (length ms) ms None))) []"

text \<open>Two descriptions of the same tables; only the order of what they list may differ.\<close>

definition same_table :: "sql_table \<Rightarrow> sql_table \<Rightarrow> bool" where
  "same_table a b \<longleftrightarrow>
     mset (tb_columns a) = mset (tb_columns b) \<and> mset (tb_constraints a) = mset (tb_constraints b)
     \<and> mset (tb_indexes a) = mset (tb_indexes b)"

definition same_schema :: "schema \<Rightarrow> schema \<Rightarrow> bool" where
  "same_schema S T \<longleftrightarrow> list_all2 (\<lambda>(t, a) (u, b). t = u \<and> same_table a b) S T"

section \<open>Properties\<close>

lemmas revision_defs = booking_0001_def booking_0002_def booking_0003_def booking_0004_def booking_0005_def
  payments_0001_def payments_0002_def notifier_0001_def

lemmas shape_defs = column_defs table_def index_def column_names_def mentioned_def index_names_def index_columns_def alter_def

text \<open>The partial index that allows one active booking per slot.\<close>

definition active_slot_index :: sql_index where
  "active_slot_index = (index ACTIVE_SLOT_INDEX [''slot_id''])
     \<lparr>ix_unique := True, ix_where := Some (OneOf ''status'' {''pending'', ''confirmed''})\<rparr>"

lemma booking_history: "history (length booking_migrations) booking_migrations None = booking_migrations"
  by (simp add: booking_migrations_def revision_defs)

lemma payments_history: "history (length payments_migrations) payments_migrations None = payments_migrations"
  by (simp add: payments_migrations_def revision_defs)

lemma notifier_history: "history (length [notifier_0001]) [notifier_0001] None = [notifier_0001]"
  by (simp add: revision_defs)

lemma booking_upgrade:
  "upgrade d booking_migrations = (if has_duplicates d ''bookings'' active_slot_index then None else
     Some [(''slots'', slots_table\<lparr>tb_columns := [primary_key (column ''id'' SqlUuid), column ''master_id'' (SqlString 64),
        column ''starts_at'' SqlTimestamp, column ''ends_at'' SqlTimestamp, server_default ''now()'' (column ''created_at'' SqlTimestamp),
        server_default ''0'' (column ''price_minor'' SqlInteger)]\<rparr>),
      (''bookings'', bookings_table\<lparr>tb_indexes := [index ''ix_bookings_slot_id'' [''slot_id''], active_slot_index,
        index ''ix_bookings_client_id'' [''client_id'']]\<rparr>),
      (''outbox_messages'', outbox_table)])"
  unfolding upgrade_def booking_history
  by (simp add: booking_migrations_def revision_defs shape_defs slots_table_def bookings_table_def outbox_table_def
      active_slot_index_def ACTIVE_SLOT_INDEX_def all_statuses_def insert_commute)

lemma payments_upgrade: "upgrade d payments_migrations = Some
    [(''payments'', payments_table\<lparr>tb_columns := [primary_key (column ''id'' SqlUuid), column ''booking_id'' SqlUuid,
       column ''amount_minor'' SqlInteger, column ''currency'' (SqlString 3), column ''status'' (SqlString 16),
       nullable (column ''provider_charge_id'' (SqlString 64)), nullable (column ''checkout_url'' (SqlString 512)),
       server_default ''false'' (column ''needs_refund'' SqlBoolean), server_default ''now()'' (column ''created_at'' SqlTimestamp),
       server_default ''now()'' (column ''updated_at'' SqlTimestamp), nullable (column ''provider_refund_id'' (SqlString 64)),
       nullable (column ''refunded_at'' SqlTimestamp)]\<rparr>),
     (''provider_events'', provider_events_table), (''outbox_messages'', outbox_table)]"
proof -
  have "range payment_status_value = {''failed'', ''pending'', ''succeeded''}"
    by (auto simp: image_iff) (metis payment_status.exhaust payment_status_value.simps)+
  then show ?thesis
    unfolding upgrade_def payments_history
    by (simp add: payments_migrations_def revision_defs shape_defs payments_table_def provider_events_table_def outbox_table_def
        ONE_PAYMENT_PER_BOOKING_def)
qed

lemma notifier_upgrade: "upgrade d [notifier_0001] = Some notifier_metadata"
proof -
  have "range notification_status_value = {''dead'', ''sending'', ''sent''}"
    by (auto simp: image_iff) (metis notification_status.exhaust notification_status_value.simps)+
  then show ?thesis
    unfolding upgrade_def notifier_history
    by (simp add: revision_defs shape_defs notifier_metadata_def notifications_table_def)
qed

lemma same_schema_simps [simp]:
  "same_schema [] []" "same_schema ((t, a) # S) ((u, b) # T) \<longleftrightarrow> t = u \<and> same_table a b \<and> same_schema S T"
  by (simp_all add: same_schema_def)

lemma same_table_refl [simp]: "same_table a a"
  by (simp add: same_table_def)

lemma same_columns: "mset cs = mset (tb_columns b) \<Longrightarrow> same_table (b\<lparr>tb_columns := cs\<rparr>) b"
  by (simp add: same_table_def)

lemma same_indexes: "mset ixs = mset (tb_indexes b) \<Longrightarrow> same_table (b\<lparr>tb_indexes := ixs\<rparr>) b"
  by (simp add: same_table_def)

lemma orders:
  "mset [a, b, c] = mset [a, c, b]" "mset [a, b, c, d, e, f] = mset [a, b, c, d, f, e]"
  "mset [a, b, c, d, e, f, g, h, i, j, k, l] = mset [a, b, c, d, e, f, g, h, k, l, i, j]"
  by simp_all

text \<open>What the revisions make of a database without tables.\<close>

lemma upgrade_builds_models:
  "(case upgrade d booking_migrations of
      None \<Rightarrow> has_duplicates d ''bookings'' active_slot_index
    | Some S \<Rightarrow> \<not> has_duplicates d ''bookings'' active_slot_index \<and> same_schema S booking_metadata)
   \<and> (\<exists>S. upgrade d payments_migrations = Some S \<and> same_schema S payments_metadata)
   \<and> (\<exists>S. upgrade d [notifier_0001] = Some S \<and> same_schema S notifier_metadata)"
proof -
  let ?active = "(index ACTIVE_SLOT_INDEX [''slot_id''])
      \<lparr>ix_unique := True, ix_where := Some (OneOf ''status'' (status_value ` set ACTIVE_STATUSES))\<rparr>"
  have index: "active_slot_index = ?active"
    by (simp add: active_slot_index_def ACTIVE_STATUSES_def)
  have cols: "tb_columns slots_table = [primary_key (column ''id'' SqlUuid), column ''master_id'' (SqlString 64),
      column ''starts_at'' SqlTimestamp, column ''ends_at'' SqlTimestamp, server_default ''0'' (column ''price_minor'' SqlInteger),
      server_default ''now()'' (column ''created_at'' SqlTimestamp)]"
    and ixs: "tb_indexes bookings_table = [index ''ix_bookings_slot_id'' [''slot_id''], index ''ix_bookings_client_id'' [''client_id''], ?active]"
    and pays: "tb_columns payments_table = [primary_key (column ''id'' SqlUuid), column ''booking_id'' SqlUuid,
      column ''amount_minor'' SqlInteger, column ''currency'' (SqlString 3), column ''status'' (SqlString 16),
      nullable (column ''provider_charge_id'' (SqlString 64)), nullable (column ''checkout_url'' (SqlString 512)),
      server_default ''false'' (column ''needs_refund'' SqlBoolean), nullable (column ''provider_refund_id'' (SqlString 64)),
      nullable (column ''refunded_at'' SqlTimestamp), server_default ''now()'' (column ''created_at'' SqlTimestamp),
      server_default ''now()'' (column ''updated_at'' SqlTimestamp)]"
    by (simp_all add: slots_table_def bookings_table_def payments_table_def table_def)
  show ?thesis
    unfolding booking_upgrade payments_upgrade notifier_upgrade booking_metadata_def payments_metadata_def notifier_metadata_def
    by (auto intro!: same_columns same_indexes simp: cols ixs pays index orders simp del: mset.simps)
qed

text \<open>
  The models describe the schema the migrations create, which \<open>migrate.check\<close> promises: upgrading an empty
  database through the revisions of a service, in the order of \<open>down_revision\<close>, gives exactly its tables with
  their columns, types, defaults, keys, checks and indexes. Rows already in the tables do not matter, every new
  column has a default or is nullable; only the index of one active booking per slot fails, exactly on a table
  that breaks it.
\<close>

theorem migrations_build_models:
  "(case upgrade d booking_migrations of
      None \<Rightarrow> has_duplicates d ''bookings'' active_slot_index
    | Some S \<Rightarrow> \<not> has_duplicates d ''bookings'' active_slot_index \<and> same_schema S booking_metadata)
   \<and> (\<exists>S. upgrade d payments_migrations = Some S \<and> same_schema S payments_metadata)
   \<and> (\<exists>S. upgrade d [notifier_0001] = Some S \<and> same_schema S notifier_metadata)"
  by (rule upgrade_builds_models)

text \<open>Every revision is taken back by its downgrade, from the operations it is made of.\<close>

lemma undone:
  assumes "wf_schema S" "list_all builds (mg_upgrade m)" "run_ddl d (mg_upgrade m) S = Some S'"
    and "mg_downgrade m = map undo (rev (mg_upgrade m))"
  shows "run_ddl d' (mg_downgrade m) S' = Some S"
  using undo_run [OF assms(1-3)] assms(4) by simp

definition exact_downgrade :: "migration \<Rightarrow> bool" where
  "exact_downgrade m \<longleftrightarrow> list_all builds (mg_upgrade m) \<and> mg_downgrade m = map undo (rev (mg_upgrade m))"

lemma exact_downgrades:
  "exact_downgrade booking_0002" "exact_downgrade booking_0003" "exact_downgrade booking_0004" "exact_downgrade booking_0005"
  "exact_downgrade payments_0001" "exact_downgrade payments_0002" "exact_downgrade notifier_0001"
  by (simp_all add: exact_downgrade_def revision_defs column_defs index_def)

lemma booking_0001_undone:
  assumes wf: "wf_schema S" and run: "run_ddl d (mg_upgrade booking_0001) S = Some S'"
  shows "run_ddl d' (mg_downgrade booking_0001) S' = Some S"
proof -
  obtain slots_op ix1 bookings_op ix2 where ops: "mg_upgrade booking_0001 =
      [CreateTable ''slots'' slots_op, CreateIndex ''slots'' ix1, CreateTable ''bookings'' bookings_op, CreateIndex ''bookings'' ix2]"
    by (simp add: booking_0001_def)
  from run obtain S1 S2 S3 where steps: "apply_ddl d (CreateTable ''slots'' slots_op) S = Some S1"
    "apply_ddl d (CreateIndex ''slots'' ix1) S1 = Some S2" "apply_ddl d (CreateTable ''bookings'' bookings_op) S2 = Some S3"
    "apply_ddl d (CreateIndex ''bookings'' ix2) S3 = Some S'"
    unfolding ops by (auto simp: bind_eq_Some_conv simp del: apply_ddl.simps)
  note one = undo_create_table [OF wf steps(1)]
  note two = undo_create_index [OF conjunct2 [OF one] steps(2)]
  note three = undo_create_table [OF conjunct2 [OF two] steps(3)]
  have "apply_ddl d' (DropTable ''bookings'') S' = Some S2" "apply_ddl d' (DropTable ''slots'') S2 = Some S"
    using one three drop_indexed [OF steps(4)] drop_indexed [OF steps(2)] by (simp_all del: apply_ddl.simps)
  then show ?thesis by (simp add: booking_0001_def del: apply_ddl.simps)
qed

text \<open>
  Every migration can be taken back: whatever tables the database has, when the upgrade of a revision
  succeeds, its downgrade succeeds and gives back exactly the schema from before. The first revision of booking drops its
  tables without dropping their indexes first, which the database does with them.
\<close>

theorem downgrade_undoes_upgrade:
  assumes "m \<in> set (booking_migrations @ payments_migrations @ [notifier_0001])" "wf_schema S"
    and "run_ddl d (mg_upgrade m) S = Some S'"
  shows "run_ddl d' (mg_downgrade m) S' = Some S"
proof (cases "m = booking_0001")
  case True
  with booking_0001_undone assms(2,3) show ?thesis by blast
next
  case False
  with assms(1) have "exact_downgrade m"
    using exact_downgrades by (auto simp: booking_migrations_def payments_migrations_def)
  with undone [OF assms(2) _ assms(3)] show ?thesis by (simp add: exact_downgrade_def)
qed

theorem downgrade_undoes_upgrade_witness:
  "run_ddl \<lparr>has_rows = (\<lambda>_. True), has_duplicates = (\<lambda>_ _. True)\<rparr> (mg_downgrade notifier_0001) notifier_metadata = Some []"
proof -
  have m: "notifier_0001 \<in> set (booking_migrations @ payments_migrations @ [notifier_0001])" by simp
  have wf: "wf_schema []" by (simp add: wf_schema_def index_names_def)
  have "run_ddl d (mg_upgrade notifier_0001) [] = Some notifier_metadata" for d
    using notifier_upgrade [of d] unfolding upgrade_def notifier_history by simp
  then show ?thesis by (rule downgrade_undoes_upgrade [OF m wf])
qed

end
