(* ===== verification/Http_Errors.thy ===== *)
theory Http_Errors
  imports "HOL-Library.Multiset" Booking_App Payments_App Notifier_Consumer
begin

text \<open>
  The answers the services give in place of the framework's own: \<open>http_error\<close> and \<open>invalid_request\<close> of each
  \<open>app.py\<close>, the same code three times, and the routes they are asked about. Whether a route matches a path
  (\<open>Route.matches\<close>) and the phrase of a status (\<open>HTTPStatus.phrase\<close>) are parameters.
\<close>

record error_answer =
  ea_status :: int
  ea_error :: string
  ea_detail :: string
  ea_headers :: "(string \<times> string) list"

record route =
  rt_path :: string
  rt_methods :: "string list"

definition booking_routes :: "route list" where
  "booking_routes =
     [\<lparr>rt_path = ''/health'', rt_methods = [''GET'']\<rparr>,
      \<lparr>rt_path = ''/slots'', rt_methods = [''POST'']\<rparr>,
      \<lparr>rt_path = ''/slots'', rt_methods = [''GET'']\<rparr>,
      \<lparr>rt_path = ''/bookings'', rt_methods = [''POST'']\<rparr>,
      \<lparr>rt_path = ''/bookings'', rt_methods = [''GET'']\<rparr>,
      \<lparr>rt_path = ''/bookings/{booking_id}/payment'', rt_methods = [''POST'']\<rparr>,
      \<lparr>rt_path = ''/bookings/{booking_id}'', rt_methods = [''GET'']\<rparr>,
      \<lparr>rt_path = ''/bookings/{booking_id}'', rt_methods = [''DELETE'']\<rparr>,
      \<lparr>rt_path = ''/internal/bookings/{booking_id}/confirm'', rt_methods = [''POST'']\<rparr>]"

definition payments_routes :: "route list" where
  "payments_routes =
     [\<lparr>rt_path = ''/health'', rt_methods = [''GET'']\<rparr>,
      \<lparr>rt_path = ''/payments'', rt_methods = [''POST'']\<rparr>,
      \<lparr>rt_path = ''/payments/{payment_id}'', rt_methods = [''GET'']\<rparr>,
      \<lparr>rt_path = ''/webhooks/paystub'', rt_methods = [''POST'']\<rparr>]"

definition notifier_routes :: "route list" where
  "notifier_routes =
     [\<lparr>rt_path = ''/health'', rt_methods = [''GET'']\<rparr>, \<lparr>rt_path = ''/notifications'', rt_methods = [''GET'']\<rparr>]"

text \<open>The methods of every route the path matches, whatever the method of the request.\<close>

definition allowed_methods :: "(string \<Rightarrow> string \<Rightarrow> bool) \<Rightarrow> route list \<Rightarrow> string \<Rightarrow> string list" where
  "allowed_methods matches routes path =
     sort (concat (map rt_methods (filter (\<lambda>r. matches (rt_path r) path) routes)))"

definition set_header :: "string \<Rightarrow> string \<Rightarrow> (string \<times> string) list \<Rightarrow> (string \<times> string) list" where
  "set_header key v headers =
     (if key \<in> fst ` set headers then map (\<lambda>(k, x). (k, if k = key then v else x)) headers else headers @ [(key, v)])"

text \<open>ASCII \<open>str.lower\<close>, and \<open>replace\<close> of one character.\<close>

definition lower_char :: "char \<Rightarrow> char" where
  "lower_char c = (let n = of_char c :: nat in if 65 \<le> n \<and> n \<le> 90 then char_of (n + 32) else c)"

definition http_error ::
  "(string \<Rightarrow> string \<Rightarrow> bool) \<Rightarrow> (int \<Rightarrow> string) \<Rightarrow> route list \<Rightarrow> string \<Rightarrow> int \<Rightarrow> string \<Rightarrow> (string \<times> string) list \<Rightarrow> error_answer" where
  "http_error matches phrase routes path status_code detail error_headers =
     (let headers = (if status_code = 405
            then set_header ''Allow'' (join '', '' (allowed_methods matches routes path)) error_headers else error_headers);
          code = map (\<lambda>c. if c = CHR '' '' then CHR ''_'' else c) (map lower_char (phrase status_code))
      in \<lparr>ea_status = status_code, ea_error = code, ea_detail = detail, ea_headers = headers\<rparr>)"

text \<open>The location of every error, its parts as text.\<close>

definition invalid_request :: "string list list \<Rightarrow> error_answer" where
  "invalid_request locations =
     (let fields = join '', '' (map (join ''.'') locations)
      in \<lparr>ea_status = 422, ea_error = ''invalid_request'', ea_detail = ''invalid: '' @ fields, ea_headers = []\<rparr>)"

text \<open>The notifier's endpoint: what \<open>NotificationOut\<close> shows of a row, and its only error handler.\<close>

record notification_out =
  no_event_id :: string
  no_booking_id :: string
  no_client_id :: string
  no_event_type :: string
  no_text :: string
  no_status :: notification_status
  no_attempts :: int
  no_created_at :: moment

definition notification_out_of :: "notification \<Rightarrow> notification_out" where
  "notification_out_of n =
     \<lparr>no_event_id = nt_event_id n, no_booking_id = nt_booking_id n, no_client_id = nt_client_id n,
      no_event_type = nt_event_type n, no_text = nt_text n, no_status = nt_status n, no_attempts = nt_attempts n,
      no_created_at = nt_created_at n\<rparr>"

definition get_notifications :: "notification list \<Rightarrow> string \<Rightarrow> notification_out list" where
  "get_notifications rows booking_id = map notification_out_of (list_notifications rows booking_id)"

definition notify_domain_error :: "notify_error \<Rightarrow> string \<Rightarrow> error_answer" where
  "notify_domain_error e txt = \<lparr>ea_status = 409, ea_error = notify_error_code e, ea_detail = txt, ea_headers = []\<rparr>"

section \<open>What they promise\<close>

text \<open>RFC 9110: an answer 405 names every method the resource supports, in order, and no other.\<close>

lemma allow_is_complete:
  "sorted (allowed_methods matches routes path)
   \<and> set (allowed_methods matches routes path) = {m. \<exists>r \<in> set routes. matches (rt_path r) path \<and> m \<in> set (rt_methods r)}"
  by (auto simp: allowed_methods_def)

lemma routes_distinct:
  "distinct (map (\<lambda>r. (rt_path r, rt_methods r)) booking_routes)"
  "distinct (map (\<lambda>r. (rt_path r, rt_methods r)) payments_routes)"
  "distinct (map (\<lambda>r. (rt_path r, rt_methods r)) notifier_routes)"
  by (simp_all add: booking_routes_def payments_routes_def notifier_routes_def)

text \<open>The notifications shown about a booking are its rows, oldest first.\<close>

lemma shown_notifications:
  "mset (map no_event_id (get_notifications rows b)) = mset (map nt_event_id (filter (\<lambda>n. nt_booking_id n = b) rows))"
  "sorted (map no_created_at (get_notifications rows b))"
proof -
  have e: "no_event_id \<circ> notification_out_of = nt_event_id" and c: "no_created_at \<circ> notification_out_of = nt_created_at"
    by (auto simp: notification_out_of_def)
  show "mset (map no_event_id (get_notifications rows b)) = mset (map nt_event_id (filter (\<lambda>n. nt_booking_id n = b) rows))"
    unfolding get_notifications_def list_notifications_def map_map e mset_map mset_sort ..
  show "sorted (map no_created_at (get_notifications rows b))"
    by (simp add: get_notifications_def list_notifications_def c)
qed

end
