(* ===== verification/Db_Migrate.thy ===== *)
theory Db_Migrate
  imports Db_Migrations Http_Errors
begin

text \<open>
  The commands of \<open>migrate.py\<close> of booking, payments and notifier, and \<open>migrations/env.py\<close>, which Alembic runs for
  them. Alembic's \<open>Config\<close> keeps its options in a \<open>ConfigParser\<close>, whose interpolation is written out here. A database server is a
  map from URLs to databases; Alembic's walk along the revisions and its documented transaction around a
  command are what \<open>env.py\<close> relies on.
\<close>

section \<open>Options with interpolation\<close>

datatype config_error = InvalidSyntax | MissingOption | DepthExceeded

text \<open>\<open>url.replace("%", "%%")\<close>.\<close>

fun double_percent :: "string \<Rightarrow> string" where
  "double_percent [] = []"
| "double_percent (c # cs) = (if c = CHR ''%'' then ''%%'' @ double_percent cs else c # double_percent cs)"

text \<open>
  A reference \<open>%(name)s\<close> at the head of a text, with the rest behind it: the expression \<open>%\(([^)]+)\)s\<close> of \<open>BasicInterpolation\<close>.
\<close>

definition reference :: "string \<Rightarrow> (string \<times> string) option" where
  "reference s =
     (let name = takeWhile (\<lambda>c. c \<noteq> CHR '')'') (drop 2 s);
          rest = drop (2 + length name) s
      in if take 2 s = ''%('' \<and> name \<noteq> [] \<and> take 2 rest = '')s'' then Some (name, drop 2 rest) else None)"

lemma reference_shorter: "reference s = Some (name, rest) \<Longrightarrow> length rest < length s"
  by (cases s) (auto simp: reference_def Let_def split: if_splits)

text \<open>\<open>before_set\<close>: what is left without doubled signs and references must have no percent sign.\<close>

function drop_references :: "string \<Rightarrow> string" where
  "drop_references [] = []"
| "drop_references (c # cs) =
     (case reference (c # cs) of None \<Rightarrow> c # drop_references cs | Some (name, rest) \<Rightarrow> drop_references rest)"
  by pat_completeness auto
termination by (relation "measure length") (auto dest: reference_shorter)

definition before_set :: "string \<Rightarrow> config_error + string" where
  "before_set value =
     (if CHR ''%'' \<in> set (drop_references (remove_all ''%%'' value)) then Inl InvalidSyntax else Inr value)"

text \<open>
  \<open>before_get\<close>: the other options are looked up by their names in lower case in \<open>options\<close>, whose values are interpolated in turn, ten levels deep.
\<close>

function interpolate :: "nat \<Rightarrow> (string \<rightharpoonup> string) \<Rightarrow> string \<Rightarrow> config_error + string" where
  "interpolate depth options [] = (if depth = 0 then Inl DepthExceeded else Inr [])"
| "interpolate depth options (c # cs) =
     (if depth = 0 then Inl DepthExceeded
      else if c \<noteq> CHR ''%'' then map_sum id (Cons c) (interpolate depth options cs)
      else if take 1 cs = ''%'' then map_sum id (Cons CHR ''%'') (interpolate depth options (drop 1 cs))
      else case reference (c # cs) of
        None \<Rightarrow> Inl InvalidSyntax
      | Some (name, rest) \<Rightarrow>
          (case options (map lower_char name) of
             None \<Rightarrow> Inl MissingOption
           | Some v \<Rightarrow>
               try_bind (if CHR ''%'' \<in> set v then interpolate (depth - 1) options v else Inr v) (\<lambda>text.
                 map_sum id (\<lambda>t. text @ t) (interpolate depth options rest))))"
  by pat_completeness auto
termination
  by (relation "measures [\<lambda>(depth, options, s). depth, \<lambda>(depth, options, s). length s]") (auto dest: reference_shorter)

section \<open>The configuration\<close>

text \<open>The two options a service sets, and the \<open>here\<close> Alembic adds, which is empty without a file.\<close>

record config =
  cf_script_location :: string
  cf_url :: string

definition option_of :: "config \<Rightarrow> string \<rightharpoonup> string" where
  "option_of config =
     [''here'' \<mapsto> [], ''script_location'' \<mapsto> cf_script_location config, ''sqlalchemy.url'' \<mapsto> cf_url config]"

definition alembic_config :: "string \<Rightarrow> string \<Rightarrow> config_error + config" where
  "alembic_config script_location database_url =
     try_bind (before_set script_location) (\<lambda>location.
     try_bind (before_set (double_percent database_url)) (\<lambda>url.
     Inr \<lparr>cf_script_location = location, cf_url = url\<rparr>))"

definition booking_config :: "string \<Rightarrow> config_error + config" where
  "booking_config = alembic_config ''booking:migrations''"

definition payments_config :: "string \<Rightarrow> config_error + config" where
  "payments_config = alembic_config ''payments:migrations''"

definition notifier_config :: "string \<Rightarrow> config_error + config" where
  "notifier_config = alembic_config ''notifier:migrations''"

text \<open>\<open>config.get_section\<close> of \<open>env.py\<close> interpolates every option of the section; the engine is made from the URL.\<close>

definition MAX_INTERPOLATION_DEPTH :: nat where
  "MAX_INTERPOLATION_DEPTH = 10"

definition get_option :: "config \<Rightarrow> string \<Rightarrow> config_error + string" where
  "get_option config value = interpolate MAX_INTERPOLATION_DEPTH (option_of config) value"

definition engine_url :: "config \<Rightarrow> config_error + string" where
  "engine_url config =
     try_bind (get_option config (cf_script_location config)) (\<lambda>_. get_option config (cf_url config))"

section \<open>What a URL goes through\<close>

lemma interpolate_doubled: "depth > 0 \<Longrightarrow> interpolate depth options (double_percent s) = Inr s"
  by (induction s) simp_all

lemma remove_doubled: "remove_all ''%%'' (double_percent s) = filter (\<lambda>c. c \<noteq> CHR ''%'') s"
  by (induction s) (simp_all add: startswith_def)

lemma no_reference: "take 1 s \<noteq> ''%'' \<Longrightarrow> reference s = None"
  by (cases s) (auto simp: reference_def Let_def)

lemma drop_no_references: "CHR ''%'' \<notin> set s \<Longrightarrow> drop_references s = s"
  by (induction s) (auto simp: no_reference)

lemma before_set_doubled: "before_set (double_percent url) = Inr (double_percent url)"
proof -
  have "CHR ''%'' \<notin> set (remove_all ''%%'' (double_percent url))" by (simp add: remove_doubled)
  then show ?thesis by (simp add: before_set_def drop_no_references)
qed

lemma plain_option: "CHR ''%'' \<notin> set s \<Longrightarrow> double_percent s = s"
  by (induction s) auto

lemma config_url:
  assumes "CHR ''%'' \<notin> set location"
  shows "\<exists>config. alembic_config location url = Inr config \<and> cf_script_location config = location
    \<and> engine_url config = Inr url"
proof -
  have "before_set location = Inr location" "\<And>depth options. depth > 0 \<Longrightarrow> interpolate depth options location = Inr location"
    using before_set_doubled [of location] interpolate_doubled [of _ _ location] plain_option [OF assms] by simp_all
  then show ?thesis
    using before_set_doubled [of url]
    by (simp add: alembic_config_def engine_url_def get_option_def MAX_INTERPOLATION_DEPTH_def interpolate_doubled)
qed

section \<open>The commands\<close>

record database =
  da_schema :: schema
  da_revision :: "string option"

type_synonym server = "string \<rightharpoonup> database"

datatype migrate_error =
  BadOption config_error | CannotConnect | UnknownRevision | Refused | NotUpToDate | NewOperations

text \<open>The revisions of a directory.\<close>

definition scripts :: "string \<Rightarrow> migration list" where
  "scripts location =
     (if location = ''booking:migrations'' then booking_migrations
      else if location = ''payments:migrations'' then payments_migrations
      else if location = ''notifier:migrations'' then [notifier_0001] else [])"

fun upto_revision :: "string \<Rightarrow> migration list \<Rightarrow> migration list" where
  "upto_revision r [] = []"
| "upto_revision r (m # ms) = m # (if mg_revision m = r then [] else upto_revision r ms)"

definition known :: "migration list \<Rightarrow> string option \<Rightarrow> bool" where
  "known ms at \<longleftrightarrow> (case at of None \<Rightarrow> True | Some r \<Rightarrow> r \<in> mg_revision ` set ms)"

text \<open>The revisions from where a database is up to a target, and those to take back down to one, the last first.\<close>

definition revisions_up :: "migration list \<Rightarrow> string option \<Rightarrow> string \<Rightarrow> migration list option" where
  "revisions_up ms at target =
     (let pending = history (length ms) ms at
      in if \<not> known ms at then None
         else if target = ''head'' then Some pending
         else if target \<in> mg_revision ` set pending then Some (upto_revision target pending)
         else if target \<in> mg_revision ` set ms then Some [] else None)"

definition revisions_down :: "migration list \<Rightarrow> string option \<Rightarrow> string \<Rightarrow> migration list option" where
  "revisions_down ms at target =
     (let applied = (case at of None \<Rightarrow> [] | Some r \<Rightarrow> upto_revision r (history (length ms) ms None))
      in if \<not> known ms at then None
         else if target = ''base'' then Some (rev applied)
         else if target \<in> mg_revision ` set applied
         then Some (rev (drop (length (upto_revision target applied)) applied)) else None)"

fun run_up :: "table_data \<Rightarrow> migration list \<Rightarrow> database \<Rightarrow> database option" where
  "run_up d [] a = Some a"
| "run_up d (m # ms) a =
     (case run_ddl d (mg_upgrade m) (da_schema a) of
        None \<Rightarrow> None
      | Some S \<Rightarrow> run_up d ms \<lparr>da_schema = S, da_revision = Some (mg_revision m)\<rparr>)"

fun run_down :: "table_data \<Rightarrow> migration list \<Rightarrow> database \<Rightarrow> database option" where
  "run_down d [] a = Some a"
| "run_down d (m # ms) a =
     (case run_ddl d (mg_downgrade m) (da_schema a) of
        None \<Rightarrow> None
      | Some S \<Rightarrow> run_down d ms \<lparr>da_schema = S, da_revision = mg_down_revision m\<rparr>)"

text \<open>
  \<open>env.py\<close>: connect to the URL of the configuration and run, in one transaction, the revisions the command picks;
  what goes wrong on the way leaves the database as it was.
\<close>

definition run_env ::
  "config \<Rightarrow> (migration list \<Rightarrow> string option \<Rightarrow> migration list option)
   \<Rightarrow> (migration list \<Rightarrow> database \<Rightarrow> database option) \<Rightarrow> server \<Rightarrow> server \<times> (migrate_error + unit)" where
  "run_env config picks runs server =
     (case engine_url config of
        Inl e \<Rightarrow> (server, Inl (BadOption e))
      | Inr url \<Rightarrow>
          (case server url of
             None \<Rightarrow> (server, Inl CannotConnect)
           | Some a \<Rightarrow>
               (case picks (scripts (cf_script_location config)) (da_revision a) of
                  None \<Rightarrow> (server, Inl UnknownRevision)
                | Some ms \<Rightarrow>
                    (case runs ms a of
                       None \<Rightarrow> (server, Inl Refused)
                     | Some a' \<Rightarrow> (server(url \<mapsto> a'), Inr ())))))"

definition migrate_upgrade ::
  "(string \<Rightarrow> config_error + config) \<Rightarrow> table_data \<Rightarrow> string \<Rightarrow> string \<Rightarrow> server \<Rightarrow> server \<times> (migrate_error + unit)" where
  "migrate_upgrade config_of d database_url revision server =
     (case config_of database_url of
        Inl e \<Rightarrow> (server, Inl (BadOption e))
      | Inr config \<Rightarrow> run_env config (\<lambda>ms at. revisions_up ms at revision) (run_up d) server)"

definition migrate_downgrade ::
  "(string \<Rightarrow> config_error + config) \<Rightarrow> table_data \<Rightarrow> string \<Rightarrow> string \<Rightarrow> server \<Rightarrow> server \<times> (migrate_error + unit)" where
  "migrate_downgrade config_of d database_url revision server =
     (case config_of database_url of
        Inl e \<Rightarrow> (server, Inl (BadOption e))
      | Inr config \<Rightarrow> run_env config (\<lambda>ms at. revisions_down ms at revision) (run_down d) server)"

text \<open>
  \<open>check\<close>: is the database at the head of the revisions, and does Alembic see no difference to the tables the
  models declare? How it compares two schemas is the parameter \<open>differs\<close>.
\<close>

definition migrate_check ::
  "(string \<Rightarrow> config_error + config) \<Rightarrow> schema \<Rightarrow> (schema \<Rightarrow> schema \<Rightarrow> bool) \<Rightarrow> string \<Rightarrow> server \<Rightarrow> migrate_error + unit" where
  "migrate_check config_of target_metadata differs database_url server =
     (case config_of database_url of
        Inl e \<Rightarrow> Inl (BadOption e)
      | Inr config \<Rightarrow>
          (case engine_url config of
             Inl e \<Rightarrow> Inl (BadOption e)
           | Inr url \<Rightarrow>
               (case server url of
                  None \<Rightarrow> Inl CannotConnect
                | Some a \<Rightarrow>
                    (case revisions_up (scripts (cf_script_location config)) (da_revision a) ''head'' of
                       None \<Rightarrow> Inl UnknownRevision
                     | Some missing \<Rightarrow>
                         if missing \<noteq> [] then Inl NotUpToDate
                         else if differs (da_schema a) target_metadata then Inl NewOperations else Inr ()))))"

section \<open>What the commands do\<close>

definition migrated_services :: "((string \<Rightarrow> config_error + config) \<times> migration list) list" where
  "migrated_services =
     [(booking_config, booking_migrations), (payments_config, payments_migrations), (notifier_config, [notifier_0001])]"

lemma services_config:
  assumes "(config_of, ms) \<in> set migrated_services"
  shows "\<exists>config. config_of url = Inr config \<and> scripts (cf_script_location config) = ms \<and> engine_url config = Inr url"
proof -
  obtain location where "config_of = alembic_config location" "CHR ''%'' \<notin> set location" "scripts location = ms"
    using assms
    by (auto simp: migrated_services_def booking_config_def payments_config_def notifier_config_def scripts_def)
  with config_url show ?thesis by metis
qed

lemma upgrade_command:
  assumes "(config_of, ms) \<in> set migrated_services"
  shows "migrate_upgrade config_of d url target server =
    (case server url of
       None \<Rightarrow> (server, Inl CannotConnect)
     | Some a \<Rightarrow>
         (case revisions_up ms (da_revision a) target of
            None \<Rightarrow> (server, Inl UnknownRevision)
          | Some new \<Rightarrow> (case run_up d new a of None \<Rightarrow> (server, Inl Refused) | Some a' \<Rightarrow> (server(url \<mapsto> a'), Inr ()))))"
  using services_config [OF assms, of url] by (auto simp: migrate_upgrade_def run_env_def split: option.split)

lemma downgrade_command:
  assumes "(config_of, ms) \<in> set migrated_services"
  shows "migrate_downgrade config_of d url target server =
    (case server url of
       None \<Rightarrow> (server, Inl CannotConnect)
     | Some a \<Rightarrow>
         (case revisions_down ms (da_revision a) target of
            None \<Rightarrow> (server, Inl UnknownRevision)
          | Some old \<Rightarrow> (case run_down d old a of None \<Rightarrow> (server, Inl Refused) | Some a' \<Rightarrow> (server(url \<mapsto> a'), Inr ()))))"
  using services_config [OF assms, of url] by (auto simp: migrate_downgrade_def run_env_def split: option.split)

text \<open>Revisions that follow one another.\<close>

fun chain :: "string option \<Rightarrow> migration list \<Rightarrow> bool" where
  "chain at [] = True"
| "chain at (m # ms) = (mg_down_revision m = at \<and> chain (Some (mg_revision m)) ms)"

definition reached :: "string option \<Rightarrow> migration list \<Rightarrow> string option" where
  "reached at ms = (if ms = [] then at else Some (mg_revision (last ms)))"

definition reversible :: "migration \<Rightarrow> bool" where
  "reversible m \<longleftrightarrow> (\<forall>d d' S S'. wf_schema S \<longrightarrow> run_ddl d (mg_upgrade m) S = Some S' \<longrightarrow>
     run_ddl d' (mg_downgrade m) S' = Some S \<and> wf_schema S')"

lemma run_down_append: "run_down d (xs @ ys) a = Option.bind (run_down d xs a) (run_down d ys)"
  by (induction d xs a rule: run_down.induct) (simp_all split: option.split)

lemma run_up_down:
  assumes "run_up d ms a = Some b" "chain (da_revision a) ms" "wf_schema (da_schema a)" "list_all reversible ms"
  shows "run_down d' (rev ms) b = Some a \<and> da_revision b = reached (da_revision a) ms"
  using assms
proof (induction ms arbitrary: a)
  case (Cons m ms)
  then obtain S where S: "run_ddl d (mg_upgrade m) (da_schema a) = Some S"
    "run_up d ms \<lparr>da_schema = S, da_revision = Some (mg_revision m)\<rparr> = Some b"
    by (auto split: option.splits)
  let ?c = "\<lparr>da_schema = S, da_revision = Some (mg_revision m)\<rparr>"
  have "reversible m" "list_all reversible ms" using Cons.prems(4) by simp_all
  then have undone: "run_ddl d' (mg_downgrade m) S = Some (da_schema a)" "wf_schema S"
    using Cons.prems(3) S(1) unfolding reversible_def by blast+
  with Cons.IH [OF S(2)] Cons.prems have "run_down d' (rev ms) b = Some ?c" "da_revision b = reached (da_revision ?c) ms"
    by simp_all
  with undone Cons.prems(2) show ?case by (auto simp: run_down_append reached_def)
qed (simp add: reached_def)

lemma run_up_revision: "run_up d ms a = Some b \<Longrightarrow> da_revision b = reached (da_revision a) ms"
proof (induction ms arbitrary: a)
  case (Cons m ms)
  then obtain S where "run_up d ms \<lparr>da_schema = S, da_revision = Some (mg_revision m)\<rparr> = Some b"
    by (auto split: option.splits)
  from Cons.IH [OF this] show ?case by (simp add: reached_def)
qed (simp add: reached_def)

lemma run_up_schema: "map_option da_schema (run_up d ms a) = run_ddl d (concat (map mg_upgrade ms)) (da_schema a)"
  by (induction d ms a rule: run_up.induct) (simp_all add: run_ddl_append split: option.split)

lemma service_revisions_reversible:
  assumes "(config_of, ms) \<in> set migrated_services" "m \<in> set ms"
  shows "reversible m"
proof -
  have builds: "list_all builds (mg_upgrade m)"
    using assms by (auto simp: migrated_services_def booking_migrations_def payments_migrations_def revision_defs)
  have "m = booking_0001 \<or> exact_downgrade m"
    using assms exact_downgrades by (auto simp: migrated_services_def booking_migrations_def payments_migrations_def)
  then have "run_ddl d' (mg_downgrade m) S' = Some S"
    if "wf_schema S" "run_ddl d (mg_upgrade m) S = Some S'" for d d' S S'
    using booking_0001_undone undone [OF that(1) builds that(2)] that by (auto simp: exact_downgrade_def)
  with undo_run [OF _ builds] show ?thesis by (auto simp: reversible_def)
qed

text \<open>From wherever a database is, the way up to the head, and back.\<close>

lemma revision_ids:
  "mg_revision booking_0001 = ''0001''" "mg_down_revision booking_0001 = None"
  "mg_revision booking_0002 = ''0002''" "mg_down_revision booking_0002 = Some ''0001''"
  "mg_revision booking_0003 = ''0003''" "mg_down_revision booking_0003 = Some ''0002''"
  "mg_revision booking_0004 = ''0004''" "mg_down_revision booking_0004 = Some ''0003''"
  "mg_revision booking_0005 = ''0005''" "mg_down_revision booking_0005 = Some ''0004''"
  "mg_revision payments_0001 = ''0001''" "mg_down_revision payments_0001 = None"
  "mg_revision payments_0002 = ''0002''" "mg_down_revision payments_0002 = Some ''0001''"
  "mg_revision notifier_0001 = ''0001''" "mg_down_revision notifier_0001 = None"
  by (simp_all add: revision_defs)

definition both_ways :: "migration list \<Rightarrow> string option \<Rightarrow> bool" where
  "both_ways ms at \<longleftrightarrow> chain at (history (length ms) ms at) \<and> set (history (length ms) ms at) \<subseteq> set ms
    \<and> reached at (history (length ms) ms at) = Some (mg_revision (last ms))
    \<and> revisions_down ms (Some (mg_revision (last ms))) (case at of None \<Rightarrow> ''base'' | Some r \<Rightarrow> r)
        = Some (rev (history (length ms) ms at))"

lemma booking_both_ways:
  assumes "at \<in> {None, Some ''0001'', Some ''0002'', Some ''0003'', Some ''0004'', Some ''0005''}"
  shows "both_ways booking_migrations at"
  using assms
  by (elim insertE emptyE)
    (simp_all add: both_ways_def booking_migrations_def revision_ids reached_def revisions_down_def known_def Let_def)

lemma payments_both_ways: "at \<in> {None, Some ''0001'', Some ''0002''} \<Longrightarrow> both_ways payments_migrations at"
  by (elim insertE emptyE)
    (simp_all add: both_ways_def payments_migrations_def revision_ids reached_def revisions_down_def known_def Let_def)

lemma notifier_both_ways: "at \<in> {None, Some ''0001''} \<Longrightarrow> both_ways [notifier_0001] at"
  by (elim insertE emptyE)
    (simp_all add: both_ways_def revision_ids reached_def revisions_down_def known_def Let_def)

lemma service_history:
  assumes "(config_of, ms) \<in> set migrated_services" "known ms at"
  shows "both_ways ms at"
proof -
  consider "ms = booking_migrations" | "ms = payments_migrations" | "ms = [notifier_0001]"
    using assms(1) by (auto simp: migrated_services_def)
  then show ?thesis
  proof cases
    case 1
    with assms(2) have "at \<in> {None, Some ''0001'', Some ''0002'', Some ''0003'', Some ''0004'', Some ''0005''}"
      by (cases at) (auto simp: known_def booking_migrations_def revision_ids)
    with 1 booking_both_ways show ?thesis by simp
  next
    case 2
    with assms(2) have "at \<in> {None, Some ''0001'', Some ''0002''}"
      by (cases at) (auto simp: known_def payments_migrations_def revision_ids)
    with 2 payments_both_ways show ?thesis by simp
  next
    case 3
    with assms(2) have "at \<in> {None, Some ''0001''}" by (cases at) (auto simp: known_def revision_ids)
    with 3 notifier_both_ways show ?thesis by simp
  qed
qed

section \<open>Properties\<close>

text \<open>
  The URL a service is given is the URL its migrations connect to, whatever it contains: a password with percent
  signs, or one that looks like a reference to another option, is stored without complaint and read back unchanged.
\<close>

theorem config_keeps_url:
  "\<exists>b p n. booking_config url = Inr b \<and> engine_url b = Inr url
    \<and> payments_config url = Inr p \<and> engine_url p = Inr url \<and> notifier_config url = Inr n \<and> engine_url n = Inr url"
  using config_url [of "''booking:migrations''" url] config_url [of "''payments:migrations''" url]
    config_url [of "''notifier:migrations''" url]
  by (auto simp: booking_config_def payments_config_def notifier_config_def)

text \<open>The models next to the revisions, and that an upgrade of an empty database satisfies \<open>check\<close>.\<close>

definition service_models :: "((string \<Rightarrow> config_error + config) \<times> migration list \<times> schema) list" where
  "service_models =
     [(booking_config, booking_migrations, booking_metadata), (payments_config, payments_migrations, payments_metadata),
      (notifier_config, [notifier_0001], notifier_metadata)]"

lemma service_models_migrated: "(config_of, ms, metadata) \<in> set service_models \<Longrightarrow> (config_of, ms) \<in> set migrated_services"
  by (auto simp: service_models_def migrated_services_def)

lemma service_models_built:
  "(config_of, ms, metadata) \<in> set service_models \<Longrightarrow> upgrade d ms = Some S \<Longrightarrow> same_schema S metadata"
  using upgrade_builds_models [of d] by (auto simp: service_models_def split: option.splits)

lemma check_command:
  assumes "(config_of, ms) \<in> set migrated_services" "server url = Some a" "revisions_up ms (da_revision a) ''head'' = Some []"
  shows "migrate_check config_of metadata differs url server
    = (if differs (da_schema a) metadata then Inl NewOperations else Inr ())"
  using services_config [OF assms(1), of url] assms(2,3) by (auto simp: migrate_check_def)

text \<open>
  C31. Migrating is all or nothing, can be repeated and can be taken back. For each service and a database at any of
  its revisions: \<open>upgrade\<close> either leaves everything as it was, or changes only the database of the given URL, which
  then is at the last revision. If it was empty, it now has the tables the models declare, and \<open>check\<close> passes for every
  comparison that does not care about the order of columns and indexes. A second \<open>upgrade\<close> changes nothing more, and
  \<open>downgrade\<close> to the revision from before gives back the server as it was.
\<close>

theorem migrating_is_atomic_and_reversible:
  assumes model: "(config_of, ms, metadata) \<in> set service_models" and here: "server url = Some a" "known ms (da_revision a)"
    and wf: "wf_schema (da_schema a)" and ran: "migrate_upgrade config_of d url ''head'' server = (server', r)"
  shows "case r of
      Inl e \<Rightarrow> server' = server \<and> e = Refused
    | Inr _ \<Rightarrow> \<exists>a'. server' = server(url \<mapsto> a') \<and> da_revision a' = Some (mg_revision (last ms))
        \<and> (a = \<lparr>da_schema = [], da_revision = None\<rparr> \<longrightarrow> same_schema (da_schema a') metadata
              \<and> (\<forall>differs. (\<forall>S T. same_schema S T \<longrightarrow> \<not> differs S T) \<longrightarrow>
                    migrate_check config_of metadata differs url server' = Inr ()))
        \<and> migrate_upgrade config_of d' url ''head'' server' = (server', Inr ())
        \<and> migrate_downgrade config_of d' url (case da_revision a of None \<Rightarrow> ''base'' | Some q \<Rightarrow> q) server' = (server, Inr ())"
proof -
  have services: "(config_of, ms) \<in> set migrated_services" using model by (rule service_models_migrated)
  let ?new = "history (length ms) ms (da_revision a)" and ?head = "Some (mg_revision (last ms))"
  have both: "both_ways ms (da_revision a)" "both_ways ms ?head"
    using service_history [OF services] here(2) services
    by (auto simp: known_def migrated_services_def booking_migrations_def payments_migrations_def)
  have up: "revisions_up ms (da_revision a) ''head'' = Some ?new" using here(2) by (simp add: revisions_up_def)
  have "history (length ms) ms ?head = []"
    using services by (auto simp: migrated_services_def booking_migrations_def payments_migrations_def revision_ids)
  moreover have "known ms ?head"
    using services by (auto simp: known_def migrated_services_def booking_migrations_def payments_migrations_def)
  ultimately have again: "revisions_up ms ?head ''head'' = Some []" by (simp add: revisions_up_def)
  show ?thesis
  proof (cases "run_up d ?new a")
    case None
    then show ?thesis using here(1) ran up by (auto simp: upgrade_command [OF services])
  next
    case (Some a')
    then have after: "server' = server(url \<mapsto> a')" "r = Inr ()"
      using here(1) ran up by (auto simp: upgrade_command [OF services])
    have rev: "da_revision a' = ?head"
      using run_up_revision [OF Some] both(1) by (simp add: both_ways_def)
    have "upgrade d ms = Some (da_schema a')" if "a = \<lparr>da_schema = [], da_revision = None\<rparr>"
      using run_up_schema [of d ?new a] Some that by (simp add: upgrade_def)
    then have "same_schema (da_schema a') metadata" if "a = \<lparr>da_schema = [], da_revision = None\<rparr>"
      using service_models_built [OF model] that by blast
    moreover have "migrate_check config_of metadata differs url server'
        = (if differs (da_schema a') metadata then Inl NewOperations else Inr ())" for differs
      by (rule check_command [OF services]) (simp_all add: after rev again)
    moreover have "migrate_upgrade config_of d' url ''head'' server' = (server', Inr ())"
      by (simp add: upgrade_command [OF services] after rev again)
    moreover have "list_all reversible ?new"
      using both(1) service_revisions_reversible [OF services] by (auto simp: both_ways_def list_all_iff)
    then have "run_down d' (rev ?new) a' = Some a"
      using run_up_down [OF Some _ wf] both(1) by (simp add: both_ways_def)
    then have "migrate_downgrade config_of d' url (case da_revision a of None \<Rightarrow> ''base'' | Some q \<Rightarrow> q) server' = (server, Inr ())"
      using both(1) here(1) by (simp add: downgrade_command [OF services] after rev both_ways_def fun_upd_idem)
    ultimately show ?thesis using after rev by auto
  qed
qed

theorem migrating_is_atomic_and_reversible_witness:
  "\<exists>server' a'. migrate_upgrade notifier_config \<lparr>has_rows = (\<lambda>_. True), has_duplicates = (\<lambda>_ _. False)\<rparr>
       ''db://u:100%25@h'' ''head'' [''db://u:100%25@h'' \<mapsto> \<lparr>da_schema = [], da_revision = None\<rparr>] = (server', Inr ())
     \<and> server' ''db://u:100%25@h'' = Some a' \<and> da_schema a' = notifier_metadata
     \<and> migrate_check notifier_config notifier_metadata (\<lambda>S T. \<not> same_schema S T) ''db://u:100%25@h'' server' = Inr ()
     \<and> migrate_downgrade notifier_config \<lparr>has_rows = (\<lambda>_. True), has_duplicates = (\<lambda>_ _. False)\<rparr>
         ''db://u:100%25@h'' ''base'' server' = ([''db://u:100%25@h'' \<mapsto> \<lparr>da_schema = [], da_revision = None\<rparr>], Inr ())"
proof -
  let ?d = "\<lparr>has_rows = (\<lambda>_. True), has_duplicates = (\<lambda>_ _. False)\<rparr>" and ?a = "\<lparr>da_schema = [], da_revision = None\<rparr>"
  let ?url = "''db://u:100%25@h''"
  have in_models: "(notifier_config, [notifier_0001], notifier_metadata) \<in> set service_models"
    by (simp add: service_models_def)
  have in_services: "(notifier_config, [notifier_0001]) \<in> set migrated_services" by (simp add: migrated_services_def)
  have "run_ddl ?d (mg_upgrade notifier_0001) [] = Some notifier_metadata"
    using notifier_upgrade [of ?d] unfolding upgrade_def notifier_history by simp
  then have "run_up ?d [notifier_0001] ?a = Some \<lparr>da_schema = notifier_metadata, da_revision = Some ''0001''\<rparr>"
    by (simp add: revision_ids)
  moreover have "revisions_up [notifier_0001] None ''head'' = Some [notifier_0001]"
    by (simp add: revisions_up_def known_def revision_ids)
  ultimately have up: "migrate_upgrade notifier_config ?d ?url ''head'' [?url \<mapsto> ?a]
      = ([?url \<mapsto> \<lparr>da_schema = notifier_metadata, da_revision = Some ''0001''\<rparr>], Inr ())"
    by (simp add: upgrade_command [OF in_services])
  have "wf_schema (da_schema ?a)" "known [notifier_0001] (da_revision ?a)" "[?url \<mapsto> ?a] ?url = Some ?a"
    by (simp_all add: wf_schema_def index_names_def known_def)
  from migrating_is_atomic_and_reversible [OF in_models this(3,2,1) up, of ?d] up show ?thesis by auto
qed

end
