(* ===== verification/Worker.thy ===== *)
theory Worker
  imports Prelude "HOL-Library.Stream"
begin

text \<open>
  A process whose \<open>main\<close> ends in \<open>while True\<close>: the relays and the consumer. Its run is a possibly infinite
  sequence of turns. The inputs of the turns, one after another, are a stream: what the clock shows and what the rest
  of the system does before the turn. A turn takes the state and gives the next one with what it shows, or with the
  exception that ends the process.
\<close>

codatatype ('o, 'f) run =
  is_ended: Ended (run_failure: 'f)
| Turn (run_turn: 'o) (run_later: "('o, 'f) run")

primcorec forever ::
  "('i \<Rightarrow> 's \<Rightarrow> 's \<times> ('e + 'o)) \<Rightarrow> 'i stream \<Rightarrow> 's \<Rightarrow> ('s \<times> 'o, 's \<times> 'e) run" where
  "forever body inputs s =
     (case snd (body (shd inputs) s) of
        Inl e \<Rightarrow> Ended (fst (body (shd inputs) s), e)
      | Inr x \<Rightarrow> Turn (fst (body (shd inputs) s), x) (forever body (stl inputs) (fst (body (shd inputs) s))))"

text \<open>What turn \<open>n\<close> of a run gave, counted from 0: nothing when the process ended before it.\<close>

primrec outcome_at :: "nat \<Rightarrow> ('s \<times> 'o, 's \<times> 'e) run \<Rightarrow> ('s \<times> ('e + 'o)) option" where
  "outcome_at 0 r = Some (case r of Ended (s, e) \<Rightarrow> (s, Inl e) | Turn (s, x) _ \<Rightarrow> (s, Inr x))"
| "outcome_at (Suc n) r = (case r of Ended _ \<Rightarrow> None | Turn _ r' \<Rightarrow> outcome_at n r')"

coinductive never_ends :: "('o, 'f) run \<Rightarrow> bool" where
  "never_ends r \<Longrightarrow> never_ends (Turn x r)"

inductive_simps never_ends_simps [simp]: "never_ends (Turn x r)" "never_ends (Ended f)"

section \<open>Unfolding a run\<close>

lemma forever_ends: "body (shd inputs) s = (s', Inl e) \<Longrightarrow> forever body inputs s = Ended (s', e)"
  by (subst forever.code) simp

lemma forever_turns:
  "body (shd inputs) s = (s', Inr x) \<Longrightarrow>
     forever body inputs s = Turn (s', x) (forever body (stl inputs) s')"
  by (subst forever.code) simp

lemma outcome_at_first: "outcome_at 0 (forever body inputs s) = Some (body (shd inputs) s)"
  by (cases "body (shd inputs) s"; cases "snd (body (shd inputs) s)") (auto simp: forever_ends forever_turns)

lemma outcome_at_next:
  "outcome_at (Suc n) (forever body inputs s) =
     (case body (shd inputs) s of
        (s', Inl e) \<Rightarrow> None
      | (s', Inr x) \<Rightarrow> outcome_at n (forever body (stl inputs) s'))"
  by (cases "body (shd inputs) s"; cases "snd (body (shd inputs) s)") (auto simp: forever_ends forever_turns)

declare outcome_at.simps [simp del]

text \<open>Turn \<open>n\<close> is the body on input \<open>n\<close>, in a state of which holds whatever every turn keeps.\<close>

lemma outcome_at_body:
  assumes "outcome_at n (forever body inputs s) = Some r" "I s"
    and "\<And>i s s' r. i \<in> sset inputs \<Longrightarrow> I s \<Longrightarrow> body i s = (s', r) \<Longrightarrow> I s'"
  shows "\<exists>t. I t \<and> body (inputs !! n) t = r"
  using assms
proof (induction n arbitrary: inputs s)
  case 0
  then show ?case by (metis outcome_at_first option.inject snth.simps(1))
next
  case (Suc n)
  obtain s' q where b: "body (shd inputs) s = (s', q)" by fastforce
  with Suc.prems(1) obtain x where "q = Inr x" by (cases q) (auto simp: outcome_at_next)
  with b Suc.prems(1) have run: "outcome_at n (forever body (stl inputs) s') = Some r"
    by (simp add: outcome_at_next)
  have "I s'" by (rule Suc.prems(3) [OF _ Suc.prems(2) b]) (simp add: shd_sset)
  from Suc.IH [OF run this] Suc.prems(3) show ?case by (metis snth.simps(2) stl_sset)
qed

lemma outcome_at_inv:
  assumes "outcome_at n (forever body inputs s) = Some (t, r)" "I s"
    and "\<And>i s s' r. i \<in> sset inputs \<Longrightarrow> I s \<Longrightarrow> body i s = (s', r) \<Longrightarrow> I s'"
  shows "I t"
proof -
  obtain u where "I u" "body (inputs !! n) u = (t, r)"
    using outcome_at_body [where I = I, OF assms(1,2)] assms(3) by blast
  with assms(3) [of "inputs !! n"] show ?thesis by (simp add: snth_sset)
qed

text \<open>A process whose turns cannot raise runs for ever, and every turn comes.\<close>

lemma forever_never_ends:
  assumes "\<And>i s. \<exists>x. snd (body i s) = Inr x"
  shows "never_ends (forever body inputs s)"
proof (coinduction arbitrary: inputs s)
  case never_ends
  obtain x where "snd (body (shd inputs) s) = Inr x" using assms by blast
  then have "body (shd inputs) s = (fst (body (shd inputs) s), Inr x)" by (metis prod.collapse)
  from forever_turns [of body inputs, OF this] show ?case by blast
qed

lemma never_ends_outcome: "never_ends r \<Longrightarrow> \<exists>s x. outcome_at n r = Some (s, Inr x)"
proof (induction n arbitrary: r)
  case 0
  then show ?case by (cases r) (auto simp: outcome_at.simps)
next
  case (Suc n)
  then show ?case by (cases r) (auto simp: outcome_at.simps)
qed

section \<open>A worker in its system\<close>

text \<open>
  The contract of a worker: seen from the system it is part of, a turn together with what the others did before
  it is a sequence of the system's steps. Then all its states are states the system can reach, and what holds
  of these holds of a run of the worker.
\<close>

locale worker =
  fixes body :: "'i \<Rightarrow> 's \<Rightarrow> 's \<times> ('e + 'o)"
    and allowed :: "'i \<Rightarrow> bool"
    and world :: "'s \<Rightarrow> 't"
    and move :: "'t \<Rightarrow> 't \<Rightarrow> bool"
  assumes turn_moves: "allowed i \<Longrightarrow> body i s = (s', r) \<Longrightarrow> move\<^sup>*\<^sup>* (world s) (world s')"
begin

lemma run_moves:
  assumes "outcome_at n (forever body inputs s) = Some (t, r)" "pred_stream allowed inputs"
  shows "move\<^sup>*\<^sup>* (world s) (world t)"
proof (rule outcome_at_inv [OF assms(1), where I = "\<lambda>t. move\<^sup>*\<^sup>* (world s) (world t)"])
  fix i u u' r
  assume "i \<in> sset inputs" "move\<^sup>*\<^sup>* (world s) (world u)" "body i u = (u', r)"
  with turn_moves assms(2) show "move\<^sup>*\<^sup>* (world s) (world u')"
    by (meson pred_stream_def rtranclp_trans stream.pred_set)
qed simp

lemma run_reachable:
  assumes "outcome_at n (forever body inputs s) = Some (t, r)" "pred_stream allowed inputs"
    and "reachable_from start move (world s)"
  shows "reachable_from start move (world t)"
  using run_moves [OF assms(1,2)] assms(3)
  by (induction rule: rtranclp_induct) (auto intro: reachable_from.intros)

end

end
