(* ===== verification/Booking_Worker.thy ===== *)
theory Booking_Worker
  imports Booking_Delivery Worker
begin

text \<open>
  \<open>run_forever\<close> of \<open>services/booking/src/booking/outbox.py\<close>: the process of the relay, next to requests and other
  relays that work on the same database. What they do between two turns is an input of the turn, as is the clock
  and the rows they hold locked.
\<close>

section \<open>The process\<close>

record 'w relay_input =
  ri_now :: moment
  ri_locked :: "uuid \<Rightarrow> bool"
  ri_others :: "'w booking_world \<Rightarrow> 'w booking_world"

text \<open>The heartbeat file and the world; a turn shows whether it ends in \<open>time.sleep(poll)\<close>.\<close>

type_synonym 'w relay_state = "(string \<rightharpoonup> string) \<times> 'w booking_world"

definition relay_turn ::
  "'w publisher \<Rightarrow> string option \<Rightarrow> 'w relay_input \<Rightarrow> 'w relay_state \<Rightarrow> 'w relay_state \<times> (py_error + bool)" where
  "relay_turn publish heartbeat i st =
     (let (files, w0) = st;
          w = ri_others i w0;
          (files', s, v, sleeps) = relay_cycle publish heartbeat (ri_locked i) (ri_now i) files (db w) (broker w)
      in ((files', w\<lparr>db := s, broker := v\<rparr>), Inr sleeps))"

definition relay_run_forever ::
  "'w publisher \<Rightarrow> string option \<Rightarrow> 'w relay_input stream \<Rightarrow> 'w relay_state
   \<Rightarrow> ('w relay_state \<times> bool, 'w relay_state \<times> py_error) run" where
  "relay_run_forever publish heartbeat inputs st = forever (relay_turn publish heartbeat) inputs st"

text \<open>The others take steps of the system.\<close>

definition relay_input_ok :: "'w publisher \<Rightarrow> 'w relay_input \<Rightarrow> bool" where
  "relay_input_ok publish i \<longleftrightarrow> (\<forall>w. (booking_step publish)\<^sup>*\<^sup>* w (ri_others i w))"

lemma relay_turn_eq:
  "relay_turn publish heartbeat i (files, w) =
     (case publish_pending publish (ri_locked i) (ri_now i) BATCH_SIZE (db (ri_others i w)) (broker (ri_others i w)) of
        (s, v, sent) \<Rightarrow>
          ((touch_heartbeat heartbeat (ri_now i) files, (ri_others i w)\<lparr>db := s, broker := v\<rparr>), Inr (sent = 0)))"
  by (simp add: relay_turn_def relay_cycle_def Let_def split: prod.splits)

interpretation relay_worker: worker "relay_turn publish heartbeat" "relay_input_ok publish" snd "booking_step publish"
  for publish :: "'w publisher" and heartbeat :: "string option"
proof
  fix i :: "'w relay_input" and st st' :: "'w relay_state" and r
  assume ok: "relay_input_ok publish i" and turn: "relay_turn publish heartbeat i st = (st', r)"
  obtain files w where st: "st = (files, w)" by fastforce
  obtain s v sent where run: "publish_pending publish (ri_locked i) (ri_now i) BATCH_SIZE (db (ri_others i w))
      (broker (ri_others i w)) = (s, v, sent)" by (metis prod_cases3)
  from turn st run have "snd st' = (ri_others i w)\<lparr>db := s, broker := v\<rparr>"
    by (auto simp: relay_turn_eq)
  with step_relay [of publish, OF run] have "booking_step publish (ri_others i w) (snd st')" by simp
  moreover have "(booking_step publish)\<^sup>*\<^sup>* w (ri_others i w)"
    using ok by (simp add: relay_input_ok_def)
  ultimately show "(booking_step publish)\<^sup>*\<^sup>* (snd st) (snd st')" by (simp add: st)
qed

section \<open>The queue in front of a message\<close>

definition waiting_ids :: "booking_db \<Rightarrow> uuid set" where
  "waiting_ids s = ob_id ` set (unpublished s)"

definition queue_before :: "uuid \<Rightarrow> booking_db \<Rightarrow> uuid set" where
  "queue_before mid s = {i \<in> waiting_ids s. i \<le> mid}"

text \<open>
  What every step of the system keeps: messages stay, as they were written, none becomes unpublished again, and
  new ones have ids above all there were.
\<close>

definition outbox_later :: "booking_db \<Rightarrow> booking_db \<Rightarrow> bool" where
  "outbox_later s t \<longleftrightarrow>
     next_uuid s \<le> next_uuid t \<and> sent_form ` set (outbox s) \<subseteq> sent_form ` set (outbox t)
     \<and> (\<forall>i \<in> waiting_ids t. i \<in> waiting_ids s \<or> next_uuid s \<le> i)"

lemma outbox_later_refl [simp]: "outbox_later s s"
  by (simp add: outbox_later_def)

lemma outbox_later_trans: "outbox_later s t \<Longrightarrow> outbox_later t u \<Longrightarrow> outbox_later s u"
  unfolding outbox_later_def by (meson order_trans subset_trans)

lemma outbox_later_append:
  assumes "outbox t = outbox s @ ms" "next_uuid s \<le> next_uuid t" "\<And>m. m \<in> set ms \<Longrightarrow> next_uuid s \<le> ob_id m"
  shows "outbox_later s t"
  using assms by (auto simp: outbox_later_def waiting_ids_def unpublished_def)

lemma outbox_later_delivery:
  assumes "delivery_only s t" "waiting_ids t \<subseteq> waiting_ids s"
  shows "outbox_later s t"
proof -
  have "sent_form ` set (outbox t) = sent_form ` set (outbox s)"
    using assms(1) by (metis delivery_only_def list.set_map)
  with assms show ?thesis by (auto simp: outbox_later_def delivery_only_def)
qed

lemma outbox_later_apply_change: "outbox_later s (apply_change s P st ty sl now)"
proof (rule outbox_later_append)
  fix m
  assume "m \<in> set (event_messages (next_uuid s) st ty (map (\<lambda>b. (bk_id b, bk_client_id b)) (filter P (bookings s))) sl now)"
  then have "ob_id m \<in> set (map ob_id (event_messages (next_uuid s) st ty
      (map (\<lambda>b. (bk_id b, bk_client_id b)) (filter P (bookings s))) sl now))" by simp
  then show "next_uuid s \<le> ob_id m" by (simp add: event_messages_ids)
qed simp_all

lemma waiting_mark: "waiting_ids (mark_published now m s) = waiting_ids s - {ob_id m}"
  by (auto simp: waiting_ids_def unpublished_def mark_published_def set_update_where image_iff split: if_splits)

lemma waiting_failure: "waiting_ids (record_failure m e s) = waiting_ids s"
proof -
  have "map ob_id (unpublished (record_failure m e s)) = map ob_id (unpublished s)"
    unfolding unpublished_def record_failure_def update_message_simps by (rule map_filter_update_where) simp_all
  then show ?thesis by (metis list.set_map waiting_ids_def)
qed

lemma outbox_later_write: "outbox_later s (fst (write_status s b target now))"
proof -
  have "outbox_later t u \<and> next_uuid t \<le> next_uuid u"
    if "enqueue_event t target bid c sl now = Inr u" for t u bid c sl
    using that by (cases "event_type target")
      (auto simp: event_type_None enqueue_event_Some event_message_def intro!: outbox_later_append)
  then have "outbox_later s u" if "enqueue_event (s\<lparr>bookings := bs\<rparr>) target bid c sl now = Inr u" for bs bid c sl u
    using that by (fastforce simp: outbox_later_def waiting_ids_def unpublished_def)
  then show ?thesis
    by (auto simp: write_status_def Let_def try_bind_def split: sum.splits option.splits)
qed

lemma delivered_waiting:
  "delivered (publish_message publish) (mark_published now) ms s v = Some (s', v')
     \<Longrightarrow> waiting_ids s' = waiting_ids s - ob_id ` set ms"
proof (induction ms arbitrary: s v)
  case (Cons m ms)
  obtain v1 r where p: "publish (ob_topic m) (ob_payload m) v = (v1, r)" by fastforce
  with Cons.prems obtain u where "r = Inr u" by (cases r) (simp_all add: publish_message_def)
  with Cons.prems p have "delivered (publish_message publish) (mark_published now) ms (mark_published now m s) v1 = Some (s', v')"
    by (simp add: publish_message_def [of publish m])
  from Cons.IH [OF this] show ?case by (auto simp: waiting_mark)
qed simp

lemma outbox_later_relay:
  assumes "publish_pending publish locked now n s v = (s', v', sent)"
  shows "outbox_later s s'"
proof (rule outbox_later_delivery)
  show "delivery_only s s'"
    using publish_pending_delivery_only [of s publish locked now n v] assms by simp
  show "waiting_ids s' \<subseteq> waiting_ids s"
  proof (rule relay.loop_cases [of publish now "pending_messages locked n (outbox s)" s v])
    fix t x
    assume d: "delivered (publish_message publish) (mark_published now)
        (pending_messages locked n (outbox s)) s v = Some (t, x)"
    with assms delivered_waiting [OF d] show ?thesis
      by (auto simp: publish_pending_def relay.loop_all)
  next
    fix pre m post s1 w1 s2 w2 e
    assume "pending_messages locked n (outbox s) = pre @ m # post"
      "delivered (publish_message publish) (mark_published now) pre s v = Some (s1, w1)"
      "publish_message publish m s1 w1 = (s2, w2, Inl e)"
    with assms show ?thesis by (auto simp: publish_pending_def relay.loop_stops waiting_failure)
  qed
qed

lemma outbox_later_step:
  assumes step: "booking_step publish w w'" and inv: "world_inv w"
  shows "outbox_later (db w) (db w')"
proof -
  from inv have wf: "wf_db (db w)" by (simp add: world_inv_def booking_inv_def)
  show ?thesis
    using step
  proof (cases rule: booking_step.cases)
    case (step_create_slot master st en price now)
    then show ?thesis
      by (auto simp: create_slot_cases [OF wf] Let_def outbox_later_def waiting_ids_def unpublished_def split: option.splits)
  next
    case (step_book_slot sid client now ttl)
    have "outbox_later (db w) (insert_booking (apply_change (db w) P st ty sl now) b)" for P st ty sl b
      using outbox_later_apply_change [of "db w" P st ty sl now]
      by (auto simp: outbox_later_def waiting_ids_def unpublished_def)
    moreover have "outbox_later (db w) (insert_booking (db w) b)" for b
      by (rule outbox_later_append [of _ _ "[]"]) simp_all
    ultimately show ?thesis
      using step_book_slot outbox_later_apply_change
      by (auto simp: book_slot_cases [OF wf] Let_def split: option.splits)
  next
    case (step_read bid b target)
    then show ?thesis by simp
  next
    case (step_write b target now)
    then show ?thesis using outbox_later_write by simp
  next
    case (step_relay locked now n s v sent)
    then show ?thesis using outbox_later_relay by fastforce
  next
    case (step_relay_crash locked n pre post now s v)
    then show ?thesis by simp
  qed
qed

lemma outbox_later_steps:
  "(booking_step publish)\<^sup>*\<^sup>* w w' \<Longrightarrow> world_inv w \<Longrightarrow> outbox_later (db w) (db w') \<and> world_inv w'"
  by (induction rule: rtranclp_induct)
    (auto intro: outbox_later_trans outbox_later_step booking_step_inv)

section \<open>Every message is published\<close>

lemma finite_waiting [simp]: "finite (waiting_ids s)"
  by (simp add: waiting_ids_def)

lemma finite_queue [simp]: "finite (queue_before mid s)"
  by (simp add: queue_before_def)

lemma queue_later: "outbox_later s t \<Longrightarrow> mid < next_uuid s \<Longrightarrow> queue_before mid t \<subseteq> queue_before mid s"
  by (auto simp: outbox_later_def queue_before_def)

text \<open>A batch takes the smallest ids, so the queue in front of a message gets shorter by a whole batch.\<close>

lemma card_after_batch:
  fixes xs :: "nat list"
  assumes "distinct xs"
  shows "card {i \<in> set xs - set (take n (sort xs)). i \<le> k} = card {i \<in> set xs. i \<le> k} - n"
proof -
  let ?xs = "sort xs"
  have d: "distinct ?xs" "sorted ?xs" "set ?xs = set xs" using assms by simp_all
  have pre: "filter (\<lambda>i. i \<le> k) (drop n ys) = drop n (filter (\<lambda>i. i \<le> k) ys)" if "sorted ys" for ys :: "nat list"
    using that
  proof (induction ys arbitrary: n)
    case (Cons y ys)
    then have "filter (\<lambda>i. i \<le> k) ys = []" if "\<not> y \<le> k" using that by (auto simp: filter_empty_conv)
    with Cons show ?case by (cases n) auto
  qed simp
  have "set xs - set (take n ?xs) = set (drop n ?xs)"
    using d set_take_disj_set_drop_if_distinct [OF d(1), of n n] append_take_drop_id [of n ?xs]
    by (metis Diff_cancel Diff_triv Int_commute Un_Diff Un_empty_left order_refl set_append)
  then have "{i \<in> set xs - set (take n ?xs). i \<le> k} = set (filter (\<lambda>i. i \<le> k) (drop n ?xs))" by auto
  then have "card {i \<in> set xs - set (take n ?xs). i \<le> k} = length (drop n (filter (\<lambda>i. i \<le> k) ?xs))"
    unfolding pre [OF d(2)] using d(1) by (simp add: distinct_card distinct_drop)
  moreover have "card {i \<in> set xs. i \<le> k} = length (filter (\<lambda>i. i \<le> k) ?xs)"
    using distinct_card [of "filter (\<lambda>i. i \<le> k) ?xs"] d(1) by simp
  ultimately show ?thesis by simp
qed

lemma queue_after_turn:
  assumes inv: "booking_inv s" and acc: "\<And>topic payload v. snd (publish topic payload v) = Inr ()"
    and run: "publish_pending publish (\<lambda>_. False) now BATCH_SIZE s v = (s', v', sent)"
  shows "card (queue_before mid s') = card (queue_before mid s) - 100"
proof -
  let ?ids = "map ob_id (unpublished s)"
  let ?batch = "pending_messages (\<lambda>_. False) BATCH_SIZE (outbox s)"
  obtain t x where d: "delivered (publish_message publish) (mark_published now) ?batch s v = Some (t, x)"
    using delivered_marks [of publish, OF acc] by blast
  have batch: "map ob_id ?batch = take 100 (sort ?ids)"
    by (simp add: pending_ids unpublished_def BATCH_SIZE_def)
  have ids: "ob_id ` set ?batch = set (take 100 (sort ?ids))" "waiting_ids s = set ?ids"
    by (simp_all flip: batch add: waiting_ids_def)
  have "s' = t" using run relay.loop_all [OF d] by (simp add: publish_pending_def)
  with delivered_waiting [OF d] have "queue_before mid s' = {i \<in> set ?ids - set (take 100 (sort ?ids)). i \<le> mid}"
    by (simp add: queue_before_def ids)
  moreover have "distinct (map ob_id (outbox s))" using inv wf_dbD(5) by (simp add: booking_inv_def)
  then have "distinct ?ids" by (simp add: unpublished_def distinct_map_filter)
  ultimately show ?thesis using card_after_batch [of ?ids 100 mid] by (simp add: queue_before_def ids)
qed

definition relay_alone :: "'w publisher \<Rightarrow> 'w relay_input \<Rightarrow> bool" where
  "relay_alone publish i \<longleftrightarrow> relay_input_ok publish i \<and> ri_locked i = (\<lambda>_. False)"

lemma turn_shortens_queue:
  assumes acc: "\<And>topic payload v. snd (publish topic payload v) = Inr ()" and alone: "relay_alone publish i"
    and inv: "world_inv w" and mid: "mid < next_uuid (db w)"
  obtains files' w' sleeps where "relay_turn publish heartbeat i (files, w) = ((files', w'), Inr sleeps)"
    "(booking_step publish)\<^sup>*\<^sup>* w w'" "card (queue_before mid (db w')) \<le> card (queue_before mid (db w)) - 100"
proof -
  let ?w = "ri_others i w"
  obtain s v sent where run: "publish_pending publish (\<lambda>_. False) (ri_now i) BATCH_SIZE (db ?w) (broker ?w) = (s, v, sent)"
    by (metis prod_cases3)
  let ?w' = "?w\<lparr>db := s, broker := v\<rparr>"
  have ok: "relay_input_ok publish i" "ri_locked i = (\<lambda>_. False)" using alone by (simp_all add: relay_alone_def)
  have turn: "relay_turn publish heartbeat i (files, w) = ((touch_heartbeat heartbeat (ri_now i) files, ?w'), Inr (sent = 0))"
    using run ok(2) by (simp add: relay_turn_eq)
  have others: "outbox_later (db w) (db ?w)" "world_inv ?w"
    using outbox_later_steps [of publish w ?w] ok(1) inv by (simp_all add: relay_input_ok_def)
  then have "card (queue_before mid s) = card (queue_before mid (db ?w)) - 100"
    using queue_after_turn [OF _ acc run] by (simp add: world_inv_def)
  moreover have "card (queue_before mid (db ?w)) \<le> card (queue_before mid (db w))"
    using queue_later [OF others(1) mid] by (rule card_mono [rotated]) simp
  ultimately have "card (queue_before mid (db ?w')) \<le> card (queue_before mid (db w)) - 100" by simp
  moreover have "(booking_step publish)\<^sup>*\<^sup>* w ?w'"
    using relay_worker.turn_moves [OF ok(1) turn] by simp
  ultimately show thesis using turn that by blast
qed

lemma run_shortens_queue:
  assumes acc: "\<And>topic payload v. snd (publish topic payload v) = Inr ()"
    and "pred_stream (relay_alone publish) inputs" "world_inv w" "mid < next_uuid (db w)"
  shows "\<exists>files' w' sleeps.
    outcome_at k (relay_run_forever publish heartbeat inputs (files, w)) = Some ((files', w'), Inr sleeps)
    \<and> (booking_step publish)\<^sup>*\<^sup>* w w' \<and> card (queue_before mid (db w')) \<le> card (queue_before mid (db w)) - 100 * Suc k"
  using assms(2-)
proof (induction k arbitrary: inputs files w)
  case (0 inputs files w)
  have "relay_alone publish (shd inputs)" using 0(1) by (simp add: stream.pred_set shd_sset)
  from turn_shortens_queue [OF acc this 0(2,3), where files = files and heartbeat = heartbeat] obtain files' w' sleeps
    where "relay_turn publish heartbeat (shd inputs) (files, w) = ((files', w'), Inr sleeps)"
      "(booking_step publish)\<^sup>*\<^sup>* w w'" "card (queue_before mid (db w')) \<le> card (queue_before mid (db w)) - 100"
    by metis
  then show ?case unfolding relay_run_forever_def outcome_at_first by auto
next
  case (Suc k inputs files w)
  have "relay_alone publish (shd inputs)" and rest: "pred_stream (relay_alone publish) (stl inputs)"
    using Suc.prems(1) by (auto simp: stream.pred_set shd_sset stl_sset)
  from turn_shortens_queue [OF acc this(1) Suc.prems(2,3), where files = files and heartbeat = heartbeat]
  obtain files' w' sleeps where turn: "relay_turn publish heartbeat (shd inputs) (files, w) = ((files', w'), Inr sleeps)"
    and moves: "(booking_step publish)\<^sup>*\<^sup>* w w'" and card: "card (queue_before mid (db w')) \<le> card (queue_before mid (db w)) - 100"
    by metis
  from outbox_later_steps [OF moves Suc.prems(2)] Suc.prems(3)
  have "world_inv w'" "mid < next_uuid (db w')" by (auto simp: outbox_later_def)
  from Suc.IH [OF rest this, of files'] obtain files2 w2 sl2 where
    "outcome_at k (relay_run_forever publish heartbeat (stl inputs) (files', w')) = Some ((files2, w2), Inr sl2)"
    "(booking_step publish)\<^sup>*\<^sup>* w' w2" "card (queue_before mid (db w2)) \<le> card (queue_before mid (db w')) - 100 * Suc k"
    by blast
  with turn moves card show ?case
    by (force simp: relay_run_forever_def outcome_at_next intro: rtranclp_trans)
qed

text \<open>
  C17. No message is left behind, however busy the service is: while the relay runs, with requests and other
  transactions in between its turns that add messages all the time, a message with at most \<open>100 (k + 1)\<close> unpublished
  messages up to it is marked published after turn \<open>k\<close>, with the topic and payload it was written with, and the broker
  has it. Newer messages never overtake the queue in front of it. The process itself never ends.
\<close>

theorem relay_publishes_everything:
  assumes "\<And>topic payload v. snd (publish topic payload v) = Inr ()" "keeps_log publish log"
    and "pred_stream (relay_alone publish) inputs" "delivery_inv publish log w"
    and "m \<in> set (outbox (db w))" "card (queue_before (ob_id m) (db w)) \<le> 100 * Suc k"
  shows "never_ends (relay_run_forever publish heartbeat inputs (files, w))
    \<and> (\<exists>files' w' sleeps r.
        outcome_at k (relay_run_forever publish heartbeat inputs (files, w)) = Some ((files', w'), Inr sleeps)
        \<and> r \<in> set (outbox (db w')) \<and> sent_form r = sent_form m \<and> ob_published_at r \<noteq> None
        \<and> (ob_topic m, ob_payload m) \<in> log (broker w'))"
proof
  have "\<exists>x. snd (relay_turn publish heartbeat i st) = Inr x" for i st
    by (cases st) (simp add: relay_turn_eq split: prod.splits)
  then show "never_ends (relay_run_forever publish heartbeat inputs (files, w))"
    unfolding relay_run_forever_def by (rule forever_never_ends)
  have inv: "world_inv w" using assms(4) by (simp add: delivery_inv_def)
  then have "ob_id m < next_uuid (db w)"
    using assms(5) wf_dbD(8) by (auto simp: world_inv_def booking_inv_def)
  from run_shortens_queue [OF assms(1,3) inv this, of k heartbeat files] obtain files' w' sleeps where
    run: "outcome_at k (relay_run_forever publish heartbeat inputs (files, w)) = Some ((files', w'), Inr sleeps)"
    and moves: "(booking_step publish)\<^sup>*\<^sup>* w w'"
    and "card (queue_before (ob_id m) (db w')) \<le> card (queue_before (ob_id m) (db w)) - 100 * Suc k" by blast
  with assms(6) have empty: "queue_before (ob_id m) (db w') = {}" by simp
  obtain r where r: "r \<in> set (outbox (db w'))" "sent_form r = sent_form m"
    using outbox_later_steps [OF moves inv] assms(5) by (force simp: outbox_later_def)
  then have "ob_id r = ob_id m" by (simp add: sent_form_def)
  with empty r(1) have pub: "ob_published_at r \<noteq> None"
    by (fastforce simp: queue_before_def waiting_ids_def unpublished_def)
  have "delivery_inv publish log w'" by (rule delivery.moves_inv [OF moves assms(4)])
  with assms(2) r pub have "(ob_topic m, ob_payload m) \<in> log (broker w')"
    by (auto simp: delivery_inv_def published_logged_def sent_form_def)
  with run r pub show "\<exists>files' w' sleeps r.
        outcome_at k (relay_run_forever publish heartbeat inputs (files, w)) = Some ((files', w'), Inr sleeps)
        \<and> r \<in> set (outbox (db w')) \<and> sent_form r = sent_form m \<and> ob_published_at r \<noteq> None
        \<and> (ob_topic m, ob_payload m) \<in> log (broker w')" by blast
qed

definition accepting_broker :: "(string \<times> (string \<times> json) list) list publisher" where
  "accepting_broker topic payload v = (v @ [(topic, payload)], Inr ())"

lemma accepting_broker_keeps: "keeps_log accepting_broker set" "snd (accepting_broker topic payload v) = Inr ()"
  by (auto simp: keeps_log_def accepting_broker_def)

text \<open>A turn before which somebody publishes a slot.\<close>

definition busy_turn :: "'w relay_input" where
  "busy_turn = \<lparr>ri_now = 30, ri_locked = (\<lambda>_. False),
     ri_others = (\<lambda>w. w\<lparr>db := fst (create_slot (db w) ''m'' (utc_datetime (minutes 60)) (utc_datetime (minutes 90)) 5 0)\<rparr>)\<rparr>"

lemma busy_turn_alone: "pred_stream (relay_alone publish) (sconst busy_turn)"
  by (auto simp: stream.pred_set relay_alone_def relay_input_ok_def busy_turn_def
      intro!: r_into_rtranclp step_create_slot)

theorem relay_publishes_everything_witness:
  "\<exists>files w' sleeps r.
     outcome_at 0 (relay_run_forever accepting_broker (Some ''/tmp/heartbeat'') (sconst busy_turn) (Map.empty,
         \<lparr>db = confirmed_db, inflight = [(example_booking, Cancelled)], broker = []\<rparr>)) = Some ((files, w'), Inr sleeps)
     \<and> r \<in> set (outbox (db w')) \<and> ob_topic r = ''booking.confirmed'' \<and> ob_published_at r \<noteq> None"
proof -
  let ?w = "\<lparr>db = confirmed_db, inflight = [(example_booking, Cancelled)], broker = []\<rparr>"
  have topic: "ob_topic confirmed_message = ''booking.confirmed''"
    by (simp add: confirmed_message_def event_message_def)
  have inv: "delivery_inv accepting_broker set ?w"
    by (rule delivery.reachable_inv [OF confirmed_reachable])
  have "queue_before (ob_id confirmed_message) (db ?w) \<subseteq> {2}"
    by (auto simp: queue_before_def waiting_ids_def unpublished_def confirmed_db_simps confirmed_message_def event_message_def)
  from card_mono [OF _ this]
  have "card (queue_before (ob_id confirmed_message) (db ?w)) \<le> 100 * Suc 0" by simp
  moreover have "confirmed_message \<in> set (outbox (db ?w))" by (simp add: confirmed_db_simps)
  ultimately obtain files w' sleeps r where
    "outcome_at 0 (relay_run_forever accepting_broker (Some ''/tmp/heartbeat'') (sconst busy_turn) (Map.empty, ?w))
       = Some ((files, w'), Inr sleeps)"
    "r \<in> set (outbox (db w'))" "sent_form r = sent_form confirmed_message" "ob_published_at r \<noteq> None"
    using relay_publishes_everything [OF accepting_broker_keeps(2) accepting_broker_keeps(1) busy_turn_alone inv]
    by metis
  moreover from this have "ob_topic r = ''booking.confirmed''" using topic by (simp add: sent_form_def)
  ultimately show ?thesis by blast
qed

end
