(* ===== verification/Payments_Worker.thy ===== *)
theory Payments_Worker
  imports Payments_System Worker Pyiso
begin

text \<open>
  \<open>run_forever\<close> of \<open>services/payments/src/payments/relay.py\<close>: the process that delivers the commands, next to requests,
  webhooks and other relays.
\<close>

definition pay_touch_heartbeat ::
  "string option \<Rightarrow> moment \<Rightarrow> (string \<rightharpoonup> string) \<Rightarrow> (string \<rightharpoonup> string)" where
  "pay_touch_heartbeat path now files =
     (case path of None \<Rightarrow> files | Some p \<Rightarrow> files(p \<mapsto> isoformat (utc_datetime now)))"

record 'w pay_relay_input =
  pi_now :: moment
  pi_locked :: "uuid \<Rightarrow> bool"
  pi_others :: "'w pay_world \<Rightarrow> 'w pay_world"

type_synonym 'w pay_relay_state = "(string \<rightharpoonup> string) \<times> 'w pay_world"

definition pay_relay_turn ::
  "'w transport \<Rightarrow> 'w transport \<Rightarrow> (payment_error exn \<Rightarrow> string) \<Rightarrow> string option \<Rightarrow> 'w pay_relay_input
   \<Rightarrow> 'w pay_relay_state \<Rightarrow> 'w pay_relay_state \<times> (py_error + bool)" where
  "pay_relay_turn booking paystub describe heartbeat i st =
     (let (files, w0) = st;
          w = pi_others i w0;
          files' = pay_touch_heartbeat heartbeat (pi_now i) files;
          (s, v, sleeps) = pay_relay_cycle booking paystub describe (pi_locked i) (pi_now i) (pdb w) (net w)
      in ((files', w\<lparr>pdb := s, net := v\<rparr>), Inr sleeps))"

definition pay_relay_run_forever ::
  "'w transport \<Rightarrow> 'w transport \<Rightarrow> (payment_error exn \<Rightarrow> string) \<Rightarrow> string option \<Rightarrow> 'w pay_relay_input stream
   \<Rightarrow> 'w pay_relay_state \<Rightarrow> ('w pay_relay_state \<times> bool, 'w pay_relay_state \<times> py_error) run" where
  "pay_relay_run_forever booking paystub describe heartbeat inputs st =
     forever (pay_relay_turn booking paystub describe heartbeat) inputs st"

definition pay_relay_input_ok ::
  "'w transport \<Rightarrow> 'w transport \<Rightarrow> (payment_error exn \<Rightarrow> string) \<Rightarrow> 'w pay_relay_input \<Rightarrow> bool" where
  "pay_relay_input_ok booking paystub describe i \<longleftrightarrow>
     (\<forall>w. (pay_step booking paystub describe)\<^sup>*\<^sup>* w (pi_others i w))"

lemma pay_relay_turn_eq:
  "pay_relay_turn booking paystub describe heartbeat i (files, w) =
     (case process_pending booking paystub describe (pi_locked i) (pi_now i) PAY_BATCH_SIZE
         (pdb (pi_others i w)) (net (pi_others i w)) of
        (s, v, count) \<Rightarrow>
          ((pay_touch_heartbeat heartbeat (pi_now i) files, (pi_others i w)\<lparr>pdb := s, net := v\<rparr>), Inr (count = 0)))"
  by (simp add: pay_relay_turn_def pay_relay_cycle_def Let_def split: prod.splits)

interpretation pay_relay_worker: worker "pay_relay_turn booking paystub describe heartbeat"
    "pay_relay_input_ok booking paystub describe" snd "pay_step booking paystub describe"
  for booking paystub :: "'w transport" and describe :: "payment_error exn \<Rightarrow> string" and heartbeat :: "string option"
proof
  fix i :: "'w pay_relay_input" and st st' :: "'w pay_relay_state" and r
  assume ok: "pay_relay_input_ok booking paystub describe i"
    and turn: "pay_relay_turn booking paystub describe heartbeat i st = (st', r)"
  obtain files w where st: "st = (files, w)" by fastforce
  obtain s v count where run: "process_pending booking paystub describe (pi_locked i) (pi_now i) PAY_BATCH_SIZE
      (pdb (pi_others i w)) (net (pi_others i w)) = (s, v, count)" by (metis prod_cases3)
  from turn st run have "snd st' = (pi_others i w)\<lparr>pdb := s, net := v\<rparr>" by (auto simp: pay_relay_turn_eq)
  with pay_relay [OF run] have "pay_step booking paystub describe (pi_others i w) (snd st')" by simp
  moreover have "(pay_step booking paystub describe)\<^sup>*\<^sup>* w (pi_others i w)"
    using ok by (simp add: pay_relay_input_ok_def)
  ultimately show "(pay_step booking paystub describe)\<^sup>*\<^sup>* (snd st) (snd st')" by (simp add: st)
qed

text \<open>The ledger of the money accounts for every payment after every turn.\<close>

lemma pay_run_keeps_ledger:
  assumes "outcome_at n (pay_relay_run_forever booking paystub describe heartbeat inputs (files, w)) = Some ((files', w'), r)"
    and "pred_stream (pay_relay_input_ok booking paystub describe) inputs" "pay_inv (pdb w)"
  shows "pay_inv (pdb w')"
  using pay_relay_worker.run_moves [OF assms(1) [unfolded pay_relay_run_forever_def] assms(2)]
    pay_system.moves_inv assms(3) by fastforce

end
