(* ===== verification/Notifier_Worker.thy ===== *)
theory Notifier_Worker
  imports Notifier_Properties Worker
begin

text \<open>
  \<open>run_forever\<close> of \<open>services/notifier/src/notifier/consumer.py\<close>: the process of a consumer. It makes sure its group
  exists, then handles what is due, over and over; an exception that \<open>_handle\<close> does not catch ends it. \<open>consumer_steps\<close>
  shows that such a run, next to other consumers, takes only steps of \<open>Notifier_System\<close>.
\<close>

section \<open>The process\<close>

definition notify_touch_heartbeat ::
  "string option \<Rightarrow> moment \<Rightarrow> (string \<rightharpoonup> string) \<Rightarrow> (string \<rightharpoonup> string)" where
  "notify_touch_heartbeat path now files =
     (case path of None \<Rightarrow> files | Some p \<Rightarrow> files(p \<mapsto> isoformat (utc_datetime now)))"

text \<open>What the others do before a turn, to the table and to the world of the broker and the gateway.\<close>

type_synonym 'w elsewhere = "notification list \<times> 'w \<Rightarrow> notification list \<times> 'w"

text \<open>The heartbeat file, the table and the world.\<close>

type_synonym 'w consumer_state = "(string \<rightharpoonup> string) \<times> notification list \<times> 'w"

definition consumer_turn ::
  "python_env \<Rightarrow> 'w redis \<Rightarrow> 'w transport \<Rightarrow> ('w \<Rightarrow> moment) \<Rightarrow> consumer_settings \<Rightarrow> string option
   \<Rightarrow> 'w elsewhere \<Rightarrow> 'w consumer_state \<Rightarrow> 'w consumer_state \<times> ((string + notify_error exn) + outcome list)" where
  "consumer_turn env rd gateway clock cfg heartbeat others st =
     (let (files, rows0, w0) = st;
          (rows, w) = others (rows0, w0);
          files' = notify_touch_heartbeat heartbeat (clock w) files;
          (rows', w', r) = run_once env rd gateway clock cfg rows w
      in ((files', rows', w'), case r of Inl e \<Rightarrow> Inl (Inr e) | Inr results \<Rightarrow> Inr results))"

definition consumer_run_forever ::
  "python_env \<Rightarrow> 'w redis \<Rightarrow> 'w transport \<Rightarrow> ('w \<Rightarrow> moment) \<Rightarrow> (string \<Rightarrow> bool) \<Rightarrow> consumer_settings \<Rightarrow> string option
   \<Rightarrow> 'w elsewhere stream \<Rightarrow> 'w consumer_state
   \<Rightarrow> ('w consumer_state \<times> outcome list, 'w consumer_state \<times> (string + notify_error exn)) run" where
  "consumer_run_forever env rd gateway clock is_busygroup cfg heartbeat inputs st =
     (let (files, rows, w) = st
      in case ensure_group rd is_busygroup cfg w of
           (w', Inl error) \<Rightarrow> Ended ((files, rows, w'), Inl error)
         | (w', Inr _) \<Rightarrow> forever (consumer_turn env rd gateway clock cfg heartbeat) inputs (files, rows, w'))"

section \<open>A broker and a gateway that keep books\<close>

text \<open>
  What \<open>Notifier_System\<close> knows of a world: \<open>log\<close> is what was acknowledged, dead-lettered and accepted, \<open>busy\<close>
  what other consumers hold. The commands write their entry and nothing else, and only messages of the stream
  are delivered.
\<close>

definition keeps_books ::
  "'w redis \<Rightarrow> 'w transport \<Rightarrow> ('w \<Rightarrow> delivery_log) \<Rightarrow> ('w \<Rightarrow> (string \<times> message_fields \<times> work) list)
   \<Rightarrow> (string \<times> message_fields) set \<Rightarrow> bool" where
  "keeps_books rd gateway log busy stream \<longleftrightarrow>
     (\<forall>s g i w. log (rd_ack rd s g i w) = (log w)\<lparr>lg_acks := i # lg_acks (log w)\<rparr> \<and> busy (rd_ack rd s g i w) = busy w)
     \<and> (\<forall>s x w. log (rd_add rd s x w) = (log w)\<lparr>lg_dead := x # lg_dead (log w)\<rparr> \<and> busy (rd_add rd s x w) = busy w)
     \<and> (\<forall>rq w w' reply. gateway rq w = (w', reply) \<longrightarrow> busy w' = busy w
          \<and> log w' = (if accepted reply then (log w)\<lparr>lg_accepted := rq # lg_accepted (log w)\<rparr> else log w))
     \<and> (\<forall>s g w. log (fst (rd_group_create rd s g w)) = log w \<and> busy (fst (rd_group_create rd s g w)) = busy w)
     \<and> (\<forall>s g n t w. log (fst (rd_pending rd s g n t w)) = log w \<and> busy (fst (rd_pending rd s g n t w)) = busy w)
     \<and> (\<forall>s g c t ids w w' ms. rd_claim rd s g c t ids w = (w', ms) \<longrightarrow>
          log w' = log w \<and> busy w' = busy w \<and> set ms \<subseteq> stream)
     \<and> (\<forall>g c s n t w w' r. rd_read rd g c s n t w = (w', r) \<longrightarrow>
          log w' = log w \<and> busy w' = busy w \<and> (\<forall>ms \<in> snd ` set r. set ms \<subseteq> stream))"

definition seen_as ::
  "('w \<Rightarrow> delivery_log) \<Rightarrow> ('w \<Rightarrow> (string \<times> message_fields \<times> work) list) \<Rightarrow> 'w consumer_state \<Rightarrow> notify_world" where
  "seen_as log busy st = (case st of (files, rows, w) \<Rightarrow> \<lparr>nw_rows = rows, nw_log = log w, nw_busy = busy w\<rparr>)"

lemma seen_as_simp [simp]: "seen_as log busy (files, rows, w) = \<lparr>nw_rows = rows, nw_log = log w, nw_busy = busy w\<rparr>"
  by (simp add: seen_as_def)

lemma keeps_booksD:
  assumes "keeps_books rd gateway log busy stream"
  shows "log (ack rd cfg i w) = (log w)\<lparr>lg_acks := i # lg_acks (log w)\<rparr>" "busy (ack rd cfg i w) = busy w"
    "log (rd_add rd s x w) = (log w)\<lparr>lg_dead := x # lg_dead (log w)\<rparr>" "busy (rd_add rd s x w) = busy w"
    "gateway rq w = (w', reply) \<Longrightarrow> busy w' = busy w"
    "gateway rq w = (w', reply) \<Longrightarrow>
       log w' = (if accepted reply then (log w)\<lparr>lg_accepted := rq # lg_accepted (log w)\<rparr> else log w)"
  using assms by (simp_all add: keeps_books_def ack_def)

lemma advance_seen:
  assumes books: "keeps_books rd gateway log busy stream"
    and step: "advance env rd gateway clock cfg i msg k rows w = (rows', w', r)"
  shows "busy w' = busy w \<and> (\<exists>reply. advance env logging_redis (logging_gateway reply) (\<lambda>_. clock w) cfg i msg k rows (log w)
    = (rows', log w', r))"
proof (cases "\<exists>e t. k = CallGateway e t")
  case True
  then obtain e t where k: "k = CallGateway e t" by blast
  let ?rq = "send_request (ev_event_id e) (ev_client_id e) t"
  obtain v reply where g: "gateway ?rq w = (v, reply)" by fastforce
  have "logging_gateway reply ?rq (log w) = (log v, reply)"
    using keeps_booksD(6) [OF books g] by (simp add: logging_gateway_def)
  with step g keeps_booksD(5) [OF books g]
  have "busy w' = busy w \<and> advance env logging_redis (logging_gateway reply) (\<lambda>_. clock w) cfg i msg k rows (log w) = (rows', log w', r)"
    by (auto simp: k advance_def send_def Let_def split: sum.splits)
  then show ?thesis by blast
next
  case False
  have "busy w' = busy w \<and> advance env logging_redis (logging_gateway reply) (\<lambda>_. clock w) cfg i msg k rows (log w) = (rows', log w', r)" for reply
    using step False keeps_booksD(1-4) [OF books]
    by (cases k) (auto simp: advance_def logging_redis_def ack_def split: sum.splits prod.splits bool.splits)
  then show ?thesis by blast
qed

section \<open>A run takes steps of the system\<close>

text \<open>One cut of a handler at the head of what is busy, and the rest of the handler after it.\<close>

lemma work_steps:
  assumes books: "keeps_books rd gateway log busy stream"
    and "run_work n env rd gateway clock cfg i msg k rows w = Some (rows', w', r)"
  shows "busy w' = busy w \<and> (notify_step env cfg stream)\<^sup>*\<^sup>*
      \<lparr>nw_rows = rows, nw_log = log w, nw_busy = (i, msg, k) # busy w\<rparr>
      \<lparr>nw_rows = rows', nw_log = log w', nw_busy = busy w'\<rparr>"
  using assms(2)
proof (induction n arbitrary: k rows w)
  case (Suc n)
  obtain rows1 w1 q where step: "advance env rd gateway clock cfg i msg k rows w = (rows1, w1, q)"
    by (metis prod_cases3)
  obtain reply where same: "busy w1 = busy w"
    and seen: "advance env logging_redis (logging_gateway reply) (\<lambda>_. clock w) cfg i msg k rows (log w) = (rows1, log w1, q)"
    using advance_seen [OF books step] by blast
  have move: "notify_step env cfg stream \<lparr>nw_rows = rows, nw_log = log w, nw_busy = (i, msg, k) # busy w\<rparr>
      \<lparr>nw_rows = rows1, nw_log = log w1, nw_busy = next_work (i, msg) q @ busy w1\<rparr>"
    using step_advance [of "\<lparr>nw_rows = rows, nw_log = log w, nw_busy = (i, msg, k) # busy w\<rparr>" "[]" i msg k "busy w"]
      seen same by simp
  show ?case
  proof (cases "\<exists>k1. q = Inr (Inl k1)")
    case True
    then obtain k1 where q: "q = Inr (Inl k1)" by blast
    with Suc.prems step have "run_work n env rd gateway clock cfg i msg k1 rows1 w1 = Some (rows', w', r)" by simp
    from Suc.IH [OF this] move same q show ?thesis by (auto intro: converse_rtranclp_into_rtranclp)
  next
    case False
    then have "next_work (i, msg) q = []" by (cases "((i, msg), q)" rule: next_work.cases) auto
    moreover have "rows' = rows1 \<and> w' = w1"
      using Suc.prems step False by (cases q) (auto split: sum.splits)
    ultimately show ?thesis using move same by auto
  qed
qed simp

lemma handle_steps:
  assumes books: "keeps_books rd gateway log busy stream" and "(i, msg) \<in> stream"
    and "handle env rd gateway clock cfg i msg d rows w = (rows', w', r)"
  shows "busy w' = busy w \<and> (notify_step env cfg stream)\<^sup>*\<^sup>*
      \<lparr>nw_rows = rows, nw_log = log w, nw_busy = busy w\<rparr> \<lparr>nw_rows = rows', nw_log = log w', nw_busy = busy w'\<rparr>"
proof -
  have "notify_step env cfg stream \<lparr>nw_rows = rows, nw_log = log w, nw_busy = busy w\<rparr>
      \<lparr>nw_rows = rows, nw_log = log w, nw_busy = (i, msg, Received d) # busy w\<rparr>"
    using step_receive [OF assms(2), of env cfg "\<lparr>nw_rows = rows, nw_log = log w, nw_busy = busy w\<rparr>" d] by simp
  with work_steps [OF books] advance_handles assms(3) show ?thesis
    by (metis converse_rtranclp_into_rtranclp)
qed

lemma handle_all_steps:
  assumes books: "keeps_books rd gateway log busy stream"
    and "handle_all env rd gateway clock cfg due results rows w = (rows', w', r)"
    and "(\<lambda>(i, f, d). (i, f)) ` set due \<subseteq> stream"
  shows "busy w' = busy w \<and> (notify_step env cfg stream)\<^sup>*\<^sup>*
      \<lparr>nw_rows = rows, nw_log = log w, nw_busy = busy w\<rparr> \<lparr>nw_rows = rows', nw_log = log w', nw_busy = busy w'\<rparr>"
  using assms(2,3)
proof (induction due arbitrary: results rows w)
  case (Cons x due)
  obtain i f d where x: "x = (i, f, d)" by (metis prod_cases3)
  obtain rows1 w1 q where h: "handle env rd gateway clock cfg i f d rows w = (rows1, w1, q)" by (metis prod_cases3)
  have "(i, f) \<in> stream" using Cons.prems(2) by (simp add: x)
  from handle_steps [OF books this h] have one: "busy w1 = busy w" "(notify_step env cfg stream)\<^sup>*\<^sup>*
      \<lparr>nw_rows = rows, nw_log = log w, nw_busy = busy w\<rparr> \<lparr>nw_rows = rows1, nw_log = log w1, nw_busy = busy w1\<rparr>" by blast+
  show ?case
  proof (cases q)
    case (Inl e)
    with Cons.prems(1) h one show ?thesis by (auto simp: x)
  next
    case (Inr out)
    with Cons.prems h have "handle_all env rd gateway clock cfg due (results @ [out]) rows1 w1 = (rows', w', r)"
      "(\<lambda>(i, f, d). (i, f)) ` set due \<subseteq> stream" by (simp_all add: x)
    from Cons.IH [OF this] one show ?thesis by (metis rtranclp_trans)
  qed
qed simp

lemma due_in_stream:
  assumes books: "keeps_books rd gateway log busy stream"
  shows "reclaimed rd cfg w = (w1, q) \<Longrightarrow> log w1 = log w \<and> busy w1 = busy w
      \<and> (\<forall>due. q = Inr due \<longrightarrow> (\<lambda>(i, f, d). (i, f)) ` set due \<subseteq> stream)"
    and "fresh rd cfg w = (w1, due) \<Longrightarrow> log w1 = log w \<and> busy w1 = busy w \<and> (\<lambda>(i, f, d). (i, f)) ` set due \<subseteq> stream"
proof -
  assume r: "reclaimed rd cfg w = (w1, q)"
  obtain v pending where p: "rd_pending rd (cs_stream cfg) (cs_group cfg) (cs_batch cfg) (cs_idle_ms cfg) w = (v, pending)"
    by fastforce
  then have v: "log v = log w" "busy v = busy w"
    using books unfolding keeps_books_def by (metis fst_conv)+
  obtain u claimed where c: "rd_claim rd (cs_stream cfg) (cs_group cfg) (cs_consumer cfg) (cs_idle_ms cfg)
      (map fst (dict_of pending)) v = (u, claimed)" by fastforce
  then have u: "log u = log v" "busy u = busy v" "set claimed \<subseteq> stream"
    using books unfolding keeps_books_def by blast+
  from r p c u v show "log w1 = log w \<and> busy w1 = busy w
      \<and> (\<forall>due. q = Inr due \<longrightarrow> (\<lambda>(i, f, d). (i, f)) ` set due \<subseteq> stream)"
    by (auto simp: reclaimed_def Let_def split: if_splits)
next
  assume f: "fresh rd cfg w = (w1, due)"
  obtain response where "rd_read rd (cs_group cfg) (cs_consumer cfg) (cs_stream cfg) (cs_batch cfg)
      (if cs_block_ms cfg = 0 then None else Some (cs_block_ms cfg)) w = (w1, response)"
    "due = concat (map (\<lambda>(s, entries). map (\<lambda>(i, f). (i, f, 1)) entries) response)"
    using f by (auto simp: fresh_def split: prod.splits)
  moreover from this(1) have "log w1 = log w \<and> busy w1 = busy w \<and> (\<forall>ms \<in> snd ` set response. set ms \<subseteq> stream)"
    using books unfolding keeps_books_def by blast
  ultimately show "log w1 = log w \<and> busy w1 = busy w \<and> (\<lambda>(i, f, d). (i, f)) ` set due \<subseteq> stream"
    by fastforce
qed

lemma run_once_steps:
  assumes books: "keeps_books rd gateway log busy stream"
    and run: "run_once env rd gateway clock cfg rows w = (rows', w', r)"
  shows "(notify_step env cfg stream)\<^sup>*\<^sup>*
      \<lparr>nw_rows = rows, nw_log = log w, nw_busy = busy w\<rparr> \<lparr>nw_rows = rows', nw_log = log w', nw_busy = busy w'\<rparr>"
proof -
  obtain w1 q where c: "reclaimed rd cfg w = (w1, q)" by fastforce
  note one = due_in_stream(1) [OF books c]
  show ?thesis
  proof (cases q)
    case (Inl e)
    with run c one show ?thesis by (auto simp: run_once_def)
  next
    case (Inr abandoned)
    obtain w2 new where f: "fresh rd cfg w1 = (w2, new)" by fastforce
    note two = due_in_stream(2) [OF books f]
    from run c Inr f have "handle_all env rd gateway clock cfg (abandoned @ new) [] rows w2 = (rows', w', r)"
      by (simp add: run_once_def)
    from handle_all_steps [OF books this] one two Inr show ?thesis by (auto simp: image_Un)
  qed
qed

text \<open>What the others may do: steps of the system.\<close>

definition consumer_input_ok ::
  "python_env \<Rightarrow> 'w redis \<Rightarrow> 'w transport \<Rightarrow> ('w \<Rightarrow> delivery_log) \<Rightarrow> ('w \<Rightarrow> (string \<times> message_fields \<times> work) list)
   \<Rightarrow> consumer_settings \<Rightarrow> (string \<times> message_fields) set \<Rightarrow> 'w elsewhere \<Rightarrow> bool" where
  "consumer_input_ok env rd gateway log busy cfg stream others \<longleftrightarrow>
     keeps_books rd gateway log busy stream
     \<and> (\<forall>files rows w. (notify_step env cfg stream)\<^sup>*\<^sup>* (seen_as log busy (files, rows, w)) (seen_as log busy (files, others (rows, w))))"

interpretation consumer_worker: worker "consumer_turn env rd gateway clock cfg heartbeat"
    "consumer_input_ok env rd gateway log busy cfg stream" "seen_as log busy" "notify_step env cfg stream"
  for env rd and gateway :: "'w transport" and clock cfg heartbeat log busy stream
proof
  fix others :: "'w elsewhere" and st st' :: "'w consumer_state" and r
  assume ok: "consumer_input_ok env rd gateway log busy cfg stream others"
    and turn: "consumer_turn env rd gateway clock cfg heartbeat others st = (st', r)"
  obtain files rows0 w0 where st: "st = (files, rows0, w0)" by (metis prod_cases3)
  obtain rows w where o: "others (rows0, w0) = (rows, w)" by fastforce
  obtain rows' w' q where run: "run_once env rd gateway clock cfg rows w = (rows', w', q)" by (metis prod_cases3)
  have "(notify_step env cfg stream)\<^sup>*\<^sup>* (seen_as log busy st) (seen_as log busy (files, rows, w))"
    using ok st unfolding consumer_input_ok_def o [symmetric] by blast
  moreover have "(notify_step env cfg stream)\<^sup>*\<^sup>* (seen_as log busy (files, rows, w)) (seen_as log busy st')"
    using turn o run run_once_steps [of rd gateway log busy stream, OF _ run] ok
    by (auto simp: consumer_turn_def st consumer_input_ok_def)
  ultimately show "(notify_step env cfg stream)\<^sup>*\<^sup>* (seen_as log busy st) (seen_as log busy st')" by (rule rtranclp_trans)
qed

lemma consumer_turn_error: "snd (consumer_turn env rd gateway clock cfg heartbeat others st) \<noteq> Inl (Inl error)"
  by (simp add: consumer_turn_def Let_def split: prod.split sum.split)

text \<open>
  C27. The process of a consumer is part of the system whose safety is proved: with a broker and a gateway that keep
  books, whatever other consumers do between its turns, after every turn of \<open>run_forever\<close>, the one that ends it with an exception
  included, the table and the books are a state that interleaved consumers can reach. The process fails before its
  first turn exactly when its group cannot be created for another reason than that it exists.
\<close>

theorem consumer_steps:
  assumes "keeps_books rd gateway log busy stream"
    and "pred_stream (consumer_input_ok env rd gateway log busy cfg stream) inputs"
    and "reachable_from notify_start (notify_step env cfg stream) (seen_as log busy (files, rows, w))"
    and "outcome_at n (consumer_run_forever env rd gateway clock is_busygroup cfg heartbeat inputs (files, rows, w)) = Some (st, r)"
  shows "reachable_from notify_start (notify_step env cfg stream) (seen_as log busy st)
    \<and> ((\<exists>error. r = Inl (Inl error)) \<longleftrightarrow> (\<exists>w' error. ensure_group rd is_busygroup cfg w = (w', Inl error)))"
proof -
  obtain w' g where e: "ensure_group rd is_busygroup cfg w = (w', g)" by fastforce
  have same: "seen_as log busy (files, rows, w') = seen_as log busy (files, rows, w)"
    using assms(1) e unfolding keeps_books_def ensure_group_def
    by (auto split: prod.splits option.splits) (metis fst_conv)+
  show ?thesis
  proof (cases g)
    case (Inl error)
    have "n = 0" using assms(4) e Inl
      by (cases n) (simp_all add: consumer_run_forever_def outcome_at.simps)
    with assms(3,4) e Inl same show ?thesis by (auto simp: consumer_run_forever_def outcome_at.simps)
  next
    case (Inr u)
    with assms(4) e have run:
      "outcome_at n (forever (consumer_turn env rd gateway clock cfg heartbeat) inputs (files, rows, w')) = Some (st, r)"
      by (simp add: consumer_run_forever_def)
    obtain t where "consumer_turn env rd gateway clock cfg heartbeat (inputs !! n) t = (st, r)"
      using outcome_at_body [where I = "\<lambda>_. True", OF run] by blast
    with consumer_turn_error have "r \<noteq> Inl (Inl error)" for error by (metis snd_conv)
    moreover have "reachable_from notify_start (notify_step env cfg stream) (seen_as log busy st)"
      using consumer_worker.run_reachable [OF run assms(2)] assms(3) same by simp
    ultimately show ?thesis using e Inr by auto
  qed
qed

text \<open>A broker that delivers one message until it is acknowledged; nobody else is at work.\<close>

definition one_message_redis :: "string \<Rightarrow> message_fields \<Rightarrow> delivery_log redis" where
  "one_message_redis i msg = logging_redis
     \<lparr>rd_read := (\<lambda>g c s n t w. (w, if i \<in> set (lg_acks w) then [] else [(s, [(i, msg)])]))\<rparr>"

lemma one_message_books: "keeps_books (one_message_redis i msg) (logging_gateway reply) (\<lambda>w. w) (\<lambda>_. []) {(i, msg)}"
  by (auto simp: keeps_books_def one_message_redis_def logging_redis_def logging_gateway_def)

definition no_data_message :: message_fields where
  "no_data_message = [(''topic'', ''booking.confirmed''), (''data'', ''?'')]"

theorem consumer_steps_witness:
  "\<exists>st. outcome_at 0 (consumer_run_forever sample_env (one_message_redis ''1-0'' no_data_message) (logging_gateway HTTPError)
        (\<lambda>_. 5) (\<lambda>_. True) default_settings None (sconst id) (Map.empty, [], \<lparr>lg_acks = [], lg_dead = [], lg_accepted = []\<rparr>))
      = Some (st, Inr [OutDead])
    \<and> reachable_from notify_start (notify_step sample_env default_settings {(''1-0'', no_data_message)}) (seen_as (\<lambda>w. w) (\<lambda>_. []) st)
    \<and> lg_acks (snd (snd st)) = [''1-0'']"
proof -
  let ?rd = "one_message_redis ''1-0'' no_data_message" and ?gw = "logging_gateway HTTPError"
  let ?w = "\<lparr>lg_acks = [], lg_dead = [], lg_accepted = []\<rparr>" and ?stream = "{(''1-0'', no_data_message)}"
  let ?run = "consumer_run_forever sample_env ?rd ?gw (\<lambda>_. 5) (\<lambda>_. True) default_settings None (sconst id) (Map.empty, [], ?w)"
  have "json_loads (wide_char sample_env) (float_repr sample_env) ''?'' = None" by code_simp
  then have read: "read_message sample_env no_data_message = Inl (Python ValueError, json_error sample_env ''?'')"
    by (simp add: read_message_def field_get_def no_data_message_def Let_def)
  let ?entry = "dead_entry ''1-0'' no_data_message (json_error sample_env ''?'')"
  have "handle sample_env ?rd ?gw (\<lambda>_. 5) default_settings ''1-0'' no_data_message 1 [] ?w
      = ([], \<lparr>lg_acks = [''1-0''], lg_dead = [?entry], lg_accepted = []\<rparr>, Inr OutDead)"
    by (simp add: handle_def read dead_letter_def bury_row_def ack_def one_message_redis_def logging_redis_def)
  then have "run_once sample_env ?rd ?gw (\<lambda>_. 5) default_settings [] ?w
      = ([], \<lparr>lg_acks = [''1-0''], lg_dead = [?entry], lg_accepted = []\<rparr>, Inr [OutDead])"
    by (simp add: run_once_def reclaimed_def fresh_def one_message_redis_def logging_redis_def)
  then have "consumer_turn sample_env ?rd ?gw (\<lambda>_. 5) default_settings None id (Map.empty, [], ?w)
      = ((Map.empty, [], \<lparr>lg_acks = [''1-0''], lg_dead = [?entry], lg_accepted = []\<rparr>), Inr [OutDead])"
    by (simp add: consumer_turn_def notify_touch_heartbeat_def)
  then have first: "outcome_at 0 ?run
      = Some ((Map.empty, [], \<lparr>lg_acks = [''1-0''], lg_dead = [?entry], lg_accepted = []\<rparr>), Inr [OutDead])"
    by (simp add: consumer_run_forever_def ensure_group_def outcome_at_first one_message_redis_def logging_redis_def)
  have "reachable_from notify_start (notify_step sample_env default_settings ?stream)
      (seen_as (\<lambda>w. w) (\<lambda>_. []) (Map.empty, [], ?w))"
    by (rule reach_start) (simp add: notify_start_def)
  moreover have "pred_stream (consumer_input_ok sample_env ?rd ?gw (\<lambda>w. w) (\<lambda>_. []) default_settings ?stream) (sconst id)"
    using one_message_books by (simp add: stream.pred_set consumer_input_ok_def)
  ultimately show ?thesis
    using consumer_steps [OF one_message_books _ _ first] first by fastforce
qed

end
