(* ===== verification/Services_Workers.thy ===== *)
theory Services_Workers
  imports Services_Settings Booking_Worker Payments_Worker Notifier_Worker
begin

text \<open>
  The three processes without an HTTP port: how \<open>main\<close> of \<open>booking/outbox.py\<close>, \<open>payments/relay.py\<close> and
  \<open>notifier/consumer.py\<close> starts them, and the heartbeat files their container watches.
\<close>

section \<open>Starting\<close>

text \<open>\<open>DEFAULT_STREAM\<close> of booking; the notifier has its own.\<close>

definition BOOKING_STREAM :: string where
  "BOOKING_STREAM = ''slot.bookings.v1''"

record booking_relay_setup =
  br_database_url :: string
  br_redis_url :: string
  br_stream :: string
  br_heartbeat :: "string option"

definition booking_relay_main :: "environment \<Rightarrow> py_error + booking_relay_setup" where
  "booking_relay_main env =
     try_bind (env_required env ''SLOT_DATABASE_URL'') (\<lambda>database_url.
     try_bind (env_required env ''SLOT_REDIS_URL'') (\<lambda>redis_url.
     Inr \<lparr>br_database_url = database_url, br_redis_url = redis_url,
          br_stream = env_get env ''SLOT_EVENTS_STREAM'' BOOKING_STREAM,
          br_heartbeat = env ''SLOT_HEARTBEAT_FILE''\<rparr>))"

definition pay_relay_main :: "environment \<Rightarrow> py_error + payments_settings \<times> string option" where
  "pay_relay_main env =
     try_bind (payments_from_env env) (\<lambda>settings. Inr (settings, env ''SLOT_HEARTBEAT_FILE''))"

record consumer_setup =
  cu_database_url :: string
  cu_redis_url :: string
  cu_gateway_url :: string
  cu_gateway_key :: string
  cu_settings :: consumer_settings
  cu_heartbeat :: "string option"

definition consumer_main :: "environment \<Rightarrow> py_error + consumer_setup" where
  "consumer_main env =
     try_bind (env_required env ''SLOT_DATABASE_URL'') (\<lambda>database_url.
     try_bind (env_required env ''SLOT_REDIS_URL'') (\<lambda>redis_url.
     try_bind (env_required env ''SLOT_NOTIFYGW_URL'') (\<lambda>gateway_url.
     try_bind (env_required env ''SLOT_NOTIFYGW_API_KEY'') (\<lambda>gateway_key.
     Inr \<lparr>cu_database_url = database_url, cu_redis_url = redis_url, cu_gateway_url = gateway_url,
          cu_gateway_key = gateway_key,
          cu_settings = default_settings\<lparr>cs_stream := env_get env ''SLOT_EVENTS_STREAM'' DEFAULT_STREAM,
             cs_consumer := env_get env ''HOSTNAME'' ''notifier-1''\<rparr>,
          cu_heartbeat = env ''SLOT_HEARTBEAT_FILE''\<rparr>))))"

lemma env_required_Inl: "env_required env key = Inl e \<longleftrightarrow> env key = None \<and> e = KeyError"
  by (auto simp: env_required_def split: option.split)

text \<open>
  What the two ends of the stream agree on. The relay of booking and the consumer of the notifier each start exactly
  when the variables they cannot do without are set, and stop with \<open>KeyError\<close> otherwise. Started from environments
  that say the same about \<open>SLOT_EVENTS_STREAM\<close>, or nothing, the consumer reads the stream the relay writes; it gives every
  message five deliveries and never keeps its dead letters in the stream itself.
\<close>

theorem relay_and_consumer_share_stream:
  assumes "renv ''SLOT_EVENTS_STREAM'' = cenv ''SLOT_EVENTS_STREAM''"
  shows "(case booking_relay_main renv of
        Inl e \<Rightarrow> e = KeyError \<and> (\<exists>key \<in> {''SLOT_DATABASE_URL'', ''SLOT_REDIS_URL''}. renv key = None)
      | Inr relay \<Rightarrow> (\<forall>key \<in> {''SLOT_DATABASE_URL'', ''SLOT_REDIS_URL''}. renv key \<noteq> None)
         \<and> (\<forall>c. consumer_main cenv = Inr c \<longrightarrow>
               cs_stream (cu_settings c) = br_stream relay \<and> dead_stream (cu_settings c) \<noteq> br_stream relay
               \<and> cs_max_deliveries (cu_settings c) = 5))
    \<and> (case consumer_main cenv of
        Inl e \<Rightarrow> e = KeyError \<and>
          (\<exists>key \<in> {''SLOT_DATABASE_URL'', ''SLOT_REDIS_URL'', ''SLOT_NOTIFYGW_URL'', ''SLOT_NOTIFYGW_API_KEY''}. cenv key = None)
      | Inr c \<Rightarrow>
          (\<forall>key \<in> {''SLOT_DATABASE_URL'', ''SLOT_REDIS_URL'', ''SLOT_NOTIFYGW_URL'', ''SLOT_NOTIFYGW_API_KEY''}. cenv key \<noteq> None))"
proof -
  have "env_get renv ''SLOT_EVENTS_STREAM'' BOOKING_STREAM = env_get cenv ''SLOT_EVENTS_STREAM'' DEFAULT_STREAM"
    using assms by (simp add: env_get_def BOOKING_STREAM_def DEFAULT_STREAM_def)
  then show ?thesis
    by (auto simp: booking_relay_main_def consumer_main_def env_required_def try_bind_def dead_stream_def
        DEAD_SUFFIX_def default_settings_def split: option.splits)
qed

theorem relay_and_consumer_share_stream_witness:
  "\<exists>relay c. booking_relay_main [''SLOT_DATABASE_URL'' \<mapsto> ''d'', ''SLOT_REDIS_URL'' \<mapsto> ''r''] = Inr relay
     \<and> consumer_main [''SLOT_DATABASE_URL'' \<mapsto> ''d'', ''SLOT_REDIS_URL'' \<mapsto> ''r'', ''SLOT_NOTIFYGW_URL'' \<mapsto> ''u'',
         ''SLOT_NOTIFYGW_API_KEY'' \<mapsto> ''k'', ''HOSTNAME'' \<mapsto> ''n2''] = Inr c
     \<and> cs_stream (cu_settings c) = br_stream relay \<and> cs_consumer (cu_settings c) = ''n2''"
proof -
  let ?renv = "[''SLOT_DATABASE_URL'' \<mapsto> ''d'', ''SLOT_REDIS_URL'' \<mapsto> ''r'']"
  let ?cenv = "[''SLOT_DATABASE_URL'' \<mapsto> ''d'', ''SLOT_REDIS_URL'' \<mapsto> ''r'', ''SLOT_NOTIFYGW_URL'' \<mapsto> ''u'',
      ''SLOT_NOTIFYGW_API_KEY'' \<mapsto> ''k'', ''HOSTNAME'' \<mapsto> ''n2'']"
  obtain relay where r: "booking_relay_main ?renv = Inr relay"
    by (simp add: booking_relay_main_def env_required_def)
  obtain c where c: "consumer_main ?cenv = Inr c" "cs_consumer (cu_settings c) = ''n2''"
    by (simp add: consumer_main_def env_required_def env_get_def)
  have "?renv ''SLOT_EVENTS_STREAM'' = ?cenv ''SLOT_EVENTS_STREAM''" by simp
  then show ?thesis
    using relay_and_consumer_share_stream [of ?renv ?cenv] r c by (auto split: sum.splits)
qed

section \<open>Heartbeats\<close>

lemma touch_again: "touch_heartbeat path t (touch_heartbeat path u files) = touch_heartbeat path t files"
  by (simp add: touch_heartbeat_def split: option.split)

lemma touch_copies: "pay_touch_heartbeat = touch_heartbeat" "notify_touch_heartbeat = touch_heartbeat"
  by (intro ext, simp add: touch_heartbeat_def pay_touch_heartbeat_def notify_touch_heartbeat_def split: option.split)+

text \<open>A loop whose turn touches the heartbeat file, at a moment the turn knows, and no other.\<close>

lemma forever_beats:
  assumes run: "outcome_at n (forever body inputs st) = Some (st', r)"
    and beats: "\<And>i s s' r. body i s = (s', r) \<Longrightarrow> fst s' = touch_heartbeat path (now i s) (fst s)"
  shows "\<exists>t. fst st' = touch_heartbeat path (now (inputs !! n) t) (fst st)"
proof -
  let ?I = "\<lambda>s. \<forall>u. touch_heartbeat path u (fst s) = touch_heartbeat path u (fst st)"
  have "\<exists>t. ?I t \<and> body (inputs !! n) t = (st', r)"
    by (rule outcome_at_body [where I = ?I, OF run]) (simp_all add: beats touch_again)
  with beats show ?thesis by metis
qed

text \<open>
  What a health check can see. After any turn of the three processes, the one that ends the consumer included, the
  heartbeat file shows the moment this turn began, and no other file has changed; without the variable no file has. So
  a heartbeat older than a turn may take says that the loop hangs or is gone.
\<close>

theorem heartbeat_shows_last_turn:
  assumes "outcome_at n (relay_run_forever publish path rinputs (files, w)) = Some ((files1, w1), r1)"
    and "outcome_at n (pay_relay_run_forever booking paystub describe path pinputs (files, pw)) = Some ((files2, w2), r2)"
    and "outcome_at n (consumer_run_forever env rd gateway clock is_busygroup cfg path cinputs (files, rows, cw))
      = Some ((files3, rows3, w3), r3)" and "ensure_group rd is_busygroup cfg cw = (cw', Inr u)"
  shows "files1 = touch_heartbeat path (ri_now (rinputs !! n)) files
    \<and> files2 = pay_touch_heartbeat path (pi_now (pinputs !! n)) files
    \<and> (\<exists>table world. files3 = notify_touch_heartbeat path (clock (snd ((cinputs !! n) (table, world)))) files)"
proof -
  have "fst s' = touch_heartbeat path (ri_now i) (fst s)" if "relay_turn publish path i s = (s', r)" for i s s' r
    using that by (cases s) (auto simp: relay_turn_eq split: prod.splits)
  then have "files1 = touch_heartbeat path (ri_now (rinputs !! n)) files"
    using forever_beats [where now = "\<lambda>i s. ri_now i", OF assms(1) [unfolded relay_run_forever_def]] by (metis fst_conv)
  moreover have "fst s' = touch_heartbeat path (pi_now i) (fst s)"
    if "pay_relay_turn booking paystub describe path i s = (s', r)" for i s s' r
    using that by (cases s) (auto simp: pay_relay_turn_eq touch_copies split: prod.splits)
  then have "files2 = touch_heartbeat path (pi_now (pinputs !! n)) files"
    using forever_beats [where now = "\<lambda>i s. pi_now i", OF assms(2) [unfolded pay_relay_run_forever_def]] by (metis fst_conv)
  moreover have beat: "fst s' = touch_heartbeat path (clock (snd (others (snd s)))) (fst s)"
    if "consumer_turn env rd gateway clock cfg path others s = (s', r)" for others s s' r
    using that by (cases s) (auto simp: consumer_turn_def touch_copies Let_def split: prod.splits)
  have run: "outcome_at n (forever (consumer_turn env rd gateway clock cfg path) cinputs (files, rows, cw'))
      = Some ((files3, rows3, w3), r3)"
    using assms(3,4) by (simp add: consumer_run_forever_def)
  have "\<exists>t :: _ consumer_state. fst (files3, rows3, w3) = touch_heartbeat path (clock (snd ((cinputs !! n) (snd t)))) (fst (files, rows, cw'))"
    using forever_beats [of n "consumer_turn env rd gateway clock cfg path" cinputs "(files, rows, cw')" "(files3, rows3, w3)"
        r3 path "\<lambda>others s. clock (snd (others (snd s)))"] run beat by blast
  then have "\<exists>table world. files3 = touch_heartbeat path (clock (snd ((cinputs !! n) (table, world)))) files" by auto
  ultimately show ?thesis unfolding touch_copies by blast
qed

theorem heartbeat_shows_last_turn_witness:
  "\<exists>files w r. outcome_at 0 (relay_run_forever accepting_broker (Some ''/tmp/heartbeat'') (sconst busy_turn)
       (Map.empty, \<lparr>db = empty_db, inflight = [], broker = []\<rparr>)) = Some ((files, w), r)
     \<and> files ''/tmp/heartbeat'' = Some (isoformat (utc_datetime 30)) \<and> files ''/tmp/other'' = None"
proof -
  let ?hb = "Some ''/tmp/heartbeat''"
  let ?w = "\<lparr>db = empty_db, inflight = [], broker = []\<rparr>" and ?pw = "\<lparr>pdb = empty_pay_db, waiting = [], net = ()\<rparr>"
  let ?http = "\<lambda>rq w. (w, HTTPError)" and ?pi = "\<lparr>pi_now = 40, pi_locked = (\<lambda>_. False), pi_others = id\<rparr>"
  let ?rd = "one_message_redis ''1-0'' no_data_message" and ?cw = "\<lparr>lg_acks = [], lg_dead = [], lg_accepted = []\<rparr>"
  have group: "ensure_group ?rd (\<lambda>_. True) default_settings ?cw = (?cw, Inr ())"
    by (simp add: ensure_group_def one_message_redis_def logging_redis_def)
  obtain files1 w1 r1 where one: "outcome_at 0 (relay_run_forever accepting_broker ?hb (sconst busy_turn) (Map.empty, ?w))
      = Some ((files1, w1), r1)"
    unfolding relay_run_forever_def outcome_at_first by (metis surj_pair)
  obtain files2 w2 r2 where two: "outcome_at 0 (pay_relay_run_forever ?http ?http (\<lambda>_. []) ?hb (sconst ?pi) (Map.empty, ?pw))
      = Some ((files2, w2), r2)"
    unfolding pay_relay_run_forever_def outcome_at_first by (metis surj_pair)
  obtain files3 rows3 w3 r3 where three: "outcome_at 0 (consumer_run_forever sample_env ?rd (logging_gateway HTTPError) (\<lambda>_. 5)
      (\<lambda>_. True) default_settings ?hb (sconst id) (Map.empty, [], ?cw)) = Some ((files3, rows3, w3), r3)"
    unfolding consumer_run_forever_def by (simp add: group outcome_at_first) (metis surj_pair)
  have "files1 = touch_heartbeat ?hb 30 Map.empty"
    using conjunct1 [OF heartbeat_shows_last_turn [OF one two three group]] by (simp add: busy_turn_def)
  with one show ?thesis by (simp add: touch_heartbeat_def)
qed

end
