(* ===== verification/Web_Client.thy ===== *)
theory Web_Client
  imports Http Pyiso
begin

text \<open>
  \<open>services/web/src/web/booking_client.py\<close>: the calls of the web service to booking and how it reads the
  answers. The other end is a transport over requests with query parameters. A field the client copies
  without a conversion is a JSON value; \<open>other\<close> is \<open>fromisoformat\<close> on formats other than \<open>isoformat\<close>'s.
\<close>

section \<open>Refusals\<close>

definition UNREADABLE :: string where
  "UNREADABLE = ''unreadable_answer''"

definition UNAVAILABLE :: string where
  "UNAVAILABLE = ''booking_unavailable''"

text \<open>\<open>BookingError\<close> with its code and status, or an exception nobody turned into one.\<close>

datatype client_error = BookingError string int | Unhandled py_error

section \<open>What booking answers\<close>

record web_slot =
  ws_id :: uuid
  ws_master_id :: json
  ws_starts_at :: datetime
  ws_ends_at :: datetime
  ws_price_minor :: json
  ws_available :: json

record web_booking =
  wb_id :: uuid
  wb_slot_id :: uuid
  wb_client_id :: json
  wb_master_id :: json
  wb_status :: json
  wb_starts_at :: datetime
  wb_ends_at :: datetime
  wb_price_minor :: json

record web_payment =
  wp_payment_id :: uuid
  wp_status :: json
  wp_checkout_url :: json

text \<open>\<open>row[key]\<close>, \<open>uuid.UUID(row[key])\<close> and \<open>datetime.fromisoformat(row[key])\<close>.\<close>

definition row_item :: "json \<Rightarrow> string \<Rightarrow> py_error + json" where
  "row_item row key =
     (case row of
        JObj kvs \<Rightarrow> (case map_of kvs key of None \<Rightarrow> Inl KeyError | Some v \<Rightarrow> Inr v)
      | _ \<Rightarrow> Inl TypeError)"

definition row_uuid :: "json \<Rightarrow> string \<Rightarrow> py_error + uuid" where
  "row_uuid row key =
     try_bind (row_item row key) (\<lambda>v. case v of
         JStr s \<Rightarrow> (case uuid_of_string s of None \<Rightarrow> Inl ValueError | Some u \<Rightarrow> Inr u)
       | JNull \<Rightarrow> Inl TypeError
       | _ \<Rightarrow> Inl AttributeError)"

definition row_time :: "(string \<Rightarrow> datetime option) \<Rightarrow> json \<Rightarrow> string \<Rightarrow> py_error + datetime" where
  "row_time other row key =
     try_bind (row_item row key) (\<lambda>v. case v of
         JStr s \<Rightarrow> (case fromisoformat other s of None \<Rightarrow> Inl ValueError | Some t \<Rightarrow> Inr t)
       | _ \<Rightarrow> Inl TypeError)"

definition payment_of_row :: "json \<Rightarrow> py_error + web_payment" where
  "payment_of_row row =
     try_bind (row_uuid row ''payment_id'') (\<lambda>i. try_bind (row_item row ''status'') (\<lambda>st.
     try_bind (row_item row ''checkout_url'') (\<lambda>url.
       Inr \<lparr>wp_payment_id = i, wp_status = st, wp_checkout_url = url\<rparr>)))"

definition slot_of_row :: "(string \<Rightarrow> datetime option) \<Rightarrow> json \<Rightarrow> py_error + web_slot" where
  "slot_of_row other row =
     try_bind (row_uuid row ''id'') (\<lambda>i. try_bind (row_item row ''master_id'') (\<lambda>m.
     try_bind (row_time other row ''starts_at'') (\<lambda>a. try_bind (row_time other row ''ends_at'') (\<lambda>b.
     try_bind (row_item row ''price_minor'') (\<lambda>p. try_bind (row_item row ''available'') (\<lambda>av.
       Inr \<lparr>ws_id = i, ws_master_id = m, ws_starts_at = a, ws_ends_at = b, ws_price_minor = p,
            ws_available = av\<rparr>))))))"

definition booking_of_row :: "(string \<Rightarrow> datetime option) \<Rightarrow> json \<Rightarrow> py_error + web_booking" where
  "booking_of_row other row =
     try_bind (row_uuid row ''id'') (\<lambda>i. try_bind (row_uuid row ''slot_id'') (\<lambda>sid.
     try_bind (row_item row ''client_id'') (\<lambda>c. try_bind (row_item row ''master_id'') (\<lambda>m.
     try_bind (row_item row ''status'') (\<lambda>st. try_bind (row_time other row ''starts_at'') (\<lambda>a.
     try_bind (row_time other row ''ends_at'') (\<lambda>b. try_bind (row_item row ''price_minor'') (\<lambda>p.
       Inr \<lparr>wb_id = i, wb_slot_id = sid, wb_client_id = c, wb_master_id = m, wb_status = st,
            wb_starts_at = a, wb_ends_at = b, wb_price_minor = p\<rparr>))))))))"

text \<open>\<open>[build(row) for row in rows]\<close>: a dict is iterated by its keys, a text by its characters.\<close>

definition rows_of :: "json \<Rightarrow> py_error + json list" where
  "rows_of v =
     (case v of
        JArr xs \<Rightarrow> Inr xs
      | JObj kvs \<Rightarrow> Inr (map (\<lambda>(k, v). JStr k) kvs)
      | JStr s \<Rightarrow> Inr (map (\<lambda>c. JStr [c]) s)
      | _ \<Rightarrow> Inl TypeError)"

fun each_row :: "(json \<Rightarrow> py_error + 'a) \<Rightarrow> json list \<Rightarrow> py_error + 'a list" where
  "each_row build [] = Inr []"
| "each_row build (row # rows) =
     try_bind (build row) (\<lambda>x. try_bind (each_row build rows) (\<lambda>xs. Inr (x # xs)))"

definition all_rows :: "(json \<Rightarrow> py_error + 'a) \<Rightarrow> json \<Rightarrow> py_error + 'a list" where
  "all_rows build v = try_bind (rows_of v) (each_row build)"

section \<open>Calls\<close>

record web_request = http_request +
  rq_params :: "(string \<times> string) list"

type_synonym 'w web_transport = "web_request \<Rightarrow> 'w \<Rightarrow> 'w \<times> http_reply"

definition error_code_of :: "json option \<Rightarrow> string" where
  "error_code_of answer =
     (case answer of
        None \<Rightarrow> UNREADABLE
      | Some body \<Rightarrow> (case row_item body ''error'' of Inl e \<Rightarrow> UNREADABLE | Inr v \<Rightarrow> py_str v))"

definition call ::
  "'w web_transport \<Rightarrow> string \<Rightarrow> string \<Rightarrow> string option \<Rightarrow> json option \<Rightarrow> (string \<times> string) list \<Rightarrow> 'w
   \<Rightarrow> 'w \<times> (client_error + json)" where
  "call http verb path token body params w =
     (let headers = (case token of
            Some t \<Rightarrow> if t \<noteq> [] then [(''Authorization'', ''Bearer '' @ t)] else []
          | None \<Rightarrow> []);
          (w', reply) = http \<lparr>rq_method = verb, rq_path = path, rq_headers = headers, rq_json = body,
            rq_params = params\<rparr> w
      in (w', case reply of
           HTTPError \<Rightarrow> Inl (BookingError UNAVAILABLE 503)
         | Reply status answer \<Rightarrow>
             if 200 \<le> status \<and> status \<le> 299
             then (case answer of None \<Rightarrow> Inl (Unhandled ValueError) | Some v \<Rightarrow> Inr v)
             else Inl (BookingError (error_code_of answer) status)))"

definition read_answer :: "(json \<Rightarrow> py_error + 'a) \<Rightarrow> json \<Rightarrow> client_error + 'a" where
  "read_answer build payload =
     (case build payload of
        Inr x \<Rightarrow> Inr x
      | Inl e \<Rightarrow> if e \<in> {KeyError, TypeError, ValueError, AttributeError}
                 then Inl (BookingError UNREADABLE 502) else Inl (Unhandled e))"

definition then_read ::
  "'w \<times> (client_error + json) \<Rightarrow> (json \<Rightarrow> py_error + 'a) \<Rightarrow> 'w \<times> (client_error + 'a)" where
  "then_read answer build = (case answer of (w, r) \<Rightarrow> (w, try_bind r (read_answer build)))"

text \<open>A day is its ISO text.\<close>

definition list_slots_call ::
  "(string \<Rightarrow> datetime option) \<Rightarrow> 'w web_transport \<Rightarrow> string \<Rightarrow> string option \<Rightarrow> 'w
   \<Rightarrow> 'w \<times> (client_error + web_slot list)" where
  "list_slots_call other http master_id day w =
     (let params = (''master_id'', master_id) # (case day of None \<Rightarrow> [] | Some d \<Rightarrow> [(''date'', d)])
      in then_read (call http ''GET'' ''/slots'' None None params w) (all_rows (slot_of_row other)))"

definition create_slot_call ::
  "(string \<Rightarrow> datetime option) \<Rightarrow> 'w web_transport \<Rightarrow> string \<Rightarrow> datetime \<Rightarrow> datetime \<Rightarrow> int \<Rightarrow> 'w
   \<Rightarrow> 'w \<times> (client_error + web_slot)" where
  "create_slot_call other http token starts_at ends_at price_minor w =
     (let body = JObj [(''starts_at'', JStr (isoformat starts_at)), (''ends_at'', JStr (isoformat ends_at)),
            (''price_minor'', JInt price_minor)]
      in then_read (call http ''POST'' ''/slots'' (Some token) (Some body) [] w) (slot_of_row other))"

definition create_booking_call ::
  "'w web_transport \<Rightarrow> string \<Rightarrow> uuid \<Rightarrow> 'w \<Rightarrow> 'w \<times> (client_error + uuid)" where
  "create_booking_call http token slot_id w =
     then_read (call http ''POST'' ''/bookings'' (Some token)
       (Some (JObj [(''slot_id'', JStr (uuid_str slot_id))])) [] w) (\<lambda>row. row_uuid row ''id'')"

definition my_bookings_call ::
  "(string \<Rightarrow> datetime option) \<Rightarrow> 'w web_transport \<Rightarrow> string \<Rightarrow> 'w \<Rightarrow> 'w \<times> (client_error + web_booking list)" where
  "my_bookings_call other http token w =
     then_read (call http ''GET'' ''/bookings'' (Some token) None [] w) (all_rows (booking_of_row other))"

definition status_text :: "json \<Rightarrow> py_error + string" where
  "status_text row = try_bind (row_item row ''status'') (\<lambda>v. Inr (py_str v))"

definition cancel_booking_call ::
  "'w web_transport \<Rightarrow> string \<Rightarrow> uuid \<Rightarrow> 'w \<Rightarrow> 'w \<times> (client_error + string)" where
  "cancel_booking_call http token booking_id w =
     then_read (call http ''DELETE'' (''/bookings/'' @ uuid_str booking_id) (Some token) None [] w) status_text"

definition booking_status_call ::
  "'w web_transport \<Rightarrow> string \<Rightarrow> uuid \<Rightarrow> 'w \<Rightarrow> 'w \<times> (client_error + string)" where
  "booking_status_call http token booking_id w =
     then_read (call http ''GET'' (''/bookings/'' @ uuid_str booking_id) (Some token) None [] w) status_text"

definition start_payment_call ::
  "'w web_transport \<Rightarrow> string \<Rightarrow> uuid \<Rightarrow> 'w \<Rightarrow> 'w \<times> (client_error + web_payment)" where
  "start_payment_call http token booking_id w =
     then_read (call http ''POST'' (''/bookings/'' @ uuid_str booking_id @ ''/payment'') (Some token) None [] w)
       payment_of_row"

section \<open>Every failure is a refusal\<close>

definition readable :: "(json \<Rightarrow> py_error + 'a) \<Rightarrow> bool" where
  "readable build \<longleftrightarrow> (\<forall>v e. build v = Inl e \<longrightarrow> e \<in> {KeyError, TypeError, ValueError, AttributeError})"

lemma readableD: "readable build \<Longrightarrow> build v = Inl e \<Longrightarrow> e \<in> {KeyError, TypeError, ValueError, AttributeError}"
  by (simp add: readable_def)

lemma readable_bind:
  "readable f \<Longrightarrow> (\<And>x. readable (\<lambda>v. g x v)) \<Longrightarrow> readable (\<lambda>v. try_bind (f v) (\<lambda>x. g x v))"
  unfolding readable_def try_bind_def by (auto split: sum.splits)

lemma readable_Inr: "readable (\<lambda>v. Inr (f v))"
  by (simp add: readable_def)

lemma readable_item: "readable (\<lambda>row. row_item row key)"
  by (auto simp: readable_def row_item_def split: json.splits option.splits)

lemma readable_uuid: "readable (\<lambda>row. row_uuid row key)"
  unfolding row_uuid_def
  by (rule readable_bind [OF readable_item]) (auto simp: readable_def split: json.splits option.splits)

lemma readable_time: "readable (\<lambda>row. row_time other row key)"
  unfolding row_time_def
  by (rule readable_bind [OF readable_item]) (auto simp: readable_def split: json.splits option.splits)

lemmas readable_intros = readable_bind readable_Inr readable_item readable_uuid readable_time

lemma readable_rows:
  "readable payment_of_row" "readable (slot_of_row other)" "readable (booking_of_row other)" "readable status_text"
  unfolding payment_of_row_def [abs_def] slot_of_row_def [abs_def] booking_of_row_def [abs_def] status_text_def [abs_def]
  by (intro readable_intros)+

lemma readable_all_rows: "readable build \<Longrightarrow> readable (all_rows build)"
proof -
  assume b: "readable build"
  have "each_row build rows = Inl e \<Longrightarrow> e \<in> {KeyError, TypeError, ValueError, AttributeError}" for rows e
  proof (induction rows)
    case (Cons row rows)
    then show ?case using readableD [OF b, of row] by (auto simp: try_bind_def split: sum.splits)
  qed simp
  then show ?thesis
    unfolding readable_def all_rows_def try_bind_def
    by (fastforce simp: rows_of_def split: sum.splits json.splits)
qed

end
