(* ===== verification/Services_Clients.thy ===== *)
theory Services_Clients
  imports Services_Workers Payments_App Web_Client
begin

text \<open>
  How the services are put together: the HTTP clients each makes from its settings (\<open>__init__\<close> of \<open>paystub.py\<close>, \<open>gateway.py\<close>,
  \<open>payments_client.py\<close> and \<open>booking_client.py\<close>), the applications of \<open>create_app\<close> and the processes of \<open>main\<close> over them.
  The network takes a base URL and a request; a Redis server is found by its URL.
\<close>

section \<open>Clients\<close>

type_synonym 'w network = "string \<Rightarrow> http_request \<Rightarrow> 'w \<Rightarrow> 'w \<times> http_reply"

text \<open>\<open>httpx2.Client(base_url=..., headers=...)\<close>: every request goes to the base URL and has the headers first.\<close>

definition http_client :: "'w network \<Rightarrow> string \<Rightarrow> (string \<times> string) list \<Rightarrow> 'w transport" where
  "http_client network base_url headers request =
     network base_url (request\<lparr>rq_headers := headers @ rq_headers request\<rparr>)"

definition authorization :: "string \<Rightarrow> string \<times> string" where
  "authorization api_key = (''Authorization'', ''Bearer '' @ api_key)"

definition paystub_client :: "'w network \<Rightarrow> string \<Rightarrow> string \<Rightarrow> 'w transport" where
  "paystub_client network base_url api_key = http_client network base_url [authorization api_key]"

definition notify_gateway :: "'w network \<Rightarrow> string \<Rightarrow> string \<Rightarrow> 'w transport" where
  "notify_gateway network base_url api_key = http_client network base_url [authorization api_key]"

definition pay_booking_client :: "'w network \<Rightarrow> string \<Rightarrow> 'w transport" where
  "pay_booking_client network base_url = http_client network base_url []"

definition payments_client :: "'w network \<Rightarrow> string \<Rightarrow> 'w transport" where
  "payments_client network base_url = http_client network base_url []"

section \<open>Applications and processes\<close>

text \<open>An application answers one request; it does not start without its settings.\<close>

definition booking_app ::
  "'w network \<Rightarrow> text_reader \<Rightarrow> environment
   \<Rightarrow> py_error + (moment \<Rightarrow> moment \<Rightarrow> api_request \<Rightarrow> booking_db \<times> 'w \<Rightarrow> (booking_db \<times> 'w) \<times> api_reply)" where
  "booking_app network rd env =
     try_bind (booking_from_env env) (\<lambda>settings.
       Inr (serve rd (api_settings.truncate settings) (payments_client network (st_payments_url settings))))"

definition payments_app ::
  "'w network \<Rightarrow> (bytes \<Rightarrow> json option) \<Rightarrow> environment
   \<Rightarrow> py_error + (moment \<Rightarrow> pay_request \<Rightarrow> pay_db \<times> 'w \<Rightarrow> (pay_db \<times> 'w) \<times> pay_reply)" where
  "payments_app network read_json env =
     try_bind (payments_from_env env) (\<lambda>settings.
       Inr (pay_serve read_json (ps_webhook_secret settings)
              (paystub_client network (ps_paystub_url settings) (ps_paystub_api_key settings))))"

definition booking_relay_process ::
  "(string \<Rightarrow> string \<Rightarrow> 'w publisher) \<Rightarrow> environment \<Rightarrow> 'w relay_input stream \<Rightarrow> 'w relay_state
   \<Rightarrow> py_error + ('w relay_state \<times> bool, 'w relay_state \<times> py_error) run" where
  "booking_relay_process redis_publisher env inputs st =
     try_bind (booking_relay_main env) (\<lambda>setup.
       Inr (relay_run_forever (redis_publisher (br_redis_url setup) (br_stream setup)) (br_heartbeat setup) inputs st))"

definition pay_relay_process ::
  "'w network \<Rightarrow> (payment_error exn \<Rightarrow> string) \<Rightarrow> environment \<Rightarrow> 'w pay_relay_input stream \<Rightarrow> 'w pay_relay_state
   \<Rightarrow> py_error + ('w pay_relay_state \<times> bool, 'w pay_relay_state \<times> py_error) run" where
  "pay_relay_process network describe env inputs st =
     try_bind (pay_relay_main env) (\<lambda>(settings, heartbeat).
       Inr (pay_relay_run_forever (pay_booking_client network (ps_booking_url settings))
              (paystub_client network (ps_paystub_url settings) (ps_paystub_api_key settings))
              describe heartbeat inputs st))"

definition consumer_process ::
  "python_env \<Rightarrow> 'w network \<Rightarrow> (string \<Rightarrow> 'w redis) \<Rightarrow> ('w \<Rightarrow> moment) \<Rightarrow> (string \<Rightarrow> bool) \<Rightarrow> environment
   \<Rightarrow> 'w elsewhere stream \<Rightarrow> 'w consumer_state
   \<Rightarrow> py_error + ('w consumer_state \<times> outcome list, 'w consumer_state \<times> (string + notify_error exn)) run" where
  "consumer_process py network redis_server clock is_busygroup env inputs st =
     try_bind (consumer_main env) (\<lambda>setup.
       Inr (consumer_run_forever py (redis_server (cu_redis_url setup))
              (notify_gateway network (cu_gateway_url setup) (cu_gateway_key setup)) clock is_busygroup
              (cu_settings setup) (cu_heartbeat setup) inputs st))"

section \<open>What a service sends\<close>

text \<open>A network on which every request can be seen, in order, with the URL it went to.\<close>

definition observed :: "'w network \<Rightarrow> ('w \<Rightarrow> (string \<times> http_request) list) \<Rightarrow> bool" where
  "observed network sent \<longleftrightarrow> (\<forall>url rq w. sent (fst (network url rq w)) = sent w @ [(url, rq)])"

definition sends ::
  "(string \<times> http_request \<Rightarrow> bool) \<Rightarrow> ('w \<Rightarrow> (string \<times> http_request) list) \<Rightarrow> 'w \<Rightarrow> 'w \<Rightarrow> bool" where
  "sends P sent w w' \<longleftrightarrow> (\<exists>new. sent w' = sent w @ new \<and> list_all P new)"

lemma sends_refl [simp]: "sends P sent w w"
  by (simp add: sends_def)

lemma sends_trans: "sends P sent u v \<Longrightarrow> sends P sent v w \<Longrightarrow> sends P sent u w"
  by (auto simp: sends_def)

lemma sends_client:
  "observed network sent \<Longrightarrow> P (url, rq\<lparr>rq_headers := hs @ rq_headers rq\<rparr>) \<Longrightarrow>
    sends P sent w (fst (http_client network url hs rq w))"
  by (simp add: observed_def sends_def http_client_def)

text \<open>To a provider under its key and an idempotency key; to a neighbour without any header.\<close>

definition to_provider :: "string \<Rightarrow> string \<Rightarrow> string \<times> http_request \<Rightarrow> bool" where
  "to_provider url api_key x \<longleftrightarrow>
     fst x = url \<and> (\<exists>k. rq_headers (snd x) = [authorization api_key, (''Idempotency-Key'', k)])"

definition to_neighbour :: "string \<Rightarrow> string \<times> http_request \<Rightarrow> bool" where
  "to_neighbour url x \<longleftrightarrow> fst x = url \<and> rq_headers (snd x) = []"

lemma post_world: "fst (paystub_post http path pid body f g w) = fst (http \<lparr>rq_method = ''POST'', rq_path = path,
    rq_headers = [(''Idempotency-Key'', uuid_str pid)], rq_json = Some body\<rparr> w)"
  by (simp add: paystub_post_def split: prod.split)

lemma post_sends:
  assumes "observed network sent" "\<And>x. to_provider url api_key x \<Longrightarrow> P x"
  shows "sends P sent w (fst (paystub_post (paystub_client network url api_key) path pid body f g w))"
  unfolding post_world paystub_client_def by (rule sends_client [OF assms]) (simp add: to_provider_def)

lemma charge_world: "fst (create_charge http pid amount currency w) =
    fst (paystub_post http ''/v1/charges'' pid (charge_request pid amount currency) ''id'' ''checkout_url'' w)"
  by (simp add: create_charge_def split: prod.split)

lemma refund_world: "fst (create_refund http pid charge amount w) =
    fst (paystub_post http ''/v1/refunds'' pid (refund_request charge amount) ''id'' ''status'' w)"
  by (simp add: create_refund_def split: prod.split)

lemma confirm_world: "fst (confirm http bid w) = fst (http (confirm_request bid) w)"
  by (simp add: confirm_def split: prod.split)

text \<open>The relay of payments: a batch sends to booking and to PayStub only.\<close>

lemma deliver_sends:
  assumes seen: "observed network sent" and provider: "\<And>x. to_provider paystub_url api_key x \<Longrightarrow> P x"
    and neighbour: "\<And>x. to_neighbour booking_url x \<Longrightarrow> P x"
    and run: "deliver (pay_booking_client network booking_url) (paystub_client network paystub_url api_key) now c s w = (s', w', r)"
  shows "sends P sent w w'"
proof -
  have b: "sends P sent w (fst (confirm (pay_booking_client network booking_url) bid w))" for bid
    unfolding confirm_world pay_booking_client_def
    by (rule sends_client [OF seen neighbour]) (simp add: to_neighbour_def confirm_request_def)
  have p: "sends P sent w (fst (create_refund (paystub_client network paystub_url api_key) pid charge amount w))" for pid charge amount
    unfolding refund_world by (rule post_sends [OF seen provider])
  have "sends P sent w v" if "confirm (pay_booking_client network booking_url) bid w = (v, x)" for bid v x
    using b [of bid] that by simp
  moreover have "sends P sent w v"
    if "create_refund (paystub_client network paystub_url api_key) pid charge amount w = (v, x)" for pid charge amount v x
    using p [of pid charge amount] that by simp
  ultimately show ?thesis
    using run
    by (auto simp: deliver_def confirm_booking_def refund_payment_def split: if_splits sum.splits option.splits prod.splits)
qed

lemma batch_sends:
  assumes "observed network sent" "\<And>x. to_provider paystub_url api_key x \<Longrightarrow> P x" "\<And>x. to_neighbour booking_url x \<Longrightarrow> P x"
  shows "process_loop (pay_booking_client network booking_url) (paystub_client network paystub_url api_key) describe now
      committed s w k cs = (s', w', n) \<Longrightarrow> sends P sent w w'"
proof (induction cs arbitrary: s w k)
  case (Cons c cs)
  obtain t v r where d: "deliver (pay_booking_client network booking_url) (paystub_client network paystub_url api_key) now c s w
      = (t, v, r)" by (metis prod_cases3)
  have "sends P sent w v" by (rule deliver_sends [OF assms d])
  with d Cons show ?case by (cases r) (auto intro: sends_trans)
qed simp

text \<open>The consumer: a message sends to the gateway only; the broker is another connection.\<close>

definition unseen :: "'w redis \<Rightarrow> ('w \<Rightarrow> (string \<times> http_request) list) \<Rightarrow> bool" where
  "unseen rd sent \<longleftrightarrow>
     (\<forall>s g w. sent (fst (rd_group_create rd s g w)) = sent w) \<and> (\<forall>s g n t w. sent (fst (rd_pending rd s g n t w)) = sent w)
     \<and> (\<forall>s g c t ids w. sent (fst (rd_claim rd s g c t ids w)) = sent w)
     \<and> (\<forall>g c s n t w. sent (fst (rd_read rd g c s n t w)) = sent w)
     \<and> (\<forall>s g i w. sent (rd_ack rd s g i w) = sent w) \<and> (\<forall>s x w. sent (rd_add rd s x w) = sent w)"

lemma unseen_sends:
  assumes "unseen rd sent"
  shows "rd_group_create rd s g w = (w', x1) \<Longrightarrow> sends P sent w w'" "rd_pending rd s g n t w = (w', x2) \<Longrightarrow> sends P sent w w'"
    "rd_claim rd s g c t ids w = (w', x3) \<Longrightarrow> sends P sent w w'" "rd_read rd g c s n t' w = (w', x4) \<Longrightarrow> sends P sent w w'"
    "sends P sent u w \<Longrightarrow> sends P sent u (ack rd cfg i w)" "sends P sent u w \<Longrightarrow> sends P sent u (rd_add rd s e w)"
proof -
  have same: "sent v = sent u \<Longrightarrow> sends P sent u v" for u v by (simp add: sends_def)
  show "rd_group_create rd s g w = (w', x1) \<Longrightarrow> sends P sent w w'" "rd_pending rd s g n t w = (w', x2) \<Longrightarrow> sends P sent w w'"
    "rd_claim rd s g c t ids w = (w', x3) \<Longrightarrow> sends P sent w w'" "rd_read rd g c s n t' w = (w', x4) \<Longrightarrow> sends P sent w w'"
    using assms unfolding unseen_def by (metis same fst_conv)+
  show "sends P sent u w \<Longrightarrow> sends P sent u (ack rd cfg i w)" "sends P sent u w \<Longrightarrow> sends P sent u (rd_add rd s e w)"
    using assms by (simp_all add: unseen_def sends_def ack_def)
qed

lemma handle_sends:
  assumes seen: "observed network sent" and provider: "\<And>x. to_provider url api_key x \<Longrightarrow> P x" and rd: "unseen rd sent"
    and run: "handle py rd (notify_gateway network url api_key) clock cfg i f d rows w = (rows', w', r)"
  shows "sends P sent w w'"
proof -
  have g: "sends P sent w v" if "send py (notify_gateway network url api_key) k recipient t w = (v, x)" for k recipient t v x
  proof -
    have "sends P sent w (fst (notify_gateway network url api_key (send_request k recipient t) w))"
      unfolding notify_gateway_def by (rule sends_client [OF seen provider]) (simp add: to_provider_def send_request_def)
    with that show ?thesis using send_world [of py "notify_gateway network url api_key" k recipient t w] by simp
  qed
  show ?thesis
    using run
    by (auto simp: handle_def dead_letter_def Let_def split: sum.splits if_splits option.splits prod.splits bool.splits
        intro!: unseen_sends(5,6) [OF rd] dest!: g)
qed

lemma handle_all_sends:
  assumes "observed network sent" "\<And>x. to_provider url api_key x \<Longrightarrow> P x" "unseen rd sent"
  shows "handle_all py rd (notify_gateway network url api_key) clock cfg due results rows w = (rows', w', r) \<Longrightarrow> sends P sent w w'"
proof (induction due arbitrary: results rows w)
  case (Cons m due)
  obtain i f d where m: "m = (i, f, d)" by (cases m)
  obtain t v q where h: "handle py rd (notify_gateway network url api_key) clock cfg i f d rows w = (t, v, q)" by (metis prod_cases3)
  have "sends P sent w v" by (rule handle_sends [OF assms h])
  with h Cons m show ?case by (cases q) (auto intro: sends_trans)
qed simp

lemma run_once_sends:
  assumes "observed network sent" "\<And>x. to_provider url api_key x \<Longrightarrow> P x" "unseen rd sent"
    and "run_once py rd (notify_gateway network url api_key) clock cfg rows w = (rows', w', r)"
  shows "sends P sent w w'"
proof -
  have "sends P sent w v" if "reclaimed rd cfg w = (v, x)" for v x
    using that by (auto simp: reclaimed_def Let_def split: prod.splits if_splits)
      (meson unseen_sends(2,3) [OF assms(3)] sends_trans)+
  moreover have "sends P sent u v" if "fresh rd cfg u = (v, x)" for u v x
    using that unseen_sends(4) [OF assms(3)] by (auto simp: fresh_def split: prod.splits)
  ultimately show ?thesis
    using assms(4) handle_all_sends [OF assms(1-3)]
    by (auto simp: run_once_def split: prod.splits sum.splits) (meson sends_trans)
qed

section \<open>Where the keys go\<close>

lemma payment_request_sends:
  assumes "observed network sent"
  shows "sends (to_neighbour url) sent w (snd (fst (serve rd st (payments_client network url) auth_now now req (s, w))))"
proof -
  have c: "sends (to_neighbour url) sent w (fst (booking_create_payment (payments_client network url) bid amount w))" for bid amount
  proof -
    have "fst (booking_create_payment (payments_client network url) bid amount w)
        = fst (payments_client network url (payment_request bid amount) w)"
      by (simp add: booking_create_payment_def split: prod.split)
    also have "sends (to_neighbour url) sent w \<dots>"
      unfolding payments_client_def
      by (rule sends_client [OF assms]) (simp add: to_neighbour_def payment_request_def)
    finally show ?thesis .
  qed
  have p: "sends (to_neighbour url) sent w (snd (fst (post_payment (payments_client network url) bid now ttl i (s, w))))"
    for bid ttl i
    using c by (auto simp: post_payment_def Let_def split: sum.splits prod.splits) (metis fst_conv)
  show ?thesis
    using p by (cases req) (auto simp: guarded_def Let_def split: prod.splits sum.splits)
qed

lemma pay_serve_sends:
  assumes "observed network sent"
  shows "sends (to_provider url api_key) sent w
    (snd (fst (pay_serve read_json secret (paystub_client network url api_key) now req (s, w))))"
proof -
  have c: "sends (to_provider url api_key) sent w v"
    if "create_charge (paystub_client network url api_key) pid amount currency w = (v, x)" for pid amount currency v x
    using that post_sends [OF assms, of url api_key] by (metis charge_world fst_conv)
  have "sends (to_provider url api_key) sent w v"
    if "create_payment (paystub_client network url api_key) s w bid amount currency t = (s', v, x)" for bid amount currency t s' v x
    using that c by (auto simp: create_payment_def Let_def split: prod.splits sum.splits if_splits)
  then have p: "sends (to_provider url api_key) sent w
      (snd (fst (post_payments (paystub_client network url api_key) s w bid amount currency t)))" for bid amount currency t
    by (auto simp: post_payments_def split: prod.splits)
  show ?thesis using p by (cases req) (auto simp: Let_def split: prod.splits)
qed

lemma pay_run_sends:
  assumes run: "outcome_at n (pay_relay_run_forever (pay_booking_client network burl) (paystub_client network url key)
      describe heartbeat inputs (files, w)) = Some ((files', w'), r)"
    and seen: "observed network sent" and P: "\<And>x. to_provider url key x \<Longrightarrow> P x" "\<And>x. to_neighbour burl x \<Longrightarrow> P x"
    and others: "\<forall>i \<in> sset inputs. \<forall>w. sends P sent (net w) (net (pi_others i w))"
  shows "sends P sent (net w) (net w')"
proof -
  have turn: "sends P sent (net (snd st)) (net (snd st'))"
    if i: "i \<in> sset inputs" and t: "pay_relay_turn (pay_booking_client network burl) (paystub_client network url key) describe heartbeat i st
      = (st', q)" for i st st' q
  proof -
    obtain fs v where st: "st = (fs, v)" by fastforce
    obtain s1 v1 k where b: "process_pending (pay_booking_client network burl) (paystub_client network url key) describe (pi_locked i)
        (pi_now i) PAY_BATCH_SIZE (pdb (pi_others i v)) (net (pi_others i v)) = (s1, v1, k)" by (metis prod_cases3)
    have "sends P sent (net (pi_others i v)) v1"
      by (rule batch_sends [OF seen P b [unfolded process_pending_def]])
    moreover have "snd st' = (pi_others i v)\<lparr>pdb := s1, net := v1\<rparr>" using t b by (auto simp: st pay_relay_turn_eq)
    moreover have "sends P sent (net v) (net (pi_others i v))" using others i by blast
    ultimately show ?thesis using st by (simp add: sends_trans)
  qed
  have "sends P sent (net (snd (files, w))) (net (snd (files', w')))"
    by (rule outcome_at_inv [OF run [unfolded pay_relay_run_forever_def]]) (auto intro: sends_trans turn)
  then show ?thesis by simp
qed

lemma consumer_run_sends:
  assumes run: "outcome_at n (consumer_run_forever py rd (notify_gateway network url key) clock is_busygroup cfg heartbeat
      inputs (files, rows, w)) = Some ((files', rows', w'), r)"
    and seen: "observed network sent" "unseen rd sent" and P: "\<And>x. to_provider url key x \<Longrightarrow> P x"
    and others: "\<forall>i \<in> sset inputs. \<forall>x. sends P sent (snd x) (snd (i x))"
  shows "sends P sent w w'"
proof -
  obtain v g where e: "ensure_group rd is_busygroup cfg w = (v, g)" by fastforce
  then have v: "sends P sent w v"
    using unseen_sends(1) [OF seen(2)] by (auto simp: ensure_group_def split: prod.splits option.splits)
  show ?thesis
  proof (cases g)
    case (Inl error)
    with run e v show ?thesis by (cases n) (auto simp: consumer_run_forever_def outcome_at.simps)
  next
    case (Inr u)
    then have go: "outcome_at n (forever (consumer_turn py rd (notify_gateway network url key) clock cfg heartbeat) inputs (files, rows, v))
        = Some ((files', rows', w'), r)" using run e by (simp add: consumer_run_forever_def)
    have turn: "sends P sent (snd (snd st)) (snd (snd st'))"
      if i: "i \<in> sset inputs" and t: "consumer_turn py rd (notify_gateway network url key) clock cfg heartbeat i st = (st', q)" for i st st' q
    proof -
      obtain fs x where st: "st = (fs, x)" by (metis surj_pair)
      obtain rows1 w1 where o: "i x = (rows1, w1)" by fastforce
      obtain rows2 w2 z where b: "run_once py rd (notify_gateway network url key) clock cfg rows1 w1 = (rows2, w2, z)"
        by (metis prod_cases3)
      have "sends P sent w1 w2" by (rule run_once_sends [OF seen(1) P seen(2) b])
      moreover have "snd (snd st') = w2" using t b o by (cases x) (auto simp: consumer_turn_def st)
      moreover have "sends P sent (snd x) w1" using others i o by (metis snd_conv)
      ultimately show ?thesis using st by (simp add: sends_trans)
    qed
    have "sends P sent (snd (snd (files, rows, v))) (snd (snd (files', rows', w')))"
      by (rule outcome_at_inv [OF go]) (auto intro: sends_trans turn)
    with v show ?thesis by (auto intro: sends_trans)
  qed
qed

text \<open>
  C34. The keys of the providers reach nobody else. Whatever the services are asked, whatever the relay and the consumer
  find to do, for as long as they run: every request of payments goes to the PayStub of its settings with the key
  of its settings and an idempotency key, or to the booking of its settings with no header at all; every request of the consumer goes to its
  NotifyGate with its key and an idempotency key; and booking asks the payments of its settings without any. In between turns the
  others may send what they like of the same kind.
\<close>

theorem api_keys_reach_their_provider_only:
  assumes "observed network sent" "\<And>u. unseen (redis_server u) sent"
    and "penv ''SLOT_PAYSTUB_URL'' = Some paystub" "penv ''SLOT_PAYSTUB_API_KEY'' = Some key"
      "penv ''SLOT_BOOKING_URL'' = Some neighbour"
    and "nenv ''SLOT_NOTIFYGW_URL'' = Some gateway" "nenv ''SLOT_NOTIFYGW_API_KEY'' = Some gateway_key"
  shows "(payments_app network read_json penv = Inr app \<longrightarrow>
        sends (to_provider paystub key) sent w (snd (fst (app now rq (s, w)))))
    \<and> (pay_relay_process network describe penv pinputs (files, pw) = Inr prun \<longrightarrow>
        (\<forall>i \<in> sset pinputs. \<forall>v. sends (\<lambda>x. to_provider paystub key x \<or> to_neighbour neighbour x) sent (net v) (net (pi_others i v))) \<longrightarrow>
        outcome_at n prun = Some ((files1, pw1), r1) \<longrightarrow>
        sends (\<lambda>x. to_provider paystub key x \<or> to_neighbour neighbour x) sent (net pw) (net pw1))
    \<and> (consumer_process py network redis_server clock is_busygroup nenv ninputs (files, rows, nw) = Inr nrun \<longrightarrow>
        (\<forall>i \<in> sset ninputs. \<forall>v. sends (to_provider gateway gateway_key) sent (snd v) (snd (i v))) \<longrightarrow>
        outcome_at n nrun = Some ((files2, rows2, nw2), r2) \<longrightarrow> sends (to_provider gateway gateway_key) sent nw nw2)
    \<and> (booking_app network rd benv = Inr bapp \<longrightarrow>
        sends (to_neighbour (env_get benv ''SLOT_PAYMENTS_URL'' ''http://localhost:8001'')) sent w
          (snd (fst (bapp auth_now now req (b, w)))))"
proof (intro conjI impI)
  assume "payments_app network read_json penv = Inr app"
  then show "sends (to_provider paystub key) sent w (snd (fst (app now rq (s, w))))"
    using assms(3,4) pay_serve_sends [OF assms(1)]
    by (auto simp: payments_app_def payments_from_env_def try_bind_Inr_iff env_required_Inr)
next
  assume "pay_relay_process network describe penv pinputs (files, pw) = Inr prun"
    and others: "\<forall>i \<in> sset pinputs. \<forall>v. sends (\<lambda>x. to_provider paystub key x \<or> to_neighbour neighbour x) sent (net v) (net (pi_others i v))"
    and run: "outcome_at n prun = Some ((files1, pw1), r1)"
  from this(1) assms(3-5) obtain heartbeat where prun: "prun = pay_relay_run_forever (pay_booking_client network neighbour)
      (paystub_client network paystub key) describe heartbeat pinputs (files, pw)"
    by (auto simp: pay_relay_process_def pay_relay_main_def payments_from_env_def try_bind_Inr_iff env_required_Inr)
  show "sends (\<lambda>x. to_provider paystub key x \<or> to_neighbour neighbour x) sent (net pw) (net pw1)"
    by (rule pay_run_sends [OF run [unfolded prun] assms(1) _ _ others]) simp_all
next
  assume "consumer_process py network redis_server clock is_busygroup nenv ninputs (files, rows, nw) = Inr nrun"
    and others: "\<forall>i \<in> sset ninputs. \<forall>v. sends (to_provider gateway gateway_key) sent (snd v) (snd (i v))"
    and run: "outcome_at n nrun = Some ((files2, rows2, nw2), r2)"
  from this(1) assms(6,7) obtain u cfg heartbeat where nrun: "nrun = consumer_run_forever py (redis_server u)
      (notify_gateway network gateway gateway_key) clock is_busygroup cfg heartbeat ninputs (files, rows, nw)"
    by (auto simp: consumer_process_def consumer_main_def try_bind_Inr_iff env_required_Inr)
  show "sends (to_provider gateway gateway_key) sent nw nw2"
    by (rule consumer_run_sends [OF run [unfolded nrun] assms(1,2) _ others]) simp
next
  assume "booking_app network rd benv = Inr bapp"
  then show "sends (to_neighbour (env_get benv ''SLOT_PAYMENTS_URL'' ''http://localhost:8001'')) sent w
      (snd (fst (bapp auth_now now req (b, w))))"
    using payment_request_sends [OF assms(1)]
    by (auto simp: booking_app_def booking_from_env_def try_bind_Inr_iff Let_def)
qed

text \<open>A network that keeps what is sent and answers nothing, and a broker with nothing to do.\<close>

definition recorder :: "(string \<times> http_request) list network" where
  "recorder url request w = (w @ [(url, request)], HTTPError)"

definition idle_redis :: "'w redis" where
  "idle_redis = \<lparr>rd_group_create = (\<lambda>s g w. (w, None)), rd_pending = (\<lambda>s g n t w. (w, [])),
     rd_claim = (\<lambda>s g c t ids w. (w, [])), rd_read = (\<lambda>g c s n t w. (w, [])), rd_ack = (\<lambda>s g i w. w), rd_add = (\<lambda>s x w. w)\<rparr>"

theorem api_keys_reach_their_provider_only_witness:
  "\<exists>app. payments_app recorder (\<lambda>_. None) [''SLOT_DATABASE_URL'' \<mapsto> ''d'', ''SLOT_PAYSTUB_URL'' \<mapsto> ''https://paystub'',
        ''SLOT_PAYSTUB_API_KEY'' \<mapsto> ''k'', ''SLOT_PAYSTUB_WEBHOOK_SECRET'' \<mapsto> ''s'', ''SLOT_BOOKING_URL'' \<mapsto> ''http://booking''] = Inr app
     \<and> snd (fst (app 5 (PostPayments 1 100 ''RUB'') (empty_pay_db, []))) \<noteq> []
     \<and> list_all (to_provider ''https://paystub'' ''k'') (snd (fst (app 5 (PostPayments 1 100 ''RUB'') (empty_pay_db, []))))"
proof -
  let ?env = "[''SLOT_DATABASE_URL'' \<mapsto> ''d'', ''SLOT_PAYSTUB_URL'' \<mapsto> ''https://paystub'',
        ''SLOT_PAYSTUB_API_KEY'' \<mapsto> ''k'', ''SLOT_PAYSTUB_WEBHOOK_SECRET'' \<mapsto> ''s'', ''SLOT_BOOKING_URL'' \<mapsto> ''http://booking'']"
  let ?nenv = "[''SLOT_NOTIFYGW_URL'' \<mapsto> ''g'', ''SLOT_NOTIFYGW_API_KEY'' \<mapsto> ''gk'']"
  have size: "int_text ''10'' = Inr 10" by code_simp
  have start: "payments_app recorder (\<lambda>_. None) ?env = Inr (pay_serve (\<lambda>_. None) ''s'' (paystub_client recorder ''https://paystub'' ''k''))"
    by (simp add: payments_app_def payments_from_env_def env_required_def env_get_def size)
  have seen: "observed recorder (\<lambda>w. w)" "\<And>u. unseen ((\<lambda>_. idle_redis) u) (\<lambda>w. w)"
    by (simp_all add: observed_def recorder_def unseen_def idle_redis_def)
  have env: "?env ''SLOT_PAYSTUB_URL'' = Some ''https://paystub''" "?env ''SLOT_PAYSTUB_API_KEY'' = Some ''k''"
    "?env ''SLOT_BOOKING_URL'' = Some ''http://booking''" "?nenv ''SLOT_NOTIFYGW_URL'' = Some ''g''"
    "?nenv ''SLOT_NOTIFYGW_API_KEY'' = Some ''gk''" by simp_all
  let ?after = "snd (fst (pay_serve (\<lambda>_. None) ''s'' (paystub_client recorder ''https://paystub'' ''k'') 5 (PostPayments 1 100 ''RUB'') (empty_pay_db, [])))"
  have "sends (to_provider ''https://paystub'' ''k'') (\<lambda>w. w) [] ?after"
    by (rule api_keys_reach_their_provider_only [OF seen env, THEN conjunct1, rule_format, OF start])
  then have "list_all (to_provider ''https://paystub'' ''k'') ?after" by (simp add: sends_def)
  moreover have "?after \<noteq> []"
    by (simp add: post_payments_def create_payment_def reserve_payment_def empty_pay_db_def create_charge_def paystub_post_def
        paystub_client_def http_client_def recorder_def pay_violated_constraint_def unique_index_def Let_def)
  ultimately show ?thesis using start by blast
qed

end
