(* ===== verification/Notifier_Retries.thy ===== *)
theory Notifier_Retries
  imports Notifier_Properties
begin

text \<open>
  One message over its deliveries: how often it can come back, what a repeat does, and the message
  that never ends. Between two deliveries anything may happen to the table and to the world; that
  is the function \<open>meanwhile\<close>.
\<close>

section \<open>Deliveries of one message\<close>

text \<open>
  Delivered with counter \<open>d\<close>, and again with the next counter as long as the handler fails or
  raises, for at most \<open>n\<close> deliveries. The last component is the counter of the last delivery.
\<close>

fun redeliver ::
  "nat \<Rightarrow> python_env \<Rightarrow> 'w redis \<Rightarrow> 'w transport \<Rightarrow> ('w \<Rightarrow> moment) \<Rightarrow> consumer_settings
   \<Rightarrow> (int \<Rightarrow> notification list \<times> 'w \<Rightarrow> notification list \<times> 'w)
   \<Rightarrow> string \<Rightarrow> message_fields \<Rightarrow> int \<Rightarrow> notification list \<times> 'w
   \<Rightarrow> (notification list \<times> 'w \<times> outcome \<times> int) option" where
  "redeliver 0 env rd gateway clock cfg meanwhile i msg d s = None"
| "redeliver (Suc n) env rd gateway clock cfg meanwhile i msg d s =
     (case handle env rd gateway clock cfg i msg d (fst s) (snd s) of
        (rows, w, r) \<Rightarrow>
          if (\<exists>out. r = Inr out \<and> out \<noteq> OutFailed) then Some (rows, w, projr r, d)
          else redeliver n env rd gateway clock cfg meanwhile i msg (d + 1) (meanwhile d (rows, w)))"

lemma handle_exhausted:
  assumes "read_message env msg = Inr e" "d > cs_max_deliveries cfg"
  shows "handle env rd gateway clock cfg i msg d rows w =
    dead_letter rd clock cfg i msg (''delivered '' @ show_int d @ '' times'') (Some (ev_event_id e)) rows w"
  using assms by (simp add: handle_def)


lemma dead_letter_parts:
  "dead_letter rd clock cfg i msg reason eid rows w =
     (bury_row (clock (rd_add rd (dead_stream cfg) (dead_entry i msg reason) w)) eid reason rows,
      ack rd cfg i (rd_add rd (dead_stream cfg) (dead_entry i msg reason) w), Inr OutDead)"
  by (simp add: dead_letter_def Let_def)




text \<open>
  C30. A message whose JSON is not an object (an array, a string, a number, null) is never settled:
  \<open>data.get\<close> raises \<open>AttributeError\<close>, which the handler does not catch, so no number of deliveries
  writes it to the dead-letter stream or acknowledges it, and each of them stops the batch.
\<close>

theorem non_object_never_settles:
  assumes "json_loads (wide_char env) (float_repr env) (field_get msg ''data'') = Some v"
    and "\<forall>kvs. v \<noteq> JObj kvs"
  shows "handle env rd gateway clock cfg i msg d rows w = (rows, w, Inl (Python AttributeError))
    \<and> handle_all env rd gateway clock cfg ((i, msg, d) # due) results rows w
        = (rows, w, Inl (Python AttributeError))
    \<and> redeliver n env rd gateway clock cfg meanwhile i msg d s = None"
proof -
  have "parse_event env v = Inl (Python AttributeError)"
    using assms(2) by (cases v) (auto simp: parse_event_def)
  then have "read_message env msg = Inl (Python AttributeError, error_text env AttributeError)"
    using assms(1) by (simp add: read_message_def)
  then have h: "handle env rd gateway clock cfg i msg d rows w = (rows, w, Inl (Python AttributeError))"
    for d rows w
    by (simp add: handle_def)
  moreover have "redeliver n env rd gateway clock cfg meanwhile i msg d s = None"
    by (induction n arbitrary: d s) (simp_all add: h)
  ultimately show ?thesis by simp
qed

theorem non_object_never_settles_witness:
  "fst (snd (handle sample_env logging_redis (logging_gateway HTTPError) (\<lambda>_. 0) default_settings
      ''1-0'' [(''data'', ''[]'')] 99 [] \<lparr>lg_acks = [], lg_dead = [], lg_accepted = []\<rparr>))
    = \<lparr>lg_acks = [], lg_dead = [], lg_accepted = []\<rparr>"
proof -
  have "json_loads (wide_char sample_env) (float_repr sample_env) (field_get [(''data'', ''[]'')] ''data'')
      = Some (JArr [])"
    using loads_dumps [of "JArr []" "wide_char sample_env" "float_repr sample_env"]
    by (simp add: field_get_def json_dumps_def)
  moreover have "\<forall>kvs. JArr [] \<noteq> JObj kvs" by simp
  ultimately show ?thesis
    using non_object_never_settles [THEN conjunct1, of sample_env] by (metis fst_conv snd_conv)
qed

section \<open>A repeat after success\<close>

lemma finished_duplicate:
  assumes read: "read_message env msg = Inr e" and words: "render e = Some t" and fits: "fits_columns e t"
    and d: "d \<le> cs_max_deliveries cfg"
    and row: "get_by nt_event_id (ev_event_id e) rows = Some n" "nt_status n \<noteq> Sending"
  shows "handle env rd gateway clock cfg i msg d rows w = (rows, ack rd cfg i w, Inr OutDuplicate)"
  using assms by (simp add: handle_def already_done_def)

lemma handled_row:
  assumes h: "handle env rd gateway clock cfg i msg d rows w = (rows', w', Inr out)"
    and out: "out = OutSent \<or> out = OutDuplicate"
  obtains e t n where "read_message env msg = Inr e" "render e = Some t" "fits_columns e t"
    "d \<le> cs_max_deliveries cfg" "get_by nt_event_id (ev_event_id e) rows' = Some n" "nt_status n \<noteq> Sending"
proof -
  obtain e where e: "read_message env msg = Inr e"
    using h out by (cases "read_message env msg") (auto simp: handle_def dead_letter_parts split: if_splits)
  have d: "d \<le> cs_max_deliveries cfg"
    using h out e by (auto simp: handle_def dead_letter_parts split: if_splits)
  obtain t where t: "render e = Some t"
    using h out e d by (cases "render e") (auto simp: handle_def)
  have fits: "fits_columns e t"
    using h e d t by (auto simp: handle_def already_done_def split: if_splits)
  have "\<exists>n. get_by nt_event_id (ev_event_id e) rows' = Some n \<and> nt_status n \<noteq> Sending"
  proof (cases "get_by nt_event_id (ev_event_id e) rows")
    case None
    with h e d t fits out show ?thesis
      by (auto simp: handle_def already_done_def mark_sent_def update_notification_def get_by_update_where
          get_by_append new_notification_def split: prod.splits sum.splits if_splits)
  next
    case (Some n)
    show ?thesis
    proof (cases "nt_status n = Sending")
      case True
      with Some h e d t fits out show ?thesis
        by (auto simp: handle_def already_done_def mark_sent_def update_notification_def get_by_update_where
            dest: get_by_SomeD split: prod.splits sum.splits if_splits)
    next
      case False
      with Some h e d t fits show ?thesis by (auto simp: handle_def already_done_def)
    qed
  qed
  with that e t fits d show thesis by blast
qed

text \<open>
  A message that was handled with outcome \<open>sent\<close> or \<open>duplicate\<close> is a duplicate when it comes again
  within the limit: the rows stay, the gateway is not called (the result does not depend on it), and
  the world changes by the acknowledgement only.
\<close>

theorem handled_message_is_duplicate:
  assumes "handle env rd gateway clock cfg i msg d rows w = (rows', w', Inr out)"
    and "out = OutSent \<or> out = OutDuplicate" and "d' \<le> cs_max_deliveries cfg"
  shows "handle env rd gateway' clock' cfg j msg d' rows' v = (rows', ack rd cfg j v, Inr OutDuplicate)"
  using assms(1,2) by (rule handled_row) (rule finished_duplicate, use assms(3) in auto)

theorem handled_message_is_duplicate_witness:
  "\<exists>rows w. handle sample_env logging_redis (logging_gateway (Reply 201 (Some (JObj [(''id'', JStr ''msg_1'')]))))
       (\<lambda>_. 0) default_settings ''1-0'' sample_message 1 [] \<lparr>lg_acks = [], lg_dead = [], lg_accepted = []\<rparr>
       = (rows, w, Inr OutSent)
     \<and> handle sample_env logging_redis (logging_gateway HTTPError) (\<lambda>_. 7) default_settings ''1-0''
         sample_message 2 rows w = (rows, ack logging_redis default_settings ''1-0'' w, Inr OutDuplicate)"
proof -
  let ?w = "\<lparr>lg_acks = [], lg_dead = [], lg_accepted = []\<rparr>"
  obtain rows w where first: "handle sample_env logging_redis
      (logging_gateway (Reply 201 (Some (JObj [(''id'', JStr ''msg_1'')])))) (\<lambda>_. 0) default_settings
      ''1-0'' sample_message 1 [] ?w = (rows, w, Inr OutSent)"
    by (simp add: handle_def default_settings_def already_done_def sample_fits send_def logging_gateway_def
        accepted_def text_field_def mark_sent_def)
  have "(2 :: int) \<le> cs_max_deliveries default_settings" by (simp add: default_settings_def)
  from first handled_message_is_duplicate [OF first disjI1 [OF refl] this] show ?thesis by blast
qed

section \<open>Giving up after success\<close>

text \<open>
  A message delivered more than \<open>max_deliveries\<close> times is dead-lettered without looking at its
  row: when the acknowledgements of a sent notification were lost, its row says \<open>dead\<close> although the
  client was told. The other rows stay.
\<close>

theorem late_delivery_buries_sent:
  assumes "read_message env msg = Inr e" and "d > cs_max_deliveries cfg"
    and "handle env rd gateway clock cfg i msg d rows w = (rows', w', r)"
    and "n \<in> set rows" and "nt_event_id n = ev_event_id e" and "nt_status n = Sent"
  shows "r = Inr OutDead
    \<and> (\<exists>n' \<in> set rows'. nt_event_id n' = ev_event_id e \<and> nt_status n' = Dead
          \<and> nt_gateway_message_id n' = nt_gateway_message_id n)
    \<and> filter (\<lambda>m. nt_event_id m \<noteq> ev_event_id e) rows' = filter (\<lambda>m. nt_event_id m \<noteq> ev_event_id e) rows"
proof -
  obtain now reason where rows': "rows' = mark_dead now (ev_event_id e) reason rows" and r: "r = Inr OutDead"
    using assms(3) by (auto simp: handle_exhausted [OF assms(1,2)] dead_letter_parts bury_row_def)
  let ?f = "\<lambda>n :: notification. n\<lparr>nt_status := Dead,
      nt_last_error := Some (take NOTIFY_MAX_ERROR_LENGTH reason), nt_updated_at := now\<rparr>"
  have "?f n \<in> set rows'"
    using assms(4,5) by (force simp: rows' mark_dead_def update_notification_def set_update_where)
  moreover have "nt_event_id (?f n) = ev_event_id e" "nt_status (?f n) = Dead"
    "nt_gateway_message_id (?f n) = nt_gateway_message_id n" using assms(5) by simp_all
  moreover have "filter (\<lambda>m. nt_event_id m \<noteq> ev_event_id e) rows' = filter (\<lambda>m. nt_event_id m \<noteq> ev_event_id e) rows"
    unfolding rows' mark_dead_def update_notification_def
    by (induction rows) (simp_all add: update_where_simps(1,2))
  ultimately show ?thesis using r by blast
qed

theorem late_delivery_buries_sent_witness:
  "\<exists>n' \<in> set (fst (handle sample_env logging_redis (logging_gateway HTTPError) (\<lambda>_. 0) default_settings
      ''1-0'' sample_message 6 [sample_row] \<lparr>lg_acks = [], lg_dead = [], lg_accepted = []\<rparr>)).
     nt_status n' = Dead \<and> nt_gateway_message_id n' = Some ''msg_1''"
proof -
  let ?h = "handle sample_env logging_redis (logging_gateway HTTPError) (\<lambda>_. 0) default_settings
      ''1-0'' sample_message 6 [sample_row] \<lparr>lg_acks = [], lg_dead = [], lg_accepted = []\<rparr>"
  have limit: "(6 :: int) > cs_max_deliveries default_settings" by (simp add: default_settings_def)
  have h: "?h = (fst ?h, fst (snd ?h), snd (snd ?h))" by simp
  have row: "sample_row \<in> set [sample_row]" "nt_event_id sample_row = ev_event_id sample_event"
    "nt_status sample_row = Sent" "nt_gateway_message_id sample_row = Some ''msg_1''"
    by (simp_all add: sample_row_def new_notification_def)
  show ?thesis
    using late_delivery_buries_sent [OF sample_read limit h row(1-3)] unfolding row(4) by blast
qed

end
