(* ===== verification/Web_App.thy ===== *)
theory Web_App
  imports Web_Domain Web_Client
begin

text \<open>
  \<open>services/web/src/web/app.py\<close>: the pages. A request is one the framework has routed and whose form
  and cookies it has read; a page is the template with its context, before it is rendered. The
  sentences of the pages are not texts here but constructors: \<open>Explain code\<close> is \<open>explain(code)\<close>.
  \<open>PageCrash\<close> is an exception no handler is registered for, a 500.
\<close>

section \<open>Visitors\<close>

record visitor =
  vs_token :: string
  vs_name :: string
  vs_role :: web_role

text \<open>The session, the name and the role cookie.\<close>

type_synonym cookies = "string option \<times> string option \<times> string option"

definition current_visitor :: "cookies \<Rightarrow> visitor option" where
  "current_visitor jar =
     (case jar of
        (Some token, Some name, Some r) \<Rightarrow>
          if token = [] \<or> name = [] \<or> r = [] then None
          else (case parse_role r of
              Inl e \<Rightarrow> None
            | Inr known_role \<Rightarrow> Some \<lparr>vs_token = token, vs_name = name, vs_role = known_role\<rparr>)
      | _ \<Rightarrow> None)"

definition home :: "visitor \<Rightarrow> string" where
  "home who = (if vs_role who = WebClient then ''/bookings'' else ''/my-slots'')"

section \<open>Pages\<close>

datatype page_message = Explain string | SessionOver | LoggedOut | FormRefused

definition PENDING :: string where
  "PENDING = ''pending''"

text \<open>
  A cookie of an answer with its attributes; \<open>delete_cookie\<close> sets an empty one that is over at once. Login and
  logout use the three of \<open>COOKIES\<close>.
\<close>

record set_cookie =
  ck_name :: string
  ck_value :: string
  ck_max_age :: int
  ck_httponly :: bool
  ck_samesite :: string

definition SESSION_COOKIE :: string where "SESSION_COOKIE = ''slot_session''"
definition NAME_COOKIE :: string where "NAME_COOKIE = ''slot_name''"
definition ROLE_COOKIE :: string where "ROLE_COOKIE = ''slot_role''"

definition COOKIES :: "string list" where
  "COOKIES = [SESSION_COOKIE, NAME_COOKIE, ROLE_COOKIE]"

definition delete_cookie :: "string \<Rightarrow> set_cookie" where
  "delete_cookie name =
     \<lparr>ck_name = name, ck_value = [], ck_max_age = 0, ck_httponly = False, ck_samesite = ''lax''\<rparr>"

datatype page =
  LoginPage "page_message option" int
| BookingsPage visitor "web_booking list" "page_message option"
| SlotsPage visitor string "web_slot list" "page_message option"
| MySlotsPage visitor "web_slot list" "page_message option"
| ProblemPage visitor page_message
| ProblemPartial page_message
| BookedPartial
| SlotRow web_slot
| StatusRow uuid string bool
| Redirect string "set_cookie list"

datatype page_reply = Page page | PageCrash py_error

text \<open>The cookies an answer sets: the login page deletes whatever was there.\<close>

definition response_cookies :: "page \<Rightarrow> set_cookie list" where
  "response_cookies p =
     (case p of
        LoginPage message code \<Rightarrow> map delete_cookie COOKIES
      | Redirect url cookies \<Rightarrow> cookies
      | _ \<Rightarrow> [])"

definition status_row :: "uuid \<Rightarrow> string \<Rightarrow> page" where
  "status_row booking_id state = StatusRow booking_id state (state = PENDING)"

definition problem :: "string \<Rightarrow> page" where
  "problem code = ProblemPartial (Explain code)"

text \<open>What a call gave: its value, a refusal with code and status, or an exception that goes on.\<close>

definition page_of :: "client_error + 'a \<Rightarrow> (string \<Rightarrow> int \<Rightarrow> page) \<Rightarrow> ('a \<Rightarrow> page) \<Rightarrow> page_reply" where
  "page_of r refused shown =
     (case r of
        Inr x \<Rightarrow> Page (shown x)
      | Inl (BookingError code status) \<Rightarrow> Page (refused code status)
      | Inl (Unhandled e) \<Rightarrow> PageCrash e)"

section \<open>Handlers\<close>

definition index_page :: "visitor option \<Rightarrow> page" where
  "index_page who = (case who of None \<Rightarrow> LoginPage None 200 | Some v \<Rightarrow> Redirect (home v) [])"

definition login :: "string \<Rightarrow> string \<Rightarrow> string \<Rightarrow> moment \<Rightarrow> page_reply" where
  "login secret name r now =
     (case try_bind (clean_name name) (\<lambda>s. try_bind (parse_role r) (\<lambda>k. Inr (s, k))) of
        Inl e \<Rightarrow> Page (LoginPage (Some FormRefused) 400)
      | Inr (s, known_role) \<Rightarrow>
          (case issue_token s known_role secret now of
             Inl e \<Rightarrow> PageCrash e
           | Inr token \<Rightarrow>
               (let who = \<lparr>vs_token = token, vs_name = s, vs_role = known_role\<rparr>;
                    lifetime = SESSION_LIFETIME div seconds 1
                in Page (Redirect (home who)
                    [\<lparr>ck_name = SESSION_COOKIE, ck_value = token, ck_max_age = lifetime, ck_httponly = True,
                       ck_samesite = ''lax''\<rparr>,
                     \<lparr>ck_name = NAME_COOKIE, ck_value = s, ck_max_age = lifetime, ck_httponly = False,
                       ck_samesite = ''lax''\<rparr>,
                     \<lparr>ck_name = ROLE_COOKIE, ck_value = web_role_value known_role, ck_max_age = lifetime,
                       ck_httponly = False, ck_samesite = ''lax''\<rparr>]))))"

definition my_bookings_page ::
  "(string \<Rightarrow> datetime option) \<Rightarrow> 'w web_transport \<Rightarrow> visitor \<Rightarrow> 'w \<Rightarrow> 'w \<times> page_reply" where
  "my_bookings_page other http who w =
     (let (w', r) = my_bookings_call other http (vs_token who) w
      in (w', page_of r
           (\<lambda>code status. if status = 401 then LoginPage (Some SessionOver) 200
                          else BookingsPage who [] (Some (Explain code)))
           (\<lambda>bookings. BookingsPage who bookings None)))"

definition master_slots_page ::
  "(string \<Rightarrow> datetime option) \<Rightarrow> 'w web_transport \<Rightarrow> string \<Rightarrow> visitor \<Rightarrow> 'w \<Rightarrow> 'w \<times> page_reply" where
  "master_slots_page other http master_id who w =
     (let (w', r) = list_slots_call other http master_id None w
      in (w', page_of r (\<lambda>code status. SlotsPage who master_id [] (Some (Explain code)))
           (\<lambda>slots. SlotsPage who master_id slots None)))"

definition book_page :: "'w web_transport \<Rightarrow> uuid \<Rightarrow> visitor \<Rightarrow> 'w \<Rightarrow> 'w \<times> page_reply" where
  "book_page http slot_id who w =
     (let (w', r) = create_booking_call http (vs_token who) slot_id w
      in (w', page_of r (\<lambda>code status. problem code) (\<lambda>_. BookedPartial)))"

definition my_slots_page ::
  "(string \<Rightarrow> datetime option) \<Rightarrow> 'w web_transport \<Rightarrow> visitor \<Rightarrow> 'w \<Rightarrow> 'w \<times> page_reply" where
  "my_slots_page other http who w =
     (let (w', r) = list_slots_call other http (vs_name who) None w
      in (w', page_of r (\<lambda>code status. MySlotsPage who [] (Some (Explain code)))
           (\<lambda>slots. MySlotsPage who slots None)))"

text \<open>
  The form of a new slot: the start on the person's clock, the length, the price and the offset of the
  browser. \<open>datetime\<close> arithmetic beyond the year 9999 or before the year 1 raises.
\<close>

definition slot_form ::
  "(string \<Rightarrow> datetime option) \<Rightarrow> (string \<Rightarrow> py_error + int) \<Rightarrow> string \<Rightarrow> int \<Rightarrow> string \<Rightarrow> int
   \<Rightarrow> web_error exn + (moment \<times> moment \<times> int)" where
  "slot_form other cents starts_at duration_minutes price timezone_offset =
     (case fromisoformat other starts_at of
        None \<Rightarrow> Inl (Python ValueError)
      | Some local \<Rightarrow>
          try_bind (to_utc local timezone_offset) (\<lambda>starts.
            let ends = starts + minutes duration_minutes in
            if ends < MIN_MOMENT \<or> ends > MAX_MOMENT then Inl (Python OverflowError)
            else try_bind (price_to_minor cents price) (\<lambda>amount. Inr (starts, ends, amount))))"

definition publish_slot_page ::
  "(string \<Rightarrow> datetime option) \<Rightarrow> (string \<Rightarrow> py_error + int) \<Rightarrow> 'w web_transport
   \<Rightarrow> string \<Rightarrow> int \<Rightarrow> string \<Rightarrow> int \<Rightarrow> visitor \<Rightarrow> 'w \<Rightarrow> 'w \<times> page_reply" where
  "publish_slot_page other cents http starts_at duration_minutes price timezone_offset who w =
     (case slot_form other cents starts_at duration_minutes price timezone_offset of
        Inl (Python e) \<Rightarrow> (w, if e = ValueError then Page (ProblemPartial FormRefused) else PageCrash e)
      | Inl e \<Rightarrow> (w, Page (ProblemPartial FormRefused))
      | Inr (starts, ends, amount) \<Rightarrow>
          (let (w', r) = create_slot_call other http (vs_token who) (utc_datetime starts) (utc_datetime ends) amount w
           in (w', case r of
                Inl (Unhandled ValueError) \<Rightarrow> Page (ProblemPartial FormRefused)
              | _ \<Rightarrow> page_of r (\<lambda>code status. problem code) SlotRow)))"

definition booking_row_page :: "'w web_transport \<Rightarrow> uuid \<Rightarrow> visitor \<Rightarrow> 'w \<Rightarrow> 'w \<times> page_reply" where
  "booking_row_page http booking_id who w =
     (let (w', r) = booking_status_call http (vs_token who) booking_id w
      in (w', page_of r (\<lambda>code status. problem code) (status_row booking_id)))"

definition cancel_page :: "'w web_transport \<Rightarrow> uuid \<Rightarrow> visitor \<Rightarrow> 'w \<Rightarrow> 'w \<times> page_reply" where
  "cancel_page http booking_id who w =
     (let (w', r) = cancel_booking_call http (vs_token who) booking_id w
      in (w', page_of r (\<lambda>code status. problem code) (status_row booking_id)))"

text \<open>The framework redirects to \<open>str(url)\<close>.\<close>

definition pay_page :: "'w web_transport \<Rightarrow> uuid \<Rightarrow> visitor \<Rightarrow> 'w \<Rightarrow> 'w \<times> page_reply" where
  "pay_page http booking_id who w =
     (let (w', r) = start_payment_call http (vs_token who) booking_id w
      in (w', case r of
           Inr payment \<Rightarrow>
             if \<not> truthy (wp_checkout_url payment)
             then Page (ProblemPage who (Explain ''payments_unavailable''))
             else Page (Redirect (py_str (wp_checkout_url payment)) [])
         | _ \<Rightarrow> page_of r (\<lambda>code status. ProblemPage who (Explain code)) (\<lambda>_. BookedPartial)))"

section \<open>The application\<close>

datatype page_request =
  Index
| Login string string
| Logout
| MyBookings
| MasterSlots string
| Book uuid
| MySlots
| PublishSlot string int string int
| BookingRow uuid
| Cancel uuid
| Pay uuid

text \<open>A handler for visitors only: whoever is not logged in gets the login page.\<close>

definition for_visitor ::
  "cookies \<Rightarrow> (visitor \<Rightarrow> 'w \<Rightarrow> 'w \<times> page_reply) \<Rightarrow> 'w \<Rightarrow> 'w \<times> page_reply" where
  "for_visitor jar handler w =
     (case current_visitor jar of None \<Rightarrow> (w, Page (LoginPage None 200)) | Some who \<Rightarrow> handler who w)"

fun serve_page ::
  "(string \<Rightarrow> datetime option) \<Rightarrow> (string \<Rightarrow> py_error + int) \<Rightarrow> string \<Rightarrow> 'w web_transport \<Rightarrow> moment \<Rightarrow> cookies
   \<Rightarrow> page_request \<Rightarrow> 'w \<Rightarrow> 'w \<times> page_reply" where
  "serve_page other cents secret http now jar Index w = (w, Page (index_page (current_visitor jar)))"
| "serve_page other cents secret http now jar (Login name r) w = (w, login secret name r now)"
| "serve_page other cents secret http now jar Logout w = (w, Page (LoginPage (Some LoggedOut) 200))"
| "serve_page other cents secret http now jar MyBookings w = for_visitor jar (my_bookings_page other http) w"
| "serve_page other cents secret http now jar (MasterSlots m) w = for_visitor jar (master_slots_page other http m) w"
| "serve_page other cents secret http now jar (Book sid) w = for_visitor jar (book_page http sid) w"
| "serve_page other cents secret http now jar MySlots w = for_visitor jar (my_slots_page other http) w"
| "serve_page other cents secret http now jar (PublishSlot starts_at dur price off) w =
     for_visitor jar (publish_slot_page other cents http starts_at dur price off) w"
| "serve_page other cents secret http now jar (BookingRow bid) w = for_visitor jar (booking_row_page http bid) w"
| "serve_page other cents secret http now jar (Cancel bid) w = for_visitor jar (cancel_page http bid) w"
| "serve_page other cents secret http now jar (Pay bid) w = for_visitor jar (pay_page http bid) w"

end
