(* ===== verification/Web_Cookies.thy ===== *)
theory Web_Cookies
  imports Web_App Web_Sessions
begin

text \<open>
  A session from login to logout: the cookies \<open>app.py\<close> sets, a browser that keeps them as RFC 6265 says, \<open>current_visitor\<close>
  of a later request, and booking, which reads the token.
\<close>

section \<open>A browser\<close>

text \<open>A stored cookie: its value, the moment it is over, and whether scripts are kept from it.\<close>

type_synonym cookie_store = "string \<rightharpoonup> string \<times> moment \<times> bool"

definition browser_store :: "moment \<Rightarrow> set_cookie \<Rightarrow> cookie_store \<Rightarrow> cookie_store" where
  "browser_store now c store =
     (if ck_max_age c \<le> 0 then store(ck_name c := None)
      else store(ck_name c \<mapsto> (ck_value c, now + seconds (ck_max_age c), ck_httponly c)))"

definition browser_receive :: "moment \<Rightarrow> page \<Rightarrow> cookie_store \<Rightarrow> cookie_store" where
  "browser_receive now p store = fold (browser_store now) (response_cookies p) store"

definition live_cookie :: "moment \<Rightarrow> cookie_store \<Rightarrow> string \<Rightarrow> string option" where
  "live_cookie now store name =
     (case store name of None \<Rightarrow> None | Some (v, over, hidden) \<Rightarrow> if now < over then Some v else None)"

definition browser_sends :: "moment \<Rightarrow> cookie_store \<Rightarrow> cookies" where
  "browser_sends now store =
     (live_cookie now store SESSION_COOKIE, live_cookie now store NAME_COOKIE, live_cookie now store ROLE_COOKIE)"

definition script_sees :: "moment \<Rightarrow> cookie_store \<Rightarrow> string \<Rightarrow> string option" where
  "script_sees now store name =
     (case store name of Some (v, over, False) \<Rightarrow> live_cookie now store name | _ \<Rightarrow> None)"

text \<open>
  The header wraps a value in quotes when it has a character outside the legal ones of \<open>http.cookies\<close>; clients that are no
  browsers may send the quotes back.
\<close>

definition cookie_legal :: "char \<Rightarrow> bool" where
  "cookie_legal c \<longleftrightarrow>
     (let n = of_char c :: nat in 65 \<le> n \<and> n \<le> 90 \<or> 97 \<le> n \<and> n \<le> 122 \<or> 48 \<le> n \<and> n \<le> 57)
     \<or> c \<in> set (''!#$%&*+-.^_`|~:'' @ [CHR 39])"

definition cookie_quoted :: "string \<Rightarrow> bool" where
  "cookie_quoted v \<longleftrightarrow> v = [] \<or> \<not> list_all cookie_legal v"

section \<open>The values of a session\<close>

lemma alphabet_legal: "c \<in> set b64_alphabet \<Longrightarrow> cookie_legal c"
proof -
  have "list_all cookie_legal b64_alphabet" by (simp add: b64_alphabet_def cookie_legal_def)
  then show "c \<in> set b64_alphabet \<Longrightarrow> cookie_legal c" by (simp add: list_all_iff)
qed

lemma token_not_quoted:
  assumes "issue_token sub r secret now = Inr token"
  shows "\<not> cookie_quoted token"
proof -
  obtain payload where t: "token = ''v1.'' @ payload @ ''.'' @ signature payload secret"
    and p: "payload = b64 (encode (claims_text sub r (int_timestamp (now + SESSION_LIFETIME))))"
    using assms by (simp add: issue_token_framed Let_def)
  have "list_all cookie_legal (b64 bs)" if "byte_list bs" for bs
    using unpadded_alphabet [OF that] alphabet_legal by (auto simp: b64_def list_all_iff)
  moreover from this have "list_all cookie_legal (signature payload secret)"
    using byte_list_hmac by (simp add: signature_def b64_def)
  ultimately show ?thesis
    using seven_bits_encode(2) [OF seven_bits_claims] by (simp add: cookie_quoted_def t p cookie_legal_def)
qed

lemma token_nonempty: "issue_token sub r secret now = Inr token \<Longrightarrow> token \<noteq> []"
  using token_not_quoted by (auto simp: cookie_quoted_def)

lemma parse_role_value: "parse_role v = Inr r \<longleftrightarrow> v = web_role_value r"
  by (cases r) (auto simp: parse_role_def)

lemma name_quoted:
  assumes "clean_name typed = Inr name"
  shows "cookie_quoted name \<longleftrightarrow> CHR ''@'' \<in> set name"
proof -
  have "list_all id_char name" "name \<noteq> []"
    using clean_name_matches [OF assms] by (auto simp: matches_id_def list_all_iff)
  moreover have "cookie_legal c \<longleftrightarrow> c \<noteq> CHR ''@''" if "id_char c" for c
    using that by (auto simp: id_char_def cookie_legal_def Let_def)
  ultimately show ?thesis by (auto simp: cookie_quoted_def list_all_iff)
qed

lemma cookie_names [simp]:
  "SESSION_COOKIE \<noteq> NAME_COOKIE" "SESSION_COOKIE \<noteq> ROLE_COOKIE" "NAME_COOKIE \<noteq> ROLE_COOKIE"
  "NAME_COOKIE \<noteq> SESSION_COOKIE" "ROLE_COOKIE \<noteq> SESSION_COOKIE" "ROLE_COOKIE \<noteq> NAME_COOKIE"
  by (simp_all add: SESSION_COOKIE_def NAME_COOKIE_def ROLE_COOKIE_def)

text \<open>
  C35. A session lives as long as its token and no longer. After a login the browser sends, for twelve hours, cookies in which the web
  service sees the visitor it let in and booking verifies the token as the same name and role; from then on it sends
  none and the visitor is nobody, as after any page that shows the login form, logging out included. Scripts
  never see the token, and neither the token nor the role is ever wrapped in quotes; the name is when it has an \<open>@\<close>.
\<close>

theorem session_lives_as_long_as_token:
  assumes "login secret typed r now = Page (Redirect url cookies)" "MIN_MOMENT \<le> now"
  shows "\<exists>who. clean_name typed = Inr (vs_name who) \<and> url = home who
    \<and> (\<forall>t. current_visitor (browser_sends t (browser_receive now (Redirect url cookies) store))
          = (if t < now + SESSION_LIFETIME then Some who else None))
    \<and> (\<forall>t. verify_token other wide fr (vs_token who) secret t
          = (if t < seconds (int_timestamp (now + SESSION_LIFETIME))
             then Inr \<lparr>subject = vs_name who, id_role = booking_role (vs_role who)\<rparr> else Inl (Domain ExpiredTokenError)))
    \<and> (\<forall>t. script_sees t (browser_receive now (Redirect url cookies) store) SESSION_COOKIE = None)
    \<and> (\<forall>t later message code.
        current_visitor (browser_sends t (browser_receive later (LoginPage message code) store)) = None)
    \<and> \<not> cookie_quoted (vs_token who) \<and> \<not> cookie_quoted (web_role_value (vs_role who))
    \<and> (cookie_quoted (vs_name who) \<longleftrightarrow> CHR ''@'' \<in> set (vs_name who))"
proof -
  obtain name q token where name: "clean_name typed = Inr name" and role: "parse_role r = Inr q"
    and token: "issue_token name q secret now = Inr token"
    using assms(1) by (auto simp: login_def try_bind_def Let_def split: sum.splits)
  let ?who = "\<lparr>vs_token = token, vs_name = name, vs_role = q\<rparr>"
  let ?life = "SESSION_LIFETIME div seconds 1"
  have cookies: "url = home ?who" "cookies =
      [\<lparr>ck_name = SESSION_COOKIE, ck_value = token, ck_max_age = ?life, ck_httponly = True, ck_samesite = ''lax''\<rparr>,
       \<lparr>ck_name = NAME_COOKIE, ck_value = name, ck_max_age = ?life, ck_httponly = False, ck_samesite = ''lax''\<rparr>,
       \<lparr>ck_name = ROLE_COOKIE, ck_value = web_role_value q, ck_max_age = ?life, ck_httponly = False, ck_samesite = ''lax''\<rparr>]"
    using assms(1) name role token by (simp_all add: login_def try_bind_def Let_def)
  have life: "seconds ?life = SESSION_LIFETIME" "0 < ?life" by (simp_all add: SESSION_LIFETIME_def minutes_def seconds_def)
  let ?over = "now + SESSION_LIFETIME"
  have store: "browser_receive now (Redirect url cookies) store = store(SESSION_COOKIE \<mapsto> (token, ?over, True),
      NAME_COOKIE \<mapsto> (name, ?over, False), ROLE_COOKIE \<mapsto> (web_role_value q, ?over, False))"
    using life by (simp add: browser_receive_def response_cookies_def cookies browser_store_def)
  have "name \<noteq> []" "web_role_value q \<noteq> []" "token \<noteq> []"
    using clean_name_matches [OF name] token_nonempty [OF token] by (auto simp: matches_id_def) (cases q; simp)
  then have seen: "current_visitor (browser_sends t (browser_receive now (Redirect url cookies) store))
      = (if t < ?over then Some ?who else None)" for t
    using parse_role_value [of "web_role_value q" q]
    by (simp add: store browser_sends_def live_cookie_def current_visitor_def)
  have hidden: "script_sees t (browser_receive now (Redirect url cookies) store) SESSION_COOKIE = None" for t
    by (simp add: store script_sees_def)
  have out: "current_visitor (browser_sends t (browser_receive later (LoginPage message code) store)) = None" for t later message code
    by (simp add: browser_receive_def response_cookies_def COOKIES_def delete_cookie_def browser_store_def browser_sends_def
        live_cookie_def current_visitor_def)
  have "\<not> cookie_quoted (web_role_value q)" by (cases q) (simp_all add: cookie_quoted_def cookie_legal_def)
  moreover have "verify_token other wide fr token secret t
      = (if t < seconds (int_timestamp ?over) then Inr \<lparr>subject = name, id_role = booking_role q\<rparr> else Inl (Domain ExpiredTokenError))" for t
    using issued_token_verified [OF _ _ token assms(2)] clean_name_matches [OF name] by (simp add: SESSION_LIFETIME_def)
  ultimately show ?thesis
    using name cookies(1) seen hidden out token_not_quoted [OF token] name_quoted [OF name]
    by (intro exI [of _ ?who]) simp
qed

theorem session_lives_as_long_as_token_witness:
  "\<exists>url cookies who. login ''s3'' '' anna@home '' ''master'' 0 = Page (Redirect url cookies) \<and> url = ''/my-slots''
     \<and> vs_name who = ''anna@home'' \<and> cookie_quoted (vs_name who)
     \<and> current_visitor (browser_sends 5 (browser_receive 0 (Redirect url cookies) Map.empty)) = Some who
     \<and> current_visitor (browser_sends SESSION_LIFETIME (browser_receive 0 (Redirect url cookies) Map.empty)) = None"
proof -
  have name: "clean_name '' anna@home '' = Inr ''anna@home''" and role: "parse_role ''master'' = Inr WebMaster" by code_simp+
  obtain token where t: "issue_token ''anna@home'' WebMaster ''s3'' 0 = Inr token"
    by (auto simp: issue_token_def SESSION_LIFETIME_def MAX_MOMENT_def minutes_def seconds_def Let_def)
  then obtain url cookies where l: "login ''s3'' '' anna@home '' ''master'' 0 = Page (Redirect url cookies)"
    and url: "url = ''/my-slots''"
    by (simp add: login_def name role try_bind_def Let_def home_def)
  have now: "MIN_MOMENT \<le> 0" by (simp add: MIN_MOMENT_def)
  from session_lives_as_long_as_token [OF l now, of Map.empty] obtain who where
    "clean_name '' anna@home '' = Inr (vs_name who)" "cookie_quoted (vs_name who) \<longleftrightarrow> CHR ''@'' \<in> set (vs_name who)"
    "\<And>t. current_visitor (browser_sends t (browser_receive 0 (Redirect url cookies) Map.empty))
          = (if t < 0 + SESSION_LIFETIME then Some who else None)" by metis
  with l url name show ?thesis
    by (intro exI [of _ url] exI [of _ cookies] exI [of _ who])
      (simp add: SESSION_LIFETIME_def minutes_def seconds_def)
qed

end
