(* ===== verification/Web_Pages.thy ===== *)
theory Web_Pages
  imports Web_App
begin

text \<open>
  What a person sees: every page for every answer of booking, and the answers that still end as a 500.
\<close>

section \<open>Outcomes of a call\<close>














lemma page_of_simps [simp]:
  "page_of (Inr x) refused shown = Page (shown x)"
  "page_of (Inl (BookingError code status)) refused shown = Page (refused code status)"
  by (simp_all add: page_of_def)

section \<open>The pages of a visitor\<close>














section \<open>Properties\<close>





end
