(* ===== verification/Web_Messages.thy ===== *)
theory Web_Messages
  imports Web_Client Booking_Domain
begin

text \<open>
  The sentences of \<open>services/web/src/web/domain.py\<close> a refusal of booking is shown with. They are in Russian: a sentence is
  the list of its code points.
\<close>

type_synonym sentence = "nat list"

definition ERROR_MESSAGES :: "(string \<times> sentence) list" where
  "ERROR_MESSAGES =
     [(''slot_already_booked'',
        [1069, 1090, 1086, 1090, 32, 1089, 1083, 1086, 1090, 32, 1090, 1086, 1083, 1100, 1082, 1086, 32, 1095, 1090,
         1086, 32, 1079, 1072, 1085, 1103, 1083, 1080, 46, 32, 1042, 1099, 1073, 1077, 1088, 1080, 1090, 1077, 32,
         1076, 1088, 1091, 1075, 1086, 1077, 32, 1074, 1088, 1077, 1084, 1103, 46]),
      (''slot_in_past'',
        [1069, 1090, 1086, 32, 1074, 1088, 1077, 1084, 1103, 32, 1091, 1078, 1077, 32, 1087, 1088, 1086, 1096, 1083,
         1086, 46]),
      (''slot_not_found'',
        [1058, 1072, 1082, 1086, 1075, 1086, 32, 1089, 1083, 1086, 1090, 1072, 32, 1073, 1086, 1083, 1100, 1096,
         1077, 32, 1085, 1077, 1090, 46]),
      (''booking_not_found'',
        [1058, 1072, 1082, 1086, 1081, 32, 1073, 1088, 1086, 1085, 1080, 32, 1085, 1077, 1090, 46]),
      (''booking_not_payable'',
        [1069, 1090, 1091, 32, 1073, 1088, 1086, 1085, 1100, 32, 1091, 1078, 1077, 32, 1085, 1077, 1083, 1100, 1079,
         1103, 32, 1086, 1087, 1083, 1072, 1090, 1080, 1090, 1100, 46]),
      (''invalid_transition'',
        [1041, 1088, 1086, 1085, 1100, 32, 1091, 1078, 1077, 32, 1074, 32, 1076, 1088, 1091, 1075, 1086, 1084, 32,
         1089, 1086, 1089, 1090, 1086, 1103, 1085, 1080, 1080, 46, 32, 1054, 1073, 1085, 1086, 1074, 1080, 1090,
         1077, 32, 1089, 1090, 1088, 1072, 1085, 1080, 1094, 1091, 46]),
      (''invalid_slot'',
        [1057, 1083, 1086, 1090, 32, 1076, 1086, 1083, 1078, 1077, 1085, 32, 1085, 1072, 1095, 1080, 1085, 1072,
         1090, 1100, 1089, 1103, 32, 1074, 32, 1073, 1091, 1076, 1091, 1097, 1077, 1084, 32, 1080, 32, 1079, 1072,
         1082, 1072, 1085, 1095, 1080, 1074, 1072, 1090, 1100, 1089, 1103, 32, 1087, 1086, 1089, 1083, 1077, 32,
         1085, 1072, 1095, 1072, 1083, 1072, 46]),
      (''payments_unavailable'',
        [1054, 1087, 1083, 1072, 1090, 1072, 32, 1089, 1077, 1081, 1095, 1072, 1089, 32, 1085, 1077, 1076, 1086,
         1089, 1090, 1091, 1087, 1085, 1072, 46, 32, 1055, 1086, 1087, 1088, 1086, 1073, 1091, 1081, 1090, 1077, 32,
         1095, 1077, 1088, 1077, 1079, 32, 1084, 1080, 1085, 1091, 1090, 1091, 46]),
      (''booking_unavailable'',
        [1057, 1077, 1088, 1074, 1080, 1089, 32, 1079, 1072, 1087, 1080, 1089, 1080, 32, 1089, 1077, 1081, 1095,
         1072, 1089, 32, 1085, 1077, 1076, 1086, 1089, 1090, 1091, 1087, 1077, 1085, 46, 32, 1055, 1086, 1087, 1088,
         1086, 1073, 1091, 1081, 1090, 1077, 32, 1095, 1077, 1088, 1077, 1079, 32, 1084, 1080, 1085, 1091, 1090,
         1091, 46])]"

definition UNEXPECTED :: sentence where
  "UNEXPECTED =
     [1063, 1090, 1086, 45, 1090, 1086, 32, 1087, 1086, 1096, 1083, 1086, 32, 1085, 1077, 32, 1090, 1072, 1082, 46,
      32, 1055, 1086, 1087, 1088, 1086, 1073, 1091, 1081, 1090, 1077, 32, 1077, 1097, 1105, 32, 1088, 1072, 1079, 46]"

definition explain :: "string \<Rightarrow> sentence" where
  "explain code = (case map_of ERROR_MESSAGES code of None \<Rightarrow> UNEXPECTED | Some text \<Rightarrow> text)"

section \<open>Never an empty page\<close>

text \<open>Whatever the code, there is a sentence to show.\<close>

lemma explain_not_empty: "explain code \<noteq> []"
proof -
  have "list_all (\<lambda>(k, text). text \<noteq> []) ERROR_MESSAGES" "UNEXPECTED \<noteq> []" by code_simp+
  then show ?thesis by (auto simp: explain_def list_all_iff split: option.split dest!: map_of_SomeD)
qed

text \<open>
  The codes explained are codes booking answers with, or the client's own for a booking that does not answer: none is
  misspelt.
\<close>

lemma explained_codes_exist: "fst ` set ERROR_MESSAGES \<subseteq> range error_code \<union> {UNAVAILABLE}"
proof -
  let ?codes = "map error_code [SlotAlreadyBookedError, SlotInPastError, SlotNotFoundError, BookingNotFoundError,
    BookingNotPayableError, InvalidTransitionError, InvalidSlotError, PaymentsUnavailableError] @ [UNAVAILABLE]"
  have "map fst ERROR_MESSAGES = ?codes" by (simp add: ERROR_MESSAGES_def UNAVAILABLE_def)
  then have "fst ` set ERROR_MESSAGES = set ?codes" by (simp only: list.set_map [symmetric])
  moreover have "set (map error_code es @ [u]) \<subseteq> range error_code \<union> {u}" for es u by auto
  ultimately show ?thesis by (simp only:)
qed

end
