(* ===== verification/Tools_Changes.thy ===== *)
theory Tools_Changes
  imports Pyvalue "HOL-Library.List_Lexorder" "HOL-Library.Char_ord"
begin

text \<open>
  \<open>tools/changed_services.py\<close>: which services a change can break, and that the answer errs on the
  safe side. \<open>git diff\<close> is a parameter: the exit code and the output.
\<close>

definition SERVICES :: "string list" where
  "SERVICES = [''booking'', ''notifier'', ''payments'', ''web'']"

definition EXTERNAL_API_USERS :: "(string \<times> string list) list" where
  "EXTERNAL_API_USERS = [(''contracts/paystub/'', [''payments'']), (''contracts/notifygw/'', [''notifier''])]"

definition EVENT_PARTIES :: "string list" where
  "EVENT_PARTIES = [''booking'', ''notifier'']"

definition TOKEN_PARTIES :: "string list" where
  "TOKEN_PARTIES = [''booking'', ''web'']"

definition IRRELEVANT :: "string list" where
  "IRRELEVANT = [''docs/'', ''README.md'', ''CLAUDE.md'', ''.gitignore'', ''smoke/'', ''e2e/'']"

definition LIBRARIES :: "string list" where
  "LIBRARIES = [''quality-hub'']"

definition removesuffix :: "string \<Rightarrow> string \<Rightarrow> string" where
  "removesuffix s suf =
     (if suf \<noteq> [] \<and> length suf \<le> length s \<and> drop (length s - length suf) s = suf
      then take (length s - length suf) s else s)"

definition endswith :: "string \<Rightarrow> string \<Rightarrow> bool" where
  "endswith s suf \<longleftrightarrow> length suf \<le> length s \<and> drop (length s - length suf) s = suf"

text \<open>What one path adds to the affected services; \<open>None\<close> is a path the script does not know.\<close>

definition path_effect :: "string \<Rightarrow> string list option" where
  "path_effect path =
     (let parts = split_on CHR ''/'' path;
          in_service = (hd parts = ''services'' \<and> length parts > 2)
      in if list_ex (startswith path) IRRELEVANT then Some []
         else if in_service \<and> parts ! 1 \<in> set LIBRARIES then Some []
         else if in_service \<and> parts ! 1 \<in> set SERVICES then Some [parts ! 1]
         else if startswith path ''contracts/events/'' then Some EVENT_PARTIES
         else if startswith path ''contracts/auth/'' then Some TOKEN_PARTIES
         else if startswith path ''contracts/pacts/'' \<and> endswith path ''.json'' then
           (let provider = last (split_on CHR ''-'' (removesuffix (last parts) ''.json''))
            in Some (if provider \<in> set SERVICES then [provider] else SERVICES))
         else if list_ex (\<lambda>(api, users). startswith path api) EXTERNAL_API_USERS then
           Some (concat (map snd (filter (\<lambda>(api, users). startswith path api) EXTERNAL_API_USERS)))
         else None)"

text \<open>The set \<open>affected\<close> is a list without repetitions.\<close>

definition add_all :: "string list \<Rightarrow> string list \<Rightarrow> string list" where
  "add_all xs affected = fold List.insert xs affected"

fun affected_loop :: "string list \<Rightarrow> string list \<Rightarrow> string list" where
  "affected_loop [] affected = sort affected"
| "affected_loop (path # paths) affected =
     (case path_effect path of
        None \<Rightarrow> sort SERVICES
      | Some services \<Rightarrow> affected_loop paths (add_all services affected))"

definition affected_services :: "string list \<Rightarrow> string list" where
  "affected_services paths = affected_loop paths []"

text \<open>\<open>str.split()\<close>: words between runs of whitespace.\<close>

function split_words :: "string \<Rightarrow> string list" where
  "split_words s =
     (let t = dropWhile (\<lambda>c. c \<in> py_space) s in
      if t = [] then []
      else takeWhile (\<lambda>c. c \<notin> py_space) t # split_words (dropWhile (\<lambda>c. c \<notin> py_space) t))"
  by pat_completeness auto
termination
proof (relation "measure length")
  fix s t :: string
  assume t: "t = dropWhile (\<lambda>c. c \<in> py_space) s" "t \<noteq> []"
  then have "hd t \<notin> py_space" by (metis hd_dropWhile)
  with t(2) have "length (dropWhile (\<lambda>c. c \<notin> py_space) t) < length t"
    by (cases t) (auto simp: less_Suc_eq_le length_dropWhile_le)
  also have "length t \<le> length s" unfolding t(1) by (rule length_dropWhile_le)
  finally show "(dropWhile (\<lambda>c. c \<notin> py_space) t, s) \<in> measure length" by simp
qed simp

declare split_words.simps [simp del]

definition UNKNOWN_BASE :: "string list" where
  "UNKNOWN_BASE = [''<unknown base>'']"

definition changed_files :: "(string \<Rightarrow> int \<times> string) \<Rightarrow> string \<Rightarrow> string list" where
  "changed_files git_diff base_ref =
     (case git_diff (base_ref @ ''...HEAD'') of (returncode, stdout) \<Rightarrow>
        if returncode \<noteq> 0 then UNKNOWN_BASE else split_words stdout)"

section \<open>Facts\<close>

lemma set_add_all [simp]: "set (add_all xs ys) = set xs \<union> set ys"
  unfolding add_all_def by (induction xs arbitrary: ys) auto

lemma distinct_add_all: "distinct ys \<Longrightarrow> distinct (add_all xs ys)"
  unfolding add_all_def by (induction xs arbitrary: ys) auto

lemma distinct_services: "distinct SERVICES"
  by (simp add: SERVICES_def)

lemma path_effect_services: "path_effect p = Some us \<Longrightarrow> set us \<subseteq> set SERVICES"
  by (auto simp: path_effect_def Let_def EVENT_PARTIES_def TOKEN_PARTIES_def EXTERNAL_API_USERS_def SERVICES_def
      split: if_splits)

lemma affected_loop_set:
  "set (affected_loop paths acc) =
     (if \<exists>p \<in> set paths. path_effect p = None then set SERVICES
      else set acc \<union> (\<Union>p \<in> set paths. set (the (path_effect p))))"
  by (induction paths arbitrary: acc) (auto split: option.splits)

lemma affected_loop_sorted:
  "distinct acc \<Longrightarrow> sorted (affected_loop paths acc) \<and> distinct (affected_loop paths acc)"
  by (induction paths arbitrary: acc) (simp_all add: distinct_add_all distinct_services split: option.splits)

lemma affected_unknown:
  "p \<in> set paths \<Longrightarrow> path_effect p = None \<Longrightarrow> set (affected_services paths) = set SERVICES"
  by (auto simp: affected_services_def affected_loop_set)

lemma affected_known:
  "\<forall>p \<in> set paths. path_effect p \<noteq> None \<Longrightarrow>
     set (affected_services paths) = (\<Union>p \<in> set paths. set (the (path_effect p)))"
  unfolding affected_services_def affected_loop_set by auto

lemma affected_subset: "set (affected_services paths) \<subseteq> set SERVICES"
proof (cases "\<exists>p \<in> set paths. path_effect p = None")
  case True
  then show ?thesis using affected_unknown by blast
next
  case False
  then show ?thesis using path_effect_services by (fastforce simp: affected_known)
qed

lemma affected_mono:
  assumes "set paths \<subseteq> set paths'"
  shows "set (affected_services paths) \<subseteq> set (affected_services paths')"
proof (cases "\<exists>p \<in> set paths'. path_effect p = None")
  case True
  then show ?thesis using affected_unknown affected_subset by blast
next
  case False
  with assms have "\<forall>p \<in> set paths'. path_effect p \<noteq> None" "\<forall>p \<in> set paths. path_effect p \<noteq> None" by auto
  with assms show ?thesis unfolding affected_known by (auto simp: affected_known)
qed

lemma unknown_base_effect: "path_effect ''<unknown base>'' = None"
  by code_simp

lemma own_file_effect:
  assumes "split_on CHR ''/'' p = ''services'' # s # q # rest" "s \<in> set SERVICES"
  shows "path_effect p = Some [s]"
proof -
  have p: "p = join ''/'' (''services'' # s # q # rest)"
    using join_split_on [of "CHR ''/''" p] assms(1) by simp
  then have "startswith p ''services/''" by (simp add: startswith_def)
  then have "\<not> list_ex (startswith p) IRRELEVANT"
    by (auto simp: p IRRELEVANT_def startswith_def)
  moreover have "s \<notin> set LIBRARIES" using assms(2) by (auto simp: SERVICES_def LIBRARIES_def)
  ultimately show ?thesis using assms by (simp add: path_effect_def)
qed

lemma own_file_selected:
  assumes "p \<in> set paths" "split_on CHR ''/'' p = ''services'' # s # q # rest" "s \<in> set SERVICES"
  shows "s \<in> set (affected_services paths)"
proof -
  have "set [p] \<subseteq> set paths" using assms(1) by simp
  moreover have "set (affected_services [p]) = {s}"
    using own_file_effect [OF assms(2,3)] by (simp add: affected_known)
  ultimately show ?thesis using affected_mono by blast
qed

lemma affected_sorted: "sorted (affected_services paths) \<and> distinct (affected_services paths)"
  unfolding affected_services_def by (rule affected_loop_sorted) simp

lemma unknown_selects_all:
  "p \<in> set paths \<Longrightarrow> path_effect p = None \<Longrightarrow> affected_services paths = SERVICES"
proof -
  assume "p \<in> set paths" "path_effect p = None"
  then have "set (affected_services paths) = set SERVICES" by (rule affected_unknown)
  moreover have "sorted SERVICES" by code_simp
  ultimately show ?thesis using affected_sorted [of paths] distinct_services by (metis sorted_distinct_set_unique)
qed

section \<open>Safe selection\<close>

text \<open>
  The selection of services is safe: it is a sorted list of services without repetitions; it
  only depends on the set of changed paths and more paths never select fewer services; a file under
  \<open>services/<name>/\<close> of a service always selects that service; and a path the script does not
  know, or a base that git cannot compare with, selects every service.
\<close>

theorem affected_services_safe:
  "sorted (affected_services paths) \<and> distinct (affected_services paths)
   \<and> set (affected_services paths) \<subseteq> set SERVICES
   \<and> (\<forall>more. set (affected_services paths) \<subseteq> set (affected_services (paths @ more)))
   \<and> (\<forall>again. set again = set paths \<longrightarrow> affected_services again = affected_services paths)
   \<and> (\<forall>p \<in> set paths. \<forall>s q rest. split_on CHR ''/'' p = ''services'' # s # q # rest \<longrightarrow> s \<in> set SERVICES \<longrightarrow>
        s \<in> set (affected_services paths))
   \<and> (\<forall>p \<in> set paths. path_effect p = None \<longrightarrow> affected_services paths = SERVICES)
   \<and> (fst (git_diff (base @ ''...HEAD'')) \<noteq> 0 \<longrightarrow> affected_services (changed_files git_diff base) = SERVICES)"
proof (intro conjI allI ballI impI)
  show "affected_services again = affected_services paths" if "set again = set paths" for again
    using affected_mono [of again paths] affected_mono [of paths again] that affected_sorted
    by (metis order_antisym order_refl sorted_distinct_set_unique)
  show "affected_services (changed_files git_diff base) = SERVICES" if "fst (git_diff (base @ ''...HEAD'')) \<noteq> 0"
    using that unknown_selects_all [of "''<unknown base>''" UNKNOWN_BASE] unknown_base_effect
    by (cases "git_diff (base @ ''...HEAD'')") (simp add: changed_files_def UNKNOWN_BASE_def)
qed (use affected_sorted affected_subset affected_mono own_file_selected unknown_selects_all in auto)

theorem affected_services_safe_witness:
  "''payments'' \<in> set (affected_services [''docs/a.md'', ''services/payments/src/x.py''])
   \<and> affected_services [''docs/a.md'', ''Makefile''] = SERVICES
   \<and> affected_services (changed_files (\<lambda>_. (128, [])) ''main'') = SERVICES"
proof -
  have split: "split_on CHR ''/'' ''services/payments/src/x.py'' = ''services'' # ''payments'' # ''src'' # [''x.py'']"
    by code_simp
  have none: "path_effect ''Makefile'' = None" by code_simp
  have service: "''payments'' \<in> set SERVICES" by (simp add: SERVICES_def)
  note safe = affected_services_safe [of _ "\<lambda>_. (128, [])" "''main''"]
  have "''payments'' \<in> set (affected_services [''docs/a.md'', ''services/payments/src/x.py''])"
    using safe [of "[''docs/a.md'', ''services/payments/src/x.py'']"] split service by (meson list.set_intros)
  moreover have "affected_services [''docs/a.md'', ''Makefile''] = SERVICES"
    using safe [of "[''docs/a.md'', ''Makefile'']"] none by (meson list.set_intros)
  moreover have "affected_services (changed_files (\<lambda>_. (128, [])) ''main'') = SERVICES"
    using safe by simp
  ultimately show ?thesis by blast
qed

end
