(* ===== verification/Tools_Schema.thy ===== *)
theory Tools_Schema
  imports Pyjson
begin

text \<open>
  \<open>tools/event_schema_diff.py\<close>: breaking changes between two versions of an event schema. Schemas
  are JSON objects as \<open>json.loads\<close> gives them; where a schema is not shaped like one, the model
  raises what Python raises.
\<close>

section \<open>Equality of JSON values\<close>

text \<open>
  Python's \<open>==\<close>: dicts do not care about the order of their items, \<open>True\<close> is 1, and a float equals
  the integer it stands for. \<open>canon\<close> picks one value of every class (not a number aside).
\<close>

definition float_int :: "string \<Rightarrow> int option" where
  "float_int t =
     (let neg = (take 1 t = ''-''); u = (if neg then drop 1 t else t);
          ds = takeWhile (\<lambda>c. c \<noteq> CHR ''.'') u
      in if drop (length ds) u = ''.0''
         then map_option (\<lambda>n. if neg then - int n else int n) (parse_digits 10 ds) else None)"

fun canon :: "json \<Rightarrow> json" where
  "canon (JBool b) = JInt (if b then 1 else 0)"
| "canon (JFloat t) = (case float_int t of Some i \<Rightarrow> JInt i | None \<Rightarrow> JFloat t)"
| "canon (JArr xs) = JArr (map canon xs)"
| "canon (JObj kvs) = JObj (sort_key fst (map (\<lambda>(k, v). (k, canon v)) kvs))"
| "canon v = v"

definition py_eq :: "json \<Rightarrow> json \<Rightarrow> bool" where
  "py_eq a b \<longleftrightarrow> canon a = canon b"

lemma py_eq_refl [simp]: "py_eq a a"
  by (simp add: py_eq_def)

lemma py_eq_sym: "py_eq a b \<longleftrightarrow> py_eq b a"
  by (auto simp: py_eq_def)

lemma py_eq_trans: "py_eq a b \<Longrightarrow> py_eq b c \<Longrightarrow> py_eq a c"
  by (simp add: py_eq_def)

section \<open>The comparison\<close>

definition SHAPE_KEYS :: "string list" where
  "SHAPE_KEYS = [''type'', ''format'', ''const'', ''enum'', ''items'']"

type_synonym schema = "(string \<times> json) list"

text \<open>\<open>target.get(part, {})\<close> along the path of a reference.\<close>

fun follow :: "json \<Rightarrow> string list \<Rightarrow> py_error + json" where
  "follow target [] = Inr target"
| "follow target (part # parts) =
     (case target of
        JObj kvs \<Rightarrow> follow (case map_of kvs part of None \<Rightarrow> JObj [] | Some v \<Rightarrow> v) parts
      | _ \<Rightarrow> Inl AttributeError)"

definition resolve :: "schema \<Rightarrow> schema \<Rightarrow> py_error + schema" where
  "resolve schema root =
     (case dict_get schema ''$ref'' of
        JStr reference \<Rightarrow>
          if \<not> startswith reference ''#/'' then Inr schema
          else (case follow (JObj root) (split_on CHR ''/'' (drop 2 reference)) of
                  Inl e \<Rightarrow> Inl e
                | Inr (JObj kvs) \<Rightarrow> Inr kvs
                | Inr _ \<Rightarrow> Inr [])
      | _ \<Rightarrow> Inr schema)"

definition shape :: "schema \<Rightarrow> schema \<Rightarrow> py_error + schema" where
  "shape schema root =
     try_bind (resolve schema root) (\<lambda>resolved.
       Inr (concat (map (\<lambda>key. case map_of resolved key of None \<Rightarrow> [] | Some v \<Rightarrow> [(key, v)]) SHAPE_KEYS)))"

text \<open>\<open>schema.get(key, default)\<close> for the three keys whose value is iterated.\<close>

definition get_items :: "schema \<Rightarrow> string \<Rightarrow> py_error + json list" where
  "get_items schema key =
     (case map_of schema key of
        None \<Rightarrow> Inr []
      | Some (JArr xs) \<Rightarrow> Inr xs
      | Some (JStr s) \<Rightarrow> Inr (map (\<lambda>c. JStr [c]) s)
      | Some (JObj kvs) \<Rightarrow> Inr (map (JStr \<circ> fst) kvs)
      | Some _ \<Rightarrow> Inl TypeError)"

definition get_object :: "schema \<Rightarrow> string \<Rightarrow> py_error + schema" where
  "get_object schema key =
     (case map_of schema key of
        None \<Rightarrow> Inr []
      | Some (JObj kvs) \<Rightarrow> Inr kvs
      | Some _ \<Rightarrow> Inl AttributeError)"

definition as_object :: "json \<Rightarrow> py_error + schema" where
  "as_object v = (case v of JObj kvs \<Rightarrow> Inr kvs | _ \<Rightarrow> Inl AttributeError)"

definition member :: "json \<Rightarrow> json list \<Rightarrow> bool" where
  "member v xs \<longleftrightarrow> list_ex (py_eq v) xs"

text \<open>\<open>sorted\<close> of a list of strings or of integers; a mix has no order.\<close>

definition sorted_values :: "json list \<Rightarrow> py_error + json list" where
  "sorted_values xs =
     (if list_all (\<lambda>v. case v of JStr s \<Rightarrow> True | _ \<Rightarrow> False) xs
      then Inr (map JStr (sort (map py_str xs)))
      else if list_all (\<lambda>v. case v of JInt i \<Rightarrow> True | _ \<Rightarrow> False) xs
      then Inr (map JInt (sort (map (\<lambda>v. case v of JInt i \<Rightarrow> i | _ \<Rightarrow> 0) xs)))
      else if length xs \<le> 1 then Inr xs else Inl TypeError)"

definition quoted :: "string \<Rightarrow> string" where
  "quoted name = CHR 0x27 # name @ [CHR 0x27]"

definition shape_changes :: "string \<Rightarrow> schema \<Rightarrow> schema \<Rightarrow> string list" where
  "shape_changes name was now =
     map (\<lambda>key. ''property '' @ quoted name @ '': '' @ key @ '' changed from '' @ py_str (dict_get was key)
                @ '' to '' @ py_str (dict_get now key))
       (filter (\<lambda>key. key \<noteq> ''enum'' \<and> \<not> py_eq (dict_get was key) (dict_get now key)) SHAPE_KEYS)"

definition enum_changes :: "string \<Rightarrow> schema \<Rightarrow> schema \<Rightarrow> py_error + string list" where
  "enum_changes name was now =
     try_bind (get_items was ''enum'') (\<lambda>before.
     if before = [] then Inr []
     else try_bind (get_items now ''enum'') (\<lambda>after.
       (let removed = filter (\<lambda>v. \<not> member v after) before in
        if removed = [] then Inr []
        else try_bind (sorted_values removed) (\<lambda>values.
          Inr [''property '' @ quoted name @ '': enum values removed: '' @ py_repr (JArr values)]))))"

definition property_changes ::
  "schema \<Rightarrow> schema \<Rightarrow> json list \<Rightarrow> json list \<Rightarrow> schema \<Rightarrow> string \<Rightarrow> json \<Rightarrow> py_error + string list" where
  "property_changes old new old_required new_required new_properties name old_property =
     (case map_of new_properties name of
        None \<Rightarrow> Inr [''property '' @ quoted name @ '' was removed'']
      | Some new_property \<Rightarrow>
          try_bind (as_object old_property) (\<lambda>before.
          try_bind (shape before old) (\<lambda>was.
          try_bind (as_object new_property) (\<lambda>after.
          try_bind (shape after new) (\<lambda>now.
          try_bind (enum_changes name was now) (\<lambda>enums.
            Inr ((if member (JStr name) old_required \<and> \<not> member (JStr name) new_required
                  then [''property '' @ quoted name @ '' is no longer required''] else [])
                 @ shape_changes name was now @ enums)))))))"

fun all_changes :: "(string \<Rightarrow> json \<Rightarrow> py_error + string list) \<Rightarrow> schema \<Rightarrow> py_error + string list" where
  "all_changes changes [] = Inr []"
| "all_changes changes ((name, property) # properties) =
     try_bind (changes name property) (\<lambda>xs.
     try_bind (all_changes changes properties) (\<lambda>ys. Inr (xs @ ys)))"

definition breaking_changes :: "schema \<Rightarrow> schema \<Rightarrow> py_error + string list" where
  "breaking_changes old new =
     try_bind (get_object old ''properties'') (\<lambda>old_properties.
     try_bind (get_object new ''properties'') (\<lambda>new_properties.
     try_bind (get_items old ''required'') (\<lambda>old_required.
     try_bind (get_items new ''required'') (\<lambda>new_required.
       all_changes (property_changes old new old_required new_required new_properties) old_properties))))"

text \<open>
  \<open>main\<close>: the exit code and what is printed, from the texts of the two files (\<open>None\<close> when the old
  one does not exist).
\<close>

definition schema_main ::
  "(string \<Rightarrow> json option) \<Rightarrow> string list \<Rightarrow> (string \<Rightarrow> string option) \<Rightarrow> py_error + int \<times> string list" where
  "schema_main loads argv files =
     (case argv of
        [old_path, new_path] \<Rightarrow>
          (case files old_path of
             None \<Rightarrow> Inr (0, [''--- '' @ new_path @ '': no schema in the base version, nothing to break''])
           | Some old_text \<Rightarrow>
               (case (loads old_text, files new_path) of
                  (None, _) \<Rightarrow> Inl ValueError
                | (_, None) \<Rightarrow> Inl FileNotFoundError
                | (Some old, Some new_text) \<Rightarrow>
                    (case loads new_text of
                       None \<Rightarrow> Inl ValueError
                     | Some new \<Rightarrow>
                         try_bind (as_object old) (\<lambda>old.
                         try_bind (as_object new) (\<lambda>new.
                         try_bind (breaking_changes old new) (\<lambda>problems.
                           if problems \<noteq> []
                           then Inr (1, [''--- '' @ new_path @ '': breaking changes for consumers'']
                                   @ map (\<lambda>p. ''    '' @ p) problems
                                   @ [''    a consumer cannot be asked to redeploy first: publish a new version of the stream instead''])
                           else Inr (0, [''--- '' @ new_path @ '': no breaking changes''])))))))
      | _ \<Rightarrow> Inr (2, [''usage: event_schema_diff.py OLD.json NEW.json'']))"

section \<open>When nothing is broken\<close>

definition enum_kept :: "schema \<Rightarrow> schema \<Rightarrow> bool" where
  "enum_kept was now \<longleftrightarrow>
     (\<exists>before. get_items was ''enum'' = Inr before
        \<and> (before = [] \<or> (\<exists>after. get_items now ''enum'' = Inr after \<and> (\<forall>v \<in> set before. member v after))))"

definition shape_kept :: "schema \<Rightarrow> schema \<Rightarrow> bool" where
  "shape_kept was now \<longleftrightarrow>
     (\<forall>key \<in> set SHAPE_KEYS. key \<noteq> ''enum'' \<longrightarrow> py_eq (dict_get was key) (dict_get now key)) \<and> enum_kept was now"

text \<open>The shape of a property of a schema, when it has one.\<close>

definition shape_of :: "schema \<Rightarrow> json \<Rightarrow> py_error + schema" where
  "shape_of root property = try_bind (as_object property) (\<lambda>p. shape p root)"

lemma enum_changes_nil: "enum_changes name was now = Inr [] \<longleftrightarrow> enum_kept was now"
  by (auto simp: enum_changes_def enum_kept_def try_bind_Inr_iff Let_def filter_empty_conv
      split: if_splits)

lemma shape_changes_nil:
  "shape_changes name was now = [] \<longleftrightarrow>
     (\<forall>key \<in> set SHAPE_KEYS. key \<noteq> ''enum'' \<longrightarrow> py_eq (dict_get was key) (dict_get now key))"
  by (auto simp: shape_changes_def filter_empty_conv)

lemma property_changes_nil:
  "property_changes old new old_required new_required new_properties name p = Inr [] \<longleftrightarrow>
     (\<exists>q was now. map_of new_properties name = Some q \<and> shape_of old p = Inr was \<and> shape_of new q = Inr now
        \<and> (member (JStr name) old_required \<longrightarrow> member (JStr name) new_required) \<and> shape_kept was now)"
  by (auto simp: property_changes_def shape_of_def try_bind_Inr_iff shape_kept_def enum_changes_nil
      shape_changes_nil split: option.splits if_splits)

lemma all_changes_nil: "all_changes f ps = Inr [] \<longleftrightarrow> (\<forall>(n, p) \<in> set ps. f n p = Inr [])"
  by (induction ps) (auto simp: try_bind_Inr_iff)

definition property_kept ::
  "schema \<Rightarrow> schema \<Rightarrow> schema \<Rightarrow> json list \<Rightarrow> json list \<Rightarrow> string \<Rightarrow> json \<Rightarrow> bool" where
  "property_kept old new nps oreq nreq name p \<longleftrightarrow>
     (\<exists>q was now. map_of nps name = Some q \<and> shape_of old p = Inr was \<and> shape_of new q = Inr now
        \<and> (member (JStr name) oreq \<longrightarrow> member (JStr name) nreq) \<and> shape_kept was now)"

definition properties_kept ::
  "schema \<Rightarrow> schema \<Rightarrow> schema \<Rightarrow> schema \<Rightarrow> json list \<Rightarrow> json list \<Rightarrow> bool" where
  "properties_kept old new ops nps oreq nreq \<longleftrightarrow>
     (\<forall>(name, p) \<in> set ops. property_kept old new nps oreq nreq name p)"

lemma breaking_changes_nil:
  "breaking_changes old new = Inr [] \<longleftrightarrow>
     (\<exists>ops nps oreq nreq. get_object old ''properties'' = Inr ops \<and> get_object new ''properties'' = Inr nps
        \<and> get_items old ''required'' = Inr oreq \<and> get_items new ''required'' = Inr nreq
        \<and> properties_kept old new ops nps oreq nreq)"
  by (simp add: breaking_changes_def try_bind_Inr_iff all_changes_nil property_changes_nil
      properties_kept_def property_kept_def)

lemma breaking_changes_nilE:
  assumes "breaking_changes old new = Inr []"
  obtains ops nps oreq nreq where "get_object old ''properties'' = Inr ops" "get_object new ''properties'' = Inr nps"
    "get_items old ''required'' = Inr oreq" "get_items new ''required'' = Inr nreq"
    "properties_kept old new ops nps oreq nreq"
  using assms unfolding breaking_changes_nil by (elim exE conjE) (rule that; assumption)

lemma member_trans: "member v xs \<Longrightarrow> \<forall>x \<in> set xs. member x ys \<Longrightarrow> member v ys"
  by (auto simp: member_def list_ex_iff py_eq_def)

lemma enum_kept_trans:
  assumes "enum_kept a b" "enum_kept b c"
  shows "enum_kept a c"
proof -
  from assms(1) obtain before where before: "get_items a ''enum'' = Inr before"
    "before = [] \<or> (\<exists>after. get_items b ''enum'' = Inr after \<and> (\<forall>v \<in> set before. member v after))"
    unfolding enum_kept_def by blast
  show ?thesis
  proof (cases "before = []")
    case True
    with before(1) show ?thesis by (simp add: enum_kept_def)
  next
    case False
    with before(2) obtain mid where mid: "get_items b ''enum'' = Inr mid" "\<forall>v \<in> set before. member v mid"
      by blast
    with False have "mid \<noteq> []" by (cases before) (auto simp: member_def)
    with assms(2) mid(1) obtain after where "get_items c ''enum'' = Inr after" "\<forall>v \<in> set mid. member v after"
      by (auto simp: enum_kept_def)
    with before(1) mid(2) member_trans show ?thesis unfolding enum_kept_def by blast
  qed
qed

lemma shape_kept_trans: "shape_kept a b \<Longrightarrow> shape_kept b c \<Longrightarrow> shape_kept a c"
  using enum_kept_trans [of a b c] by (simp add: shape_kept_def py_eq_def)

lemma property_kept_trans:
  assumes "property_kept a b bps areq breq name p" "properties_kept b c bps cps breq creq"
  shows "property_kept a c cps areq creq name p"
proof -
  from assms(1) obtain q was now where q: "map_of bps name = Some q" "shape_of a p = Inr was"
    "shape_of b q = Inr now" "member (JStr name) areq \<longrightarrow> member (JStr name) breq" "shape_kept was now"
    unfolding property_kept_def by blast
  from q(1) have "(name, q) \<in> set bps" by (rule map_of_SomeD)
  with assms(2) have "property_kept b c cps breq creq name q" by (auto simp: properties_kept_def)
  then obtain r now' where r: "map_of cps name = Some r" "shape_of c r = Inr now'"
    "member (JStr name) breq \<longrightarrow> member (JStr name) creq" "shape_kept now now'"
    using q(3) unfolding property_kept_def by (metis Inr_inject)
  with q shape_kept_trans show ?thesis unfolding property_kept_def by blast
qed

lemma breaking_changes_trans:
  assumes "breaking_changes a b = Inr []" "breaking_changes b c = Inr []"
  shows "breaking_changes a c = Inr []"
proof -
  obtain aps bps areq breq where ab: "get_object a ''properties'' = Inr aps" "get_object b ''properties'' = Inr bps"
    "get_items a ''required'' = Inr areq" "get_items b ''required'' = Inr breq" "properties_kept a b aps bps areq breq"
    using assms(1) by (rule breaking_changes_nilE)
  obtain bps' cps breq' creq where bc: "get_object b ''properties'' = Inr bps'" "get_object c ''properties'' = Inr cps"
    "get_items b ''required'' = Inr breq'" "get_items c ''required'' = Inr creq" "properties_kept b c bps' cps breq' creq"
    using assms(2) by (rule breaking_changes_nilE)
  have "bps' = bps" "breq' = breq" using ab(2,4) bc(1,3) by simp_all
  with ab(5) bc(5) have "properties_kept a c aps cps areq creq"
    using property_kept_trans unfolding properties_kept_def [of a] by blast
  with ab(1,3) bc(2,4) show ?thesis by (simp add: breaking_changes_nil)
qed

lemma property_kept_parts:
  assumes "property_kept a c cps areq creq name p"
  obtains q was now where "map_of cps name = Some q" "shape_of a p = Inr was" "shape_of c q = Inr now"
    "\<forall>key \<in> {''type'', ''format'', ''const'', ''items''}. py_eq (dict_get was key) (dict_get now key)"
    "\<forall>vs v. get_items was ''enum'' = Inr vs \<longrightarrow> v \<in> set vs \<longrightarrow> (\<exists>ws. get_items now ''enum'' = Inr ws \<and> member v ws)"
proof -
  from assms obtain q was now where q: "map_of cps name = Some q" "shape_of a p = Inr was" "shape_of c q = Inr now"
    and kept: "shape_kept was now"
    unfolding property_kept_def by blast
  have "\<forall>key \<in> {''type'', ''format'', ''const'', ''items''}. py_eq (dict_get was key) (dict_get now key)"
    using kept by (auto simp: shape_kept_def SHAPE_KEYS_def)
  moreover have "\<forall>vs v. get_items was ''enum'' = Inr vs \<longrightarrow> v \<in> set vs \<longrightarrow>
      (\<exists>ws. get_items now ''enum'' = Inr ws \<and> member v ws)"
    using kept by (auto simp: shape_kept_def enum_kept_def)
  ultimately show thesis using that q by blast
qed

text \<open>
  The gate compares neighbours, the stream holds messages of every version: if no release broke
  the one before it, none broke any earlier one. Nothing reported between \<open>a\<close> and \<open>b\<close> and
  between \<open>b\<close> and \<open>c\<close> means nothing reported between \<open>a\<close> and \<open>c\<close>; and then every property of
  \<open>a\<close> is in \<open>c\<close> with the same type, format, const and items, and with every value of its enum.
\<close>

theorem compatible_releases_compose:
  assumes "breaking_changes a b = Inr []" and "breaking_changes b c = Inr []"
  shows "breaking_changes a c = Inr []
    \<and> (\<exists>aps cps. get_object a ''properties'' = Inr aps \<and> get_object c ''properties'' = Inr cps
         \<and> (\<forall>(name, p) \<in> set aps. \<exists>q was now. map_of cps name = Some q
              \<and> shape_of a p = Inr was \<and> shape_of c q = Inr now
              \<and> (\<forall>key \<in> {''type'', ''format'', ''const'', ''items''}. py_eq (dict_get was key) (dict_get now key))
              \<and> (\<forall>vs v. get_items was ''enum'' = Inr vs \<longrightarrow> v \<in> set vs \<longrightarrow>
                   (\<exists>ws. get_items now ''enum'' = Inr ws \<and> member v ws))))"
proof -
  have ac: "breaking_changes a c = Inr []" using assms by (rule breaking_changes_trans)
  then obtain aps cps areq creq where p: "get_object a ''properties'' = Inr aps" "get_object c ''properties'' = Inr cps"
    and kept: "properties_kept a c aps cps areq creq"
    by (rule breaking_changes_nilE)
  have "\<exists>q was now. map_of cps name = Some q \<and> shape_of a p = Inr was \<and> shape_of c q = Inr now
      \<and> (\<forall>key \<in> {''type'', ''format'', ''const'', ''items''}. py_eq (dict_get was key) (dict_get now key))
      \<and> (\<forall>vs v. get_items was ''enum'' = Inr vs \<longrightarrow> v \<in> set vs \<longrightarrow>
           (\<exists>ws. get_items now ''enum'' = Inr ws \<and> member v ws))" if "(name, p) \<in> set aps" for name p
  proof -
    have "property_kept a c cps areq creq name p" using kept that by (auto simp: properties_kept_def)
    then show ?thesis by (rule property_kept_parts) (intro exI conjI)
  qed
  with ac p show ?thesis by (intro conjI exI [of _ aps] exI [of _ cps]) auto
qed

definition sample_schema :: "json list \<Rightarrow> schema" where
  "sample_schema values =
     [(''properties'', JObj [(''type'', JObj [(''type'', JStr ''string''), (''enum'', JArr values)])]),
      (''required'', JArr [JStr ''type''])]"

theorem compatible_releases_compose_witness:
  "breaking_changes (sample_schema [JStr ''a'']) (sample_schema [JStr ''c'', JStr ''b'', JStr ''a'']) = Inr []
   \<and> breaking_changes (sample_schema [JStr ''b'', JStr ''a'']) (sample_schema [JStr ''a''])
       = Inr [''property '' @ quoted ''type'' @ '': enum values removed: ['' @ quoted ''b'' @ '']'']"
proof -
  have "breaking_changes (sample_schema [JStr ''a'']) (sample_schema [JStr ''b'', JStr ''a'']) = Inr []"
    "breaking_changes (sample_schema [JStr ''b'', JStr ''a'']) (sample_schema [JStr ''c'', JStr ''b'', JStr ''a'']) = Inr []"
    by code_simp+
  from compatible_releases_compose [OF this]
  have "breaking_changes (sample_schema [JStr ''a'']) (sample_schema [JStr ''c'', JStr ''b'', JStr ''a'']) = Inr []"
    by blast
  moreover have "breaking_changes (sample_schema [JStr ''b'', JStr ''a'']) (sample_schema [JStr ''a''])
       = Inr [''property '' @ quoted ''type'' @ '': enum values removed: ['' @ quoted ''b'' @ '']'']"
    by code_simp
  ultimately show ?thesis by blast
qed

section \<open>What the gate does not see\<close>

text \<open>
  The type of an optional property is under \<open>anyOf\<close>, which is not among the \<open>SHAPE_KEYS\<close>: its change
  is not reported.
\<close>

definition optional_schema :: "string \<Rightarrow> schema" where
  "optional_schema ty =
     [(''properties'', JObj [(''note'', JObj [(''anyOf'',
         JArr [JObj [(''type'', JStr ty)], JObj [(''type'', JStr ''null'')]])])])]"

lemma any_of_change_unseen:
  "breaking_changes (optional_schema ''string'') (optional_schema ''integer'') = Inr []"
  by code_simp

end
