(* ===== verification/Tools_Risks.thy ===== *)
theory Tools_Risks
  imports Pyiso "HOL-Library.List_Lexorder" "HOL-Library.Char_ord"
begin

text \<open>
  \<open>tools/accepted_risks.py\<close>: the list of accepted risks and the limits of ADR-0018. A document is what
  \<open>tomllib\<close> returns; reading the file and \<open>tomllib\<close> itself are parameters. A date is its proleptic
  ordinal, so that subtraction counts days.
\<close>

datatype toml =
  TStr string | TBool bool | TInt int | TFloat string | TDate int | TDateTime datetime | TTime string
  | TArr "toml list" | TTable "(string \<times> toml) list"

definition date_text :: "int \<Rightarrow> string" where
  "date_text d =
     (case ord2ymd d of (y, m, dd) \<Rightarrow> fixed_digits 10 4 (nat y) @ ''-'' @ two (nat m) @ ''-'' @ two (nat dd))"

definition MAX_DAYS :: int where
  "MAX_DAYS = 90"

definition MAX_DAYS_WITHOUT_FIX :: int where
  "MAX_DAYS_WITHOUT_FIX = 30"

definition MIN_REASON_CHARS :: nat where
  "MIN_REASON_CHARS = 60"

definition TEXT_FIELDS :: "string list" where
  "TEXT_FIELDS = [''id'', ''package'', ''reason'', ''owner'', ''link'']"

definition DATE_FIELDS :: "string list" where
  "DATE_FIELDS = [''added'', ''until'']"

definition KNOWN_FIELDS :: "string list" where
  "KNOWN_FIELDS = TEXT_FIELDS @ DATE_FIELDS @ [''no_fix'']"

record accepted_risk =
  ar_id :: string
  ar_package :: string
  ar_reason :: string
  ar_owner :: string
  ar_added :: int
  ar_until :: int
  ar_link :: string
  ar_no_fix :: bool

definition covers :: "accepted_risk \<Rightarrow> string \<Rightarrow> string set \<Rightarrow> bool" where
  "covers risk package identifiers \<longleftrightarrow> ar_package risk = package \<and> ar_id risk \<in> identifiers"

text \<open>A TOML time stamp is a \<open>datetime\<close>, which is a \<open>date\<close> too; only a plain date counts.\<close>

definition is_plain_date :: "toml option \<Rightarrow> bool" where
  "is_plain_date value = (case value of Some (TDate d) \<Rightarrow> True | _ \<Rightarrow> False)"

definition apostrophes :: "string \<Rightarrow> string" where
  "apostrophes s = CHR 0x27 # s @ [CHR 0x27]"

definition is_text :: "toml option \<Rightarrow> bool" where
  "is_text value = (case value of Some (TStr s) \<Rightarrow> strip py_space s \<noteq> [] | _ \<Rightarrow> False)"

definition is_flag :: "toml option \<Rightarrow> bool" where
  "is_flag value = (case value of None \<Rightarrow> True | Some (TBool b) \<Rightarrow> True | _ \<Rightarrow> False)"

type_synonym table = "(string \<times> toml) list"

definition field_problems :: "table \<Rightarrow> string list" where
  "field_problems raw =
     map (\<lambda>name. ''unknown field '' @ apostrophes name)
       (sort (remdups (filter (\<lambda>name. name \<notin> set KNOWN_FIELDS) (map fst raw))))
     @ map (\<lambda>name. ''field '' @ apostrophes name @ '' must be a non-empty string'')
       (filter (\<lambda>name. \<not> is_text (map_of raw name)) TEXT_FIELDS)
     @ map (\<lambda>name. ''field '' @ apostrophes name @ '' must be a date, for example 2026-12-31'')
       (filter (\<lambda>name. \<not> is_plain_date (map_of raw name)) DATE_FIELDS)
     @ (if is_flag (map_of raw ''no_fix'') then []
        else [''field '' @ apostrophes ''no_fix'' @ '' must be true or false''])"

definition risk_limit :: "accepted_risk \<Rightarrow> int" where
  "risk_limit risk = (if ar_no_fix risk then MAX_DAYS_WITHOUT_FIX else MAX_DAYS)"

definition content_problems :: "accepted_risk \<Rightarrow> int \<Rightarrow> string list" where
  "content_problems risk today =
     (let reason = strip py_space (ar_reason risk);
          about_text =
            (if length reason < MIN_REASON_CHARS
             then [''reason is '' @ show_nat (length reason) @ '' characters, at least ''
                   @ show_nat MIN_REASON_CHARS @ '' are required: say what the risk is and what limits it'']
             else [])
            @ (if startswith (ar_link risk) ''https://'' then []
               else [''link '' @ apostrophes (ar_link risk) @ '' must be an https:// address of the advisory'']);
          days = ar_until risk - ar_added risk
      in if ar_until risk \<le> ar_added risk
         then about_text @ [''until '' @ date_text (ar_until risk) @ '' is not after added '' @ date_text (ar_added risk)]
         else about_text
            @ (if days > risk_limit risk
               then [''accepted for '' @ show_int days @ '' days, the limit is '' @ show_int (risk_limit risk)
                     @ (if ar_no_fix risk then '' because no fix exists yet'' else [])]
               else [])
            @ (if ar_until risk < today
               then [''expired on '' @ date_text (ar_until risk) @ '': fix it, or renew the decision with a new reason'']
               else []))"

text \<open>The value of a field that \<open>field_problems\<close> has checked.\<close>

definition text_of :: "table \<Rightarrow> string \<Rightarrow> string" where
  "text_of raw name = (case map_of raw name of Some (TStr s) \<Rightarrow> s | _ \<Rightarrow> [])"

definition date_of :: "table \<Rightarrow> string \<Rightarrow> int" where
  "date_of raw name = (case map_of raw name of Some (TDate d) \<Rightarrow> d | _ \<Rightarrow> 0)"

definition risk_of :: "table \<Rightarrow> accepted_risk" where
  "risk_of raw =
     \<lparr>ar_id = text_of raw ''id'', ar_package = text_of raw ''package'', ar_reason = text_of raw ''reason'',
      ar_owner = text_of raw ''owner'', ar_added = date_of raw ''added'', ar_until = date_of raw ''until'',
      ar_link = text_of raw ''link'',
      ar_no_fix = (case map_of raw ''no_fix'' of Some (TBool b) \<Rightarrow> b | _ \<Rightarrow> False)\<rparr>"

text \<open>\<open>show\<close> is \<open>str\<close> of a value that is not a string, in the label of a broken entry.\<close>

definition entry_name :: "(toml \<Rightarrow> string) \<Rightarrow> int \<Rightarrow> table \<Rightarrow> string" where
  "entry_name shown position raw =
     ''entry '' @ show_int position @ '' (''
     @ (case map_of raw ''id'' of None \<Rightarrow> ''no id'' | Some (TStr s) \<Rightarrow> s | Some v \<Rightarrow> shown v) @ '' in ''
     @ (case map_of raw ''package'' of None \<Rightarrow> ''no package'' | Some (TStr s) \<Rightarrow> s | Some v \<Rightarrow> shown v) @ '')''"

definition labelled :: "string \<Rightarrow> string list \<Rightarrow> string list" where
  "labelled name problems = map (\<lambda>p. name @ '': '' @ p) problems"

fun parse_entries ::
  "(toml \<Rightarrow> string) \<Rightarrow> int \<Rightarrow> int \<Rightarrow> (string \<times> string) list \<Rightarrow> toml list \<Rightarrow> accepted_risk list \<times> string list" where
  "parse_entries shown today position seen [] = ([], [])"
| "parse_entries shown today position seen (entry # entries) =
     (case entry of
        TTable raw \<Rightarrow>
          (let name = entry_name shown position raw; broken = field_problems raw; risk = risk_of raw in
           if broken \<noteq> [] then
             (case parse_entries shown today (position + 1) seen entries of
                (risks, problems) \<Rightarrow> (risks, labelled name broken @ problems))
           else if (ar_id risk, ar_package risk) \<in> set seen then
             (case parse_entries shown today (position + 1) seen entries of
                (risks, problems) \<Rightarrow> (risks, (name @ '': the same advisory is accepted twice'') # problems))
           else
             (case parse_entries shown today (position + 1) ((ar_id risk, ar_package risk) # seen) entries of
                (risks, problems) \<Rightarrow> (risk # risks, labelled name (content_problems risk today) @ problems)))
      | _ \<Rightarrow>
          (case parse_entries shown today (position + 1) seen entries of
             (risks, problems) \<Rightarrow>
               (risks, (''entry '' @ show_int position @ '': must be an [[accepted]] table'') # problems)))"

definition parse_risks :: "(toml \<Rightarrow> string) \<Rightarrow> table \<Rightarrow> int \<Rightarrow> accepted_risk list \<times> string list" where
  "parse_risks shown document today =
     (case map_of document ''accepted'' of
        None \<Rightarrow> ([], [])
      | Some (TArr entries) \<Rightarrow> parse_entries shown today 1 [] entries
      | Some _ \<Rightarrow> ([], [apostrophes ''accepted'' @ '' must be a list of [[accepted]] tables'']))"

text \<open>
  \<open>load\<close> and \<open>main\<close>: \<open>document\<close> is the parsed file, or \<open>None\<close> when it does not exist. The result
  of \<open>main\<close> is the exit code and the printed lines.
\<close>

definition load_risks :: "(toml \<Rightarrow> string) \<Rightarrow> string \<Rightarrow> table option \<Rightarrow> int \<Rightarrow> accepted_risk list \<times> string list" where
  "load_risks shown path document today =
     (case document of
        None \<Rightarrow> ([], [path @ '' is missing: the list of accepted risks is part of the policy''])
      | Some d \<Rightarrow> parse_risks shown d today)"

definition risks_main ::
  "(toml \<Rightarrow> string) \<Rightarrow> string \<Rightarrow> string list \<Rightarrow> (string \<Rightarrow> table option) \<Rightarrow> int \<Rightarrow> int \<times> string list" where
  "risks_main shown default_path argv files today =
     (if length argv > 1 then (2, [''usage: accepted_risks.py [FILE]''])
      else
        (let path = (case argv of [] \<Rightarrow> default_path | p # _ \<Rightarrow> p);
             (risks, problems) = load_risks shown path (files path) today
         in if problems \<noteq> []
            then (1, [''--- accepted risks: '' @ path @ '' is not a valid decision'']
                     @ map (\<lambda>p. ''    '' @ p) problems
                     @ [''    an expired acceptance is not an ignore, it is a hole nobody renewed''])
            else (0, [''--- accepted risks: '' @ show_nat (length risks) @ '' entries, all valid, none expired''])))"

section \<open>What a valid list says\<close>

definition sound_risk :: "int \<Rightarrow> accepted_risk \<Rightarrow> bool" where
  "sound_risk today risk \<longleftrightarrow>
     MIN_REASON_CHARS \<le> length (strip py_space (ar_reason risk)) \<and> startswith (ar_link risk) ''https://''
     \<and> strip py_space (ar_owner risk) \<noteq> [] \<and> strip py_space (ar_id risk) \<noteq> [] \<and> strip py_space (ar_package risk) \<noteq> []
     \<and> ar_added risk < ar_until risk \<and> ar_until risk - ar_added risk \<le> risk_limit risk \<and> today \<le> ar_until risk"

lemma content_problems_nil:
  "content_problems risk today = [] \<longleftrightarrow>
     MIN_REASON_CHARS \<le> length (strip py_space (ar_reason risk)) \<and> startswith (ar_link risk) ''https://''
     \<and> ar_added risk < ar_until risk \<and> ar_until risk - ar_added risk \<le> risk_limit risk \<and> today \<le> ar_until risk"
  by (auto simp: content_problems_def Let_def)

lemma is_text_strip: "is_text (map_of raw f) \<Longrightarrow> strip py_space (text_of raw f) \<noteq> []"
  by (auto simp: is_text_def text_of_def split: option.splits toml.splits)

lemma field_problems_nil:
  "field_problems raw = [] \<longleftrightarrow>
     fst ` set raw \<subseteq> set KNOWN_FIELDS \<and> (\<forall>f \<in> set TEXT_FIELDS. is_text (map_of raw f))
     \<and> (\<forall>f \<in> set DATE_FIELDS. is_plain_date (map_of raw f)) \<and> is_flag (map_of raw ''no_fix'')"
proof -
  have "sort (remdups xs) = [] \<longleftrightarrow> xs = []" for xs :: "string list"
    by (metis remdups_eq_nil_iff set_empty2 set_sort)
  then show ?thesis by (auto simp: field_problems_def filter_empty_conv)
qed

lemma checked_risk:
  assumes "field_problems raw = []" "content_problems (risk_of raw) today = []"
  shows "sound_risk today (risk_of raw)"
  using assms is_text_strip
  by (auto simp: sound_risk_def content_problems_nil field_problems_nil TEXT_FIELDS_def risk_of_def)

definition risk_key :: "accepted_risk \<Rightarrow> string \<times> string" where
  "risk_key r = (ar_id r, ar_package r)"

lemma labelled_nil [simp]: "labelled name ps = [] \<longleftrightarrow> ps = []"
  by (simp add: labelled_def)

lemma parse_entries_nil:
  assumes "parse_entries shown today position seen (entry # entries) = (risks, [])"
  obtains raw rest where "entry = TTable raw" "field_problems raw = []" "risk_key (risk_of raw) \<notin> set seen"
    "content_problems (risk_of raw) today = []" "risks = risk_of raw # rest"
    "parse_entries shown today (position + 1) (risk_key (risk_of raw) # seen) entries = (rest, [])"
proof (cases entry)
  case (TTable raw)
  have fields: "field_problems raw = []"
    using assms TTable by (cases "field_problems raw") (auto simp: Let_def split: prod.splits)
  have new: "risk_key (risk_of raw) \<notin> set seen"
    using assms TTable fields by (auto simp: Let_def risk_key_def split: prod.splits)
  obtain rest problems where rest:
    "parse_entries shown today (position + 1) (risk_key (risk_of raw) # seen) entries = (rest, problems)"
    by fastforce
  with assms TTable fields new have "risks = risk_of raw # rest" "content_problems (risk_of raw) today = []" "problems = []"
    by (auto simp: Let_def risk_key_def)
  with that [OF TTable fields new] rest show thesis by simp
qed (use assms in \<open>simp_all split: prod.splits\<close>)

lemma parse_entries_sound:
  "parse_entries shown today position seen entries = (risks, []) \<Longrightarrow>
     (\<forall>r \<in> set risks. sound_risk today r) \<and> distinct (map risk_key risks)
     \<and> set (map risk_key risks) \<inter> set seen = {} \<and> length risks = length entries"
proof (induction entries arbitrary: position seen risks)
  case (Cons entry entries)
  from Cons.prems obtain raw rest where raw: "field_problems raw = []" "risk_key (risk_of raw) \<notin> set seen"
    "content_problems (risk_of raw) today = []" "risks = risk_of raw # rest"
    "parse_entries shown today (position + 1) (risk_key (risk_of raw) # seen) entries = (rest, [])"
    by (rule parse_entries_nil)
  from Cons.IH [OF raw(5)] checked_risk [OF raw(1,3)] raw(2,4) show ?case by auto
qed simp

section \<open>The bound on an acceptance\<close>

text \<open>
  C37. A list the gate passes holds one entry per advisory and package, none is lost, and each is
  sound: an owner, a reason of 60 characters, an https link, not expired. It silences its finding for
  at most 90 days more (30 without a fix) when it was added by today; in general only for that long
  after \<open>added\<close>, which nothing compares with today.
\<close>

theorem accepted_risks_bounded:
  assumes "parse_risks shown document today = (risks, [])" and "risk \<in> set risks"
  shows "distinct (map risk_key risks)
    \<and> (\<exists>entries. map_of document ''accepted'' = Some (TArr entries) \<and> length risks = length entries)
    \<and> sound_risk today risk
    \<and> 0 \<le> ar_until risk - today
    \<and> ar_until risk - today \<le> risk_limit risk + (ar_added risk - today)
    \<and> (ar_added risk \<le> today \<longrightarrow> ar_until risk - today \<le> (if ar_no_fix risk then 30 else 90))"
proof -
  obtain entries where e: "map_of document ''accepted'' = Some (TArr entries)"
    "parse_entries shown today 1 [] entries = (risks, [])"
    using assms by (auto simp: parse_risks_def split: option.splits toml.splits)
  from parse_entries_sound [OF e(2)] assms(2) have "sound_risk today risk" "distinct (map risk_key risks)"
    "length risks = length entries" by auto
  with e(1) show ?thesis
    by (auto simp: sound_risk_def risk_limit_def MAX_DAYS_def MAX_DAYS_WITHOUT_FIX_def)
qed

definition sample_table :: "int \<Rightarrow> int \<Rightarrow> table" where
  "sample_table added until =
     [(''id'', TStr ''GHSA-1''), (''package'', TStr ''left-pad''), (''owner'', TStr ''anna''),
      (''reason'', TStr (replicate 60 CHR ''x'')), (''link'', TStr ''https://osv.dev/GHSA-1''),
      (''added'', TDate added), (''until'', TDate until)]"

definition sample_document :: "int \<Rightarrow> int \<Rightarrow> table" where
  "sample_document added until = [(''accepted'', TArr [TTable (sample_table added until)])]"

lemma sample_sixty: "strip py_space (replicate 60 CHR ''x'') = replicate 60 CHR ''x''"
  by (rule strip_id) (auto simp: py_space_def)

lemma sample_parsed:
  assumes "today \<le> until" "added < until" "until - added \<le> 90"
  shows "parse_risks shown (sample_document added until) today = ([risk_of (sample_table added until)], [])"
proof -
  have "field_problems (sample_table added until) = []"
    by (simp add: field_problems_nil sample_table_def KNOWN_FIELDS_def TEXT_FIELDS_def DATE_FIELDS_def is_text_def
        is_plain_date_def is_flag_def sample_sixty strip_def py_space_def)
  moreover have "content_problems (risk_of (sample_table added until)) today = []"
    using assms by (simp add: content_problems_nil risk_of_def sample_table_def text_of_def date_of_def sample_sixty
        MIN_REASON_CHARS_def startswith_def risk_limit_def MAX_DAYS_def)
  ultimately show ?thesis by (simp add: parse_risks_def sample_document_def Let_def)
qed

text \<open>The second half: an entry dated a year ahead is accepted for more than a year.\<close>

theorem accepted_risks_bounded_witness:
  "ar_until (risk_of (sample_table 100 190)) - 100 \<le> 90
   \<and> parse_risks (\<lambda>_. []) (sample_document 465 555) 100 = ([risk_of (sample_table 465 555)], [])
   \<and> ar_until (risk_of (sample_table 465 555)) - 100 = 455"
proof -
  have "parse_risks (\<lambda>_. []) (sample_document 100 190) 100 = ([risk_of (sample_table 100 190)], [])"
    by (rule sample_parsed) simp_all
  from accepted_risks_bounded [OF this]
  have "ar_added (risk_of (sample_table 100 190)) \<le> 100 \<longrightarrow> ar_until (risk_of (sample_table 100 190)) - 100
      \<le> (if ar_no_fix (risk_of (sample_table 100 190)) then 30 else 90)" by simp
  then have "ar_until (risk_of (sample_table 100 190)) - 100 \<le> 90"
    by (simp add: risk_of_def sample_table_def date_of_def)
  moreover have "parse_risks (\<lambda>_. []) (sample_document 465 555) 100 = ([risk_of (sample_table 465 555)], [])"
    by (rule sample_parsed) simp_all
  ultimately show ?thesis by (simp add: risk_of_def sample_table_def date_of_def)
qed

end
