(* ===== verification/Tools_Audit.thy ===== *)
theory Tools_Audit
  imports Tools_Risks Pyjson Http "HOL-Library.Product_Lexorder"
begin

text \<open>
  \<open>tools/dependency_audit.py\<close>: findings of \<open>uv audit\<close>, their severity from OSV, the policy of
  ADR-0018 and the exit code. \<open>uv\<close> and OSV are parameters. What is printed is a list of lines, what is
  written to the report file a JSON value.
\<close>

definition BLOCKING_SEVERITIES :: "string list" where
  "BLOCKING_SEVERITIES = [''CRITICAL'', ''HIGH'', ''UNKNOWN'']"

definition GRACE_DAYS :: int where
  "GRACE_DAYS = 30"

definition OSV_URL :: string where
  "OSV_URL = ''https://api.osv.dev/v1/vulns/''"

text \<open>A \<open>ValueError\<close> of this module carries its text, because \<open>main\<close> prints it.\<close>

datatype audit_error = AuditError string | AuditRaise py_error | AuditHTTPError

record finding =
  fd_project :: string
  fd_package :: string
  fd_version :: string
  fd_advisory :: string
  fd_aliases :: "string list"
  fd_summary :: string
  fd_fix_versions :: "string list"
  fd_published :: int
  fd_link :: string

definition identifiers :: "finding \<Rightarrow> string set" where
  "identifiers f = insert (fd_advisory f) (set (fd_aliases f))"

definition has_fix :: "finding \<Rightarrow> bool" where
  "has_fix f \<longleftrightarrow> fd_fix_versions f \<noteq> []"

datatype judgement_status = Blocks | Reported | Accepted

fun judgement_status_value :: "judgement_status \<Rightarrow> string" where
  "judgement_status_value Blocks = ''blocks''"
| "judgement_status_value Reported = ''reported''"
| "judgement_status_value Accepted = ''accepted''"

record judgement =
  jd_finding :: finding
  jd_severity :: string
  jd_status :: judgement_status
  jd_explanation :: string

section \<open>Reading the report\<close>

text \<open>\<open>date.fromisoformat\<close> for \<open>YYYY-MM-DD\<close>; the other formats it knows are the parameter \<open>other\<close>.\<close>

definition parse_date :: "(string \<Rightarrow> int option) \<Rightarrow> string \<Rightarrow> int option" where
  "parse_date other s =
     (if length s = 10 \<and> has_char 4 CHR ''-'' s \<and> has_char 7 CHR ''-'' s then
        (case (num_field 0 4 s, num_field 5 2 s, num_field 8 2 s) of
           (Some y, Some m, Some d) \<Rightarrow>
             if 1 \<le> y \<and> 1 \<le> m \<and> m \<le> 12 \<and> 1 \<le> d \<and> int d \<le> days_in_month (is_leap (int y)) (int m)
             then Some (ymd2ord (int y) (int m) (int d)) else None
         | _ \<Rightarrow> other s)
      else other s)"

definition published_date :: "(string \<Rightarrow> int option) \<Rightarrow> string \<Rightarrow> audit_error + int" where
  "published_date other value =
     (case parse_date other (take 10 value) of
        None \<Rightarrow> Inl (AuditError (''Invalid isoformat string: '' @ repr_str (take 10 value)))
      | Some d \<Rightarrow> Inr d)"

definition canonical_key :: "string \<Rightarrow> string list \<Rightarrow> string" where
  "canonical_key advisory aliases =
     (case sort (filter (\<lambda>name. startswith name ''CVE-'') (advisory # aliases)) of
        [] \<Rightarrow> advisory | c # cves \<Rightarrow> c)"

definition preferred :: "finding \<Rightarrow> finding \<Rightarrow> finding" where
  "preferred left right = (if startswith (fd_advisory right) ''GHSA-'' then right else left)"

text \<open>
  Access to the fields of a vulnerability. A field \<open>uv\<close> declares a string or a list of strings and
  that is not one raises \<open>TypeError\<close> here, where Python would carry it on.
\<close>

definition object_at :: "json \<Rightarrow> string \<Rightarrow> audit_error + json" where
  "object_at v key =
     (case v of
        JObj kvs \<Rightarrow> (case map_of kvs key of None \<Rightarrow> Inl (AuditRaise KeyError) | Some w \<Rightarrow> Inr w)
      | _ \<Rightarrow> Inl (AuditRaise TypeError))"

definition text_at :: "json \<Rightarrow> string \<Rightarrow> audit_error + string" where
  "text_at v key =
     try_bind (object_at v key) (\<lambda>w. case w of JStr s \<Rightarrow> Inr s | _ \<Rightarrow> Inl (AuditRaise TypeError))"

text \<open>\<open>raw.get(key)\<close>, and \<open>a or b\<close> on such values.\<close>

definition get_at :: "json \<Rightarrow> string \<Rightarrow> json" where
  "get_at v key = (case v of JObj kvs \<Rightarrow> dict_get kvs key | _ \<Rightarrow> JNull)"

definition texts_at :: "json \<Rightarrow> string \<Rightarrow> audit_error + string list" where
  "texts_at v key =
     (let w = get_at v key in
      if \<not> truthy w then Inr []
      else case w of
        JArr xs \<Rightarrow>
          if list_all (\<lambda>x. case x of JStr s \<Rightarrow> True | _ \<Rightarrow> False) xs then Inr (map py_str xs)
          else Inl (AuditRaise TypeError)
      | _ \<Rightarrow> Inl (AuditRaise TypeError))"

definition first_text :: "json \<Rightarrow> string list \<Rightarrow> string \<Rightarrow> string" where
  "first_text v keys otherwise =
     (case filter truthy (map (get_at v) keys) of [] \<Rightarrow> otherwise | w # ws \<Rightarrow> py_str w)"

definition raw_finding :: "(string \<Rightarrow> int option) \<Rightarrow> string \<Rightarrow> json \<Rightarrow> audit_error + finding" where
  "raw_finding other project raw =
     try_bind (object_at raw ''dependency'') (\<lambda>dependency.
     try_bind (texts_at raw ''aliases'') (\<lambda>aliases.
     try_bind (text_at dependency ''name'') (\<lambda>package.
     try_bind (text_at dependency ''version'') (\<lambda>version.
     try_bind (text_at raw ''id'') (\<lambda>advisory.
     try_bind (texts_at raw ''fix_versions'') (\<lambda>fix_versions.
     try_bind (text_at raw ''published'') (\<lambda>stamp.
     try_bind (published_date other stamp) (\<lambda>published.
       Inr \<lparr>fd_project = project, fd_package = package, fd_version = version, fd_advisory = advisory,
            fd_aliases = aliases, fd_summary = first_text raw [''summary'', ''description''] [],
            fd_fix_versions = fix_versions, fd_published = published,
            fd_link = first_text raw [''link''] (OSV_URL @ advisory)\<rparr>))))))))"

fun collect_results :: "('a \<Rightarrow> 'e + 'b) \<Rightarrow> 'a list \<Rightarrow> 'e + 'b list" where
  "collect_results f [] = Inr []"
| "collect_results f (x # xs) = try_bind (f x) (\<lambda>y. try_bind (collect_results f xs) (\<lambda>ys. Inr (y # ys)))"

definition finding_key :: "finding \<Rightarrow> string \<times> string \<times> string" where
  "finding_key f = (fd_package f, fd_version f, canonical_key (fd_advisory f) (fd_aliases f))"

definition keep_best ::
  "finding \<Rightarrow> ((string \<times> string \<times> string) \<times> finding) list \<Rightarrow> ((string \<times> string \<times> string) \<times> finding) list" where
  "keep_best f best =
     dict_put (finding_key f)
       (case map_of best (finding_key f) of None \<Rightarrow> f | Some known \<Rightarrow> preferred known f) best"

definition finding_order :: "finding \<Rightarrow> string \<times> string" where
  "finding_order f = (fd_package f, fd_advisory f)"

text \<open>\<open>key in report\<close>.\<close>

definition contains_key :: "json \<Rightarrow> string \<Rightarrow> py_error + bool" where
  "contains_key v key =
     (case v of
        JObj kvs \<Rightarrow> Inr (map_of kvs key \<noteq> None)
      | JArr xs \<Rightarrow> Inr (JStr key \<in> set xs)
      | JStr s \<Rightarrow> Inr (list_ex (\<lambda>i. startswith (drop i s) key) [0..<Suc (length s)])
      | _ \<Rightarrow> Inl TypeError)"

definition findings_of :: "(string \<Rightarrow> int option) \<Rightarrow> string \<Rightarrow> json \<Rightarrow> audit_error + finding list" where
  "findings_of other project report =
     (case (contains_key report ''vulnerabilities'', contains_key report ''summary'') of
        (Inr True, Inr True) \<Rightarrow>
          (case object_at report ''vulnerabilities'' of
             Inl e \<Rightarrow> Inl e
           | Inr (JArr raws) \<Rightarrow>
               try_bind (collect_results (raw_finding other project) raws) (\<lambda>records.
                 Inr (sort_key finding_order (map snd (fold keep_best records []))))
           | Inr _ \<Rightarrow> Inl (AuditRaise TypeError))
      | (Inr _, Inr _) \<Rightarrow>
          Inl (AuditError (project @ '': the output of '' @ apostrophes ''uv audit'' @ '' has no ''
            @ apostrophes ''vulnerabilities''
            @ '' - the command is in preview and its format has probably changed''))
      | _ \<Rightarrow> Inl (AuditRaise TypeError))"

section \<open>The two outside sources\<close>

text \<open>\<open>uv\<close> gives the exit code, the output and the error output.\<close>

type_synonym uv_tool = "string \<Rightarrow> int \<times> string \<times> string"

definition audit_project :: "(string \<Rightarrow> json option) \<Rightarrow> uv_tool \<Rightarrow> string \<Rightarrow> audit_error + json" where
  "audit_project loads uv project =
     (case uv project of (returncode, stdout, stderr) \<Rightarrow>
        if returncode \<noteq> 0 \<and> returncode \<noteq> 1
        then Inl (AuditError (project @ '': '' @ apostrophes ''uv audit'' @ '' failed ('' @ show_int returncode @ ''): '' @ stderr))
        else case loads stdout of
          None \<Rightarrow> Inl (AuditError (project @ '': '' @ apostrophes ''uv audit'' @ '' printed no JSON: '' @ take 200 stdout))
        | Some document \<Rightarrow> Inr document)"

text \<open>\<open>str.upper\<close> on the code points of the alphabet.\<close>

definition upper_char :: "char \<Rightarrow> char" where
  "upper_char c = (let n = of_char c :: nat in if 97 \<le> n \<and> n \<le> 122 then char_of (n - 32) else c)"

definition osv_severity :: "'w transport \<Rightarrow> string \<Rightarrow> 'w \<Rightarrow> 'w \<times> (audit_error + string)" where
  "osv_severity http advisory w =
     (let (w', reply) = http \<lparr>rq_method = ''GET'', rq_path = OSV_URL @ advisory, rq_headers = [], rq_json = None\<rparr> w
      in (w', case reply of
           HTTPError \<Rightarrow> Inl AuditHTTPError
         | Reply status body \<Rightarrow>
             if status \<noteq> 200 then Inr ''UNKNOWN''
             else (case body of
                     None \<Rightarrow> Inl (AuditError ''no JSON'')
                   | Some (JObj kvs) \<Rightarrow>
                       (let specific = dict_get kvs ''database_specific'' in
                        if \<not> truthy specific then Inr ''UNKNOWN''
                        else case specific of
                          JObj items \<Rightarrow>
                            (case dict_get items ''severity'' of
                               JStr s \<Rightarrow> Inr (map upper_char s)
                             | _ \<Rightarrow> Inr ''UNKNOWN'')
                        | _ \<Rightarrow> Inl (AuditRaise AttributeError))
                   | Some _ \<Rightarrow> Inl (AuditRaise AttributeError))))"

section \<open>The policy\<close>

definition judge :: "finding \<Rightarrow> string \<Rightarrow> accepted_risk list \<Rightarrow> int \<Rightarrow> judgement" where
  "judge f severity risks today =
     (case filter (\<lambda>risk. covers risk (fd_package f) (identifiers f)) risks of
        risk # others \<Rightarrow>
          \<lparr>jd_finding = f, jd_severity = severity, jd_status = Accepted,
           jd_explanation = ''accepted by '' @ ar_owner risk @ '' until '' @ date_text (ar_until risk) @ '': '' @ ar_reason risk\<rparr>
      | [] \<Rightarrow>
          if severity \<in> set BLOCKING_SEVERITIES
          then \<lparr>jd_finding = f, jd_severity = severity, jd_status = Blocks,
                jd_explanation = ''severity blocks the change at once''\<rparr>
          else
            (let age = today - fd_published f in
             if age > GRACE_DAYS
             then \<lparr>jd_finding = f, jd_severity = severity, jd_status = Blocks,
                   jd_explanation = ''published '' @ show_int age @ '' days ago, the deadline was '' @ show_int GRACE_DAYS @ '' days''\<rparr>
             else \<lparr>jd_finding = f, jd_severity = severity, jd_status = Reported,
                   jd_explanation = show_int (GRACE_DAYS - age) @ '' days left to fix it''\<rparr>))"

definition unused_acceptances :: "accepted_risk list \<Rightarrow> finding list \<Rightarrow> accepted_risk list" where
  "unused_acceptances risks findings =
     filter (\<lambda>risk. \<not> list_ex (\<lambda>f. covers risk (fd_package f) (identifiers f)) findings) risks"

definition describe_judgement :: "judgement \<Rightarrow> string" where
  "describe_judgement j =
     (let f = jd_finding j; fix_text = (if has_fix f then join '', '' (fd_fix_versions f) else ''none yet'') in
      fd_project f @ '': '' @ fd_package f @ '' '' @ fd_version f @ '' - '' @ jd_severity j @ '' '' @ fd_advisory f
      @ '' ('' @ jd_explanation j @ '')'' @ [CHR 0x0A] @ ''        fix: '' @ fix_text @ '' | ''
      @ take 120 (fd_summary f) @ '' | '' @ fd_link f)"

definition report_document :: "judgement list \<Rightarrow> accepted_risk list \<Rightarrow> json" where
  "report_document judgements stale =
     JObj [(''findings'', JArr (map (\<lambda>j. let f = jd_finding j in
              JObj [(''project'', JStr (fd_project f)), (''package'', JStr (fd_package f)),
                    (''version'', JStr (fd_version f)), (''advisory'', JStr (fd_advisory f)),
                    (''aliases'', JArr (map JStr (fd_aliases f))), (''severity'', JStr (jd_severity j)),
                    (''status'', JStr (judgement_status_value (jd_status j))),
                    (''explanation'', JStr (jd_explanation j)),
                    (''fix_versions'', JArr (map JStr (fd_fix_versions f))),
                    (''published'', JStr (date_text (fd_published f))), (''link'', JStr (fd_link f))]) judgements)),
           (''stale_acceptances'', JArr (map (JStr \<circ> ar_id) stale))]"

section \<open>The run\<close>

text \<open>\<open>Path(p).name\<close>.\<close>

definition path_name :: "string \<Rightarrow> string" where
  "path_name p =
     (case filter (\<lambda>part. part \<noteq> [] \<and> part \<noteq> ''.'') (split_on CHR ''/'' p) of [] \<Rightarrow> [] | ps \<Rightarrow> last ps)"

definition collect ::
  "(string \<Rightarrow> json option) \<Rightarrow> (string \<Rightarrow> int option) \<Rightarrow> uv_tool \<Rightarrow> string list \<Rightarrow> audit_error + finding list" where
  "collect loads other uv projects =
     try_bind (collect_results (\<lambda>p. try_bind (audit_project loads uv p) (findings_of other (path_name p))) projects)
       (\<lambda>fss. Inr (concat fss))"

fun judge_all ::
  "(string \<Rightarrow> 'w \<Rightarrow> 'w \<times> (audit_error + string)) \<Rightarrow> accepted_risk list \<Rightarrow> int \<Rightarrow> finding list \<Rightarrow> 'w
   \<Rightarrow> 'w \<times> (audit_error + judgement list)" where
  "judge_all lookup risks today [] w = (w, Inr [])"
| "judge_all lookup risks today (f # fs) w =
     (case lookup (fd_advisory f) w of
        (w1, Inl e) \<Rightarrow> (w1, Inl e)
      | (w1, Inr severity) \<Rightarrow>
          (case judge_all lookup risks today fs w1 of
             (w2, Inl e) \<Rightarrow> (w2, Inl e)
           | (w2, Inr js) \<Rightarrow> (w2, Inr (judge f severity risks today # js))))"

definition report_lines :: "judgement list \<Rightarrow> string list" where
  "report_lines judgements =
     concat (map (\<lambda>(status, title).
        (case filter (\<lambda>j. jd_status j = status) judgements of
           [] \<Rightarrow> []
         | selected \<Rightarrow> (''--- dependency audit: '' @ title) # map (\<lambda>j. ''    '' @ describe_judgement j) selected))
       [(Blocks, ''must be fixed before this change is merged''), (Reported, ''known, inside the deadline''),
        (Accepted, ''accepted risk, see security/accepted-risks.toml'')])"

definition stale_line :: "accepted_risk \<Rightarrow> string" where
  "stale_line risk =
     ''--- dependency audit: '' @ ar_id risk @ '' in '' @ ar_package risk
     @ '' is accepted but no longer reported - delete the entry instead of leaving it as decoration''"

text \<open>The result: the exit code, the lines printed and the report written, if any.\<close>

type_synonym audit_result = "int \<times> string list \<times> json option"

definition audit_run ::
  "(accepted_risk list \<times> string list) \<Rightarrow> (string list \<Rightarrow> audit_error + finding list)
   \<Rightarrow> (string \<Rightarrow> 'w \<Rightarrow> 'w \<times> (audit_error + string)) \<Rightarrow> int \<Rightarrow> string list \<Rightarrow> 'w \<Rightarrow> 'w \<times> (audit_error + audit_result)" where
  "audit_run loaded collector lookup today projects w =
     (case loaded of (risks, problems) \<Rightarrow>
        if problems \<noteq> []
        then (w, Inr (1, ''--- dependency audit: the list of accepted risks is not usable''
                           # map (\<lambda>p. ''    '' @ p) problems, None))
        else case collector projects of
          Inl e \<Rightarrow> (w, Inl e)
        | Inr findings \<Rightarrow>
            (case judge_all lookup risks today findings w of
               (w', Inl e) \<Rightarrow> (w', Inl e)
             | (w', Inr judgements) \<Rightarrow>
                 (let stale = unused_acceptances risks findings;
                      blocking = length (filter (\<lambda>j. jd_status j = Blocks) judgements);
                      lines = report_lines judgements @ map stale_line stale
                  in (w', Inr
                       (if blocking \<noteq> 0 \<or> stale \<noteq> []
                        then (1, lines @ [''    report: reports/dependency-audit.json''],
                              Some (report_document judgements stale))
                        else (0, lines @ [''--- dependency audit: '' @ join '', '' (map path_name projects)
                                @ '': nothing blocks, '' @ show_nat (length findings) @ '' findings known''],
                              Some (report_document judgements stale)))))))"

text \<open>\<open>main\<close>: a \<open>ValueError\<close> is printed, any other exception leaves the program.\<close>

definition audit_main ::
  "(accepted_risk list \<times> string list) \<Rightarrow> (string list \<Rightarrow> audit_error + finding list)
   \<Rightarrow> (string \<Rightarrow> 'w \<Rightarrow> 'w \<times> (audit_error + string)) \<Rightarrow> int \<Rightarrow> string list \<Rightarrow> 'w \<Rightarrow> 'w \<times> (audit_error + audit_result)" where
  "audit_main loaded collector lookup today argv w =
     (if argv = [] then (w, Inr (2, [''usage: dependency_audit.py PROJECT [PROJECT ...]''], None))
      else case audit_run loaded collector lookup today argv w of
        (w', Inl (AuditError t)) \<Rightarrow> (w', Inr (1, [''--- dependency audit: '' @ t], None))
      | r \<Rightarrow> r)"

end
