(* ===== verification/Tools_Audit_Properties.thy ===== *)
theory Tools_Audit_Properties
  imports Tools_Audit
begin

text \<open>
  What the dependency gate guarantees: one finding per vulnerability, and a green run exactly when the
  policy is satisfied.
\<close>

section \<open>One finding per vulnerability\<close>

text \<open>What the loop keeps about the table of best records: \<open>seen\<close> are the records read so far.\<close>

definition is_ghsa :: "finding \<Rightarrow> bool" where
  "is_ghsa f \<longleftrightarrow> startswith (fd_advisory f) ''GHSA-''"

definition best_ok :: "finding list \<Rightarrow> ((string \<times> string \<times> string) \<times> finding) list \<Rightarrow> bool" where
  "best_ok seen best \<longleftrightarrow>
     distinct (map fst best) \<and> fst ` set best = finding_key ` set seen
     \<and> (\<forall>(k, f) \<in> set best. f \<in> set seen \<and> finding_key f = k
          \<and> ((\<exists>g \<in> set seen. finding_key g = k \<and> is_ghsa g) \<longrightarrow> is_ghsa f))"

lemma best_ok_map_of:
  "best_ok seen best \<Longrightarrow> map_of best k = Some f \<Longrightarrow>
     f \<in> set seen \<and> finding_key f = k \<and> ((\<exists>g \<in> set seen. finding_key g = k \<and> is_ghsa g) \<longrightarrow> is_ghsa f)"
  unfolding best_ok_def by (auto dest!: map_of_SomeD)

lemma best_ok_iff:
  "best_ok seen best \<longleftrightarrow>
     distinct (map fst best) \<and> dom (map_of best) = finding_key ` set seen
     \<and> (\<forall>k f. map_of best k = Some f \<longrightarrow> f \<in> set seen \<and> finding_key f = k
          \<and> ((\<exists>g \<in> set seen. finding_key g = k \<and> is_ghsa g) \<longrightarrow> is_ghsa f))"
  unfolding best_ok_def dom_map_of_conv_image_fst by (fastforce simp: map_of_eq_Some_iff)

lemma keep_best_ok:
  assumes "best_ok seen best"
  shows "best_ok (seen @ [f]) (keep_best f best)"
proof -
  let ?k = "finding_key f"
  define v where "v = (case map_of best ?k of None \<Rightarrow> f | Some known \<Rightarrow> preferred known f)"
  from assms have d: "distinct (map fst best)" "dom (map_of best) = finding_key ` set seen"
    and old: "\<And>k g. map_of best k = Some g \<Longrightarrow> g \<in> set seen \<and> finding_key g = k
          \<and> ((\<exists>h \<in> set seen. finding_key h = k \<and> is_ghsa h) \<longrightarrow> is_ghsa g)"
    unfolding best_ok_iff by blast+
  have v: "v \<in> set (seen @ [f]) \<and> finding_key v = ?k
      \<and> ((\<exists>h \<in> set (seen @ [f]). finding_key h = ?k \<and> is_ghsa h) \<longrightarrow> is_ghsa v)"
  proof (cases "map_of best ?k")
    case None
    with d(2) have "\<forall>h \<in> set seen. finding_key h \<noteq> ?k" by (metis domIff imageI)
    with None show ?thesis by (auto simp: v_def)
  next
    case (Some g)
    with old [OF Some] show ?thesis by (auto simp: v_def preferred_def is_ghsa_def)
  qed
  have "keep_best f best = dict_put ?k v best" by (simp add: keep_best_def v_def)
  then show ?thesis
    unfolding best_ok_iff using d old v distinct_dict_put [OF d(1)] by auto
qed

lemma fold_keep_best_ok: "best_ok seen best \<Longrightarrow> best_ok (seen @ rs) (fold keep_best rs best)"
proof (induction rs arbitrary: seen best)
  case (Cons r rs)
  from Cons.IH [OF keep_best_ok [OF Cons.prems]] show ?case by simp
qed simp

lemma best_records:
  assumes "best_ok seen best"
  shows "distinct (map finding_key (map snd best))" "finding_key ` set (map snd best) = finding_key ` set seen"
proof -
  have keys: "map finding_key (map snd best) = map fst best"
    using assms by (auto simp: best_ok_def)
  with assms show "distinct (map finding_key (map snd best))" by (simp only: best_ok_def)
  have "finding_key ` set (map snd best) = set (map fst best)" unfolding keys [symmetric] by (simp only: set_map)
  with assms show "finding_key ` set (map snd best) = finding_key ` set seen" by (simp add: best_ok_def)
qed

text \<open>
  The findings of a report are its records without the repetitions: no two findings share
  package, version and canonical name, every record has its finding, every finding is one of the
  records, the one from GitHub where there is one, and they come ordered by package and advisory.
\<close>

theorem one_finding_per_vulnerability:
  assumes "findings_of other project report = Inr findings"
  shows "\<exists>raws records. object_at report ''vulnerabilities'' = Inr (JArr raws)
    \<and> collect_results (raw_finding other project) raws = Inr records
    \<and> distinct (map finding_key findings)
    \<and> finding_key ` set findings = finding_key ` set records
    \<and> set findings \<subseteq> set records
    \<and> (\<forall>f \<in> set findings. (\<exists>r \<in> set records. finding_key r = finding_key f \<and> is_ghsa r) \<longrightarrow> is_ghsa f)
    \<and> sorted (map finding_order findings)"
proof -
  from assms obtain raws where raws: "object_at report ''vulnerabilities'' = Inr (JArr raws)"
    "try_bind (collect_results (raw_finding other project) raws) (\<lambda>records.
       Inr (sort_key finding_order (map snd (fold keep_best records [])))) = Inr findings"
    by (auto simp: findings_of_def split: sum.splits bool.splits json.splits)
  then obtain records where records: "collect_results (raw_finding other project) raws = Inr records"
    "findings = sort_key finding_order (map snd (fold keep_best records []))"
    by (auto simp: try_bind_Inr_iff)
  have ok: "best_ok records (fold keep_best records [])"
    using fold_keep_best_ok [of "[]" "[]" records] by (simp add: best_ok_def)
  define kept where "kept = map snd (fold keep_best records [])"
  have findings: "findings = sort_key finding_order kept" by (simp add: records(2) kept_def)
  then have set: "set findings = set kept" by simp
  have kept: "distinct (map finding_key kept)" "finding_key ` set kept = finding_key ` set records"
    using best_records [OF ok] unfolding kept_def .
  from kept(1) have "distinct (map finding_key findings)"
    unfolding distinct_map by (simp add: findings)
  moreover have "finding_key ` set findings = finding_key ` set records" using kept(2) set by simp
  moreover have "f \<in> set records \<and> ((\<exists>r \<in> set records. finding_key r = finding_key f \<and> is_ghsa r) \<longrightarrow> is_ghsa f)"
    if "f \<in> set findings" for f
    using that ok unfolding set kept_def best_ok_def by auto
  moreover have "sorted (map finding_order findings)" by (simp add: findings)
  ultimately show ?thesis using raws(1) records(1) by blast
qed

text \<open>Two records of one vulnerability, as \<open>uv audit\<close> reports it.\<close>

definition sample_record :: "string \<Rightarrow> json" where
  "sample_record advisory =
     JObj [(''dependency'', JObj [(''name'', JStr ''left-pad''), (''version'', JStr ''1.0'')]), (''id'', JStr advisory),
           (''aliases'', JArr [JStr ''CVE-1'']), (''published'', JStr ''2026-01-02T00:00:00Z'')]"

definition sample_report :: json where
  "sample_report =
     JObj [(''summary'', JObj []), (''vulnerabilities'', JArr [sample_record ''GHSA-1'', sample_record ''PYSEC-1''])]"

definition sample_finding :: "string \<Rightarrow> int \<Rightarrow> finding" where
  "sample_finding advisory published =
     \<lparr>fd_project = ''web'', fd_package = ''left-pad'', fd_version = ''1.0'', fd_advisory = advisory,
      fd_aliases = [''CVE-1''], fd_summary = [], fd_fix_versions = [], fd_published = published,
      fd_link = OSV_URL @ advisory\<rparr>"

lemma sample_raw:
  assumes "parse_date other ''2026-01-02'' = Some d"
  shows "raw_finding other ''web'' (sample_record advisory) = Inr (sample_finding advisory d)"
  using assms
  by (simp add: raw_finding_def sample_record_def sample_finding_def object_at_def text_at_def texts_at_def
      get_at_def dict_get_def first_text_def published_date_def py_str_def)

theorem one_finding_per_vulnerability_witness:
  "\<exists>d. findings_of (\<lambda>_. None) ''web'' sample_report = Inr [sample_finding ''GHSA-1'' d]
     \<and> distinct (map finding_key [sample_finding ''GHSA-1'' d])"
proof -
  have "num_field 0 4 ''2026-01-02'' = Some 2026" "num_field 5 2 ''2026-01-02'' = Some 1"
    "num_field 8 2 ''2026-01-02'' = Some 2"
    by (simp_all add: num_field_def parse_digits_def digit_value_def digit_of_def)
  then have date: "parse_date (\<lambda>_. None) ''2026-01-02'' = Some (ymd2ord 2026 1 2)"
    by (simp add: parse_date_def has_char_def days_in_month_def)
  let ?f = "\<lambda>a. sample_finding a (ymd2ord 2026 1 2)"
  have "finding_key (?f ''PYSEC-1'') = finding_key (?f ''GHSA-1'')"
    by (simp add: finding_key_def sample_finding_def canonical_key_def startswith_def)
  moreover have "preferred (?f ''GHSA-1'') (?f ''PYSEC-1'') = ?f ''GHSA-1''"
    by (simp add: preferred_def sample_finding_def startswith_def)
  ultimately have "findings_of (\<lambda>_. None) ''web'' sample_report = Inr [?f ''GHSA-1'']"
    by (simp add: findings_of_def sample_report_def contains_key_def object_at_def sample_raw [OF date] keep_best_def)
  with one_finding_per_vulnerability [OF this] show ?thesis by blast
qed

section \<open>The exit code\<close>

lemma judge_blocks_iff:
  "jd_status (judge f severity risks today) \<noteq> Blocks \<longleftrightarrow>
     (\<exists>risk \<in> set risks. covers risk (fd_package f) (identifiers f))
     \<or> severity \<notin> set BLOCKING_SEVERITIES \<and> today - fd_published f \<le> GRACE_DAYS"
proof (cases "filter (\<lambda>risk. covers risk (fd_package f) (identifiers f)) risks")
  case Nil
  then have "\<not> (\<exists>risk \<in> set risks. covers risk (fd_package f) (identifiers f))" by (simp add: filter_empty_conv)
  with Nil show ?thesis by (simp add: judge_def Let_def)
next
  case (Cons risk others)
  then have "risk \<in> set risks \<and> covers risk (fd_package f) (identifiers f)"
    by (metis filter_eq_ConsD in_set_conv_decomp)
  with Cons show ?thesis by (auto simp: judge_def)
qed

lemma judge_fields [simp]: "jd_finding (judge f severity risks today) = f" "jd_severity (judge f severity risks today) = severity"
  by (auto simp: judge_def Let_def split: list.splits)

lemma judge_all_judges:
  "judge_all lookup risks today fs w = (w', Inr js) \<Longrightarrow>
     map jd_finding js = fs \<and> (\<forall>j \<in> set js. j = judge (jd_finding j) (jd_severity j) risks today)"
  by (induction fs arbitrary: w js) (auto split: prod.splits sum.splits)

lemma unused_nil:
  "unused_acceptances risks findings = [] \<longleftrightarrow>
     (\<forall>risk \<in> set risks. \<exists>f \<in> set findings. covers risk (fd_package f) (identifiers f))"
  by (auto simp: unused_acceptances_def filter_empty_conv list_ex_iff)

text \<open>
  C38. The audit ends with exit code 0 exactly when the policy is satisfied: the list of accepted risks is
  valid, every finding is accepted by an entry for its package or is neither of a blocking severity
  nor older than 30 days, and no entry is left that covers nothing. Every finding is in the report, and
  nothing but a usage error, an exception or a written report ends the run.
\<close>

theorem green_audit_satisfies_policy:
  assumes "audit_run (risks, problems) collector lookup today projects w = (w', Inr (code, lines, report))"
  shows "(code = 0 \<or> code = 1)
    \<and> (problems = [] \<longrightarrow> (\<exists>findings judgements.
         collector projects = Inr findings \<and> map jd_finding judgements = findings
         \<and> judge_all lookup risks today findings w = (w', Inr judgements)
         \<and> report = Some (report_document judgements (unused_acceptances risks findings))
         \<and> (code = 0 \<longleftrightarrow>
              (\<forall>j \<in> set judgements.
                 (\<exists>risk \<in> set risks. covers risk (fd_package (jd_finding j)) (identifiers (jd_finding j)))
                 \<or> jd_severity j \<notin> {''CRITICAL'', ''HIGH'', ''UNKNOWN''} \<and> today - fd_published (jd_finding j) \<le> 30)
              \<and> (\<forall>risk \<in> set risks. \<exists>f \<in> set findings. covers risk (fd_package f) (identifiers f)))))
    \<and> (problems \<noteq> [] \<longrightarrow> code = 1 \<and> report = None)"
proof (cases "problems = []")
  case False
  with assms show ?thesis by (auto simp: audit_run_def)
next
  case True
  with assms obtain findings where f: "collector projects = Inr findings"
    by (cases "collector projects") (auto simp: audit_run_def)
  obtain w2 r where r: "judge_all lookup risks today findings w = (w2, r)" by fastforce
  with assms True f obtain judgements where js: "r = Inr judgements" "w2 = w'"
    by (cases r) (auto simp: audit_run_def Let_def)
  note judged = judge_all_judges [OF r [unfolded js]]
  have "jd_status j \<noteq> Blocks \<longleftrightarrow>
      (\<exists>risk \<in> set risks. covers risk (fd_package (jd_finding j)) (identifiers (jd_finding j)))
      \<or> jd_severity j \<notin> {''CRITICAL'', ''HIGH'', ''UNKNOWN''} \<and> today - fd_published (jd_finding j) \<le> 30"
    if "j \<in> set judgements" for j
    using judged that judge_blocks_iff [of "jd_finding j" "jd_severity j" risks today]
    by (metis BLOCKING_SEVERITIES_def GRACE_DAYS_def empty_set list.simps(15))
  then have policy: "filter (\<lambda>j. jd_status j = Blocks) judgements = [] \<longleftrightarrow> (\<forall>j \<in> set judgements.
      (\<exists>risk \<in> set risks. covers risk (fd_package (jd_finding j)) (identifiers (jd_finding j)))
      \<or> jd_severity j \<notin> {''CRITICAL'', ''HIGH'', ''UNKNOWN''} \<and> today - fd_published (jd_finding j) \<le> 30)"
    by (auto simp: filter_empty_conv)
  have code: "code = (if filter (\<lambda>j. jd_status j = Blocks) judgements \<noteq> [] \<or> unused_acceptances risks findings \<noteq> []
      then 1 else 0)" "report = Some (report_document judgements (unused_acceptances risks findings))"
    using assms True f r js by (auto simp: audit_run_def Let_def split: if_splits)
  from code(1) policy unused_nil [of risks findings] have "code = 0 \<longleftrightarrow> (\<forall>j \<in> set judgements.
      (\<exists>risk \<in> set risks. covers risk (fd_package (jd_finding j)) (identifiers (jd_finding j)))
      \<or> jd_severity j \<notin> {''CRITICAL'', ''HIGH'', ''UNKNOWN''} \<and> today - fd_published (jd_finding j) \<le> 30)
      \<and> (\<forall>risk \<in> set risks. \<exists>f \<in> set findings. covers risk (fd_package f) (identifiers f))"
    by simp
  moreover have "code = 0 \<or> code = 1" using code(1) by simp
  ultimately show ?thesis
    using True f r js judged code(2) by (intro conjI impI exI [of _ findings] exI [of _ judgements]) simp_all
qed

definition sample_lookup :: "string \<Rightarrow> unit \<Rightarrow> unit \<times> (audit_error + string)" where
  "sample_lookup advisory w = (w, Inr ''LOW'')"

theorem green_audit_satisfies_policy_witness:
  "\<exists>lines report. audit_run ([], []) (\<lambda>_. Inr [sample_finding ''GHSA-1'' 100]) sample_lookup 130 [''web''] ()
       = ((), Inr (0, lines, report))
     \<and> (\<exists>judgements. map jd_finding judgements = [sample_finding ''GHSA-1'' 100]
          \<and> report = Some (report_document judgements []))
     \<and> fst (projr (snd (audit_run ([], []) (\<lambda>_. Inr [sample_finding ''GHSA-1'' 100]) sample_lookup 131 [''web''] ()))) = 1"
proof -
  have judged: "judge_all sample_lookup [] today [sample_finding ''GHSA-1'' 100] () =
      ((), Inr [judge (sample_finding ''GHSA-1'' 100) ''LOW'' [] today])" for today
    by (simp add: sample_lookup_def)
  have low: "jd_status (judge (sample_finding ''GHSA-1'' 100) ''LOW'' [] 130) \<noteq> Blocks"
    "jd_status (judge (sample_finding ''GHSA-1'' 100) ''LOW'' [] 131) = Blocks"
    by (simp_all add: judge_def BLOCKING_SEVERITIES_def sample_finding_def GRACE_DAYS_def)
  obtain lines report where run: "audit_run ([], []) (\<lambda>_. Inr [sample_finding ''GHSA-1'' 100]) sample_lookup 130 [''web''] ()
      = ((), Inr (0, lines, report))"
    using low(1) by (simp add: audit_run_def judged unused_acceptances_def Let_def del: judge_all.simps)
  from green_audit_satisfies_policy [OF run, THEN conjunct2, THEN conjunct1, rule_format, OF refl]
  obtain fs js where "Inr [sample_finding ''GHSA-1'' 100] = (Inr fs :: audit_error + finding list)"
    "map jd_finding js = fs" "report = Some (report_document js (unused_acceptances [] fs))"
    by (elim exE conjE) (rule that; assumption)
  then have "\<exists>judgements. map jd_finding judgements = [sample_finding ''GHSA-1'' 100]
      \<and> report = Some (report_document judgements [])"
    by (intro exI [of _ js]) (simp add: unused_acceptances_def)
  moreover have "fst (projr (snd (audit_run ([], []) (\<lambda>_. Inr [sample_finding ''GHSA-1'' 100]) sample_lookup 131 [''web''] ()))) = 1"
    using low(2) by (simp add: audit_run_def judged unused_acceptances_def Let_def del: judge_all.simps)
  ultimately show ?thesis using run by (intro exI [of _ lines] exI [of _ report] conjI)
qed

end
