(* ===== verification/Tools_Imports.thy ===== *)
theory Tools_Imports
  imports Pyjson
begin

text \<open>
  \<open>tools/import_boundaries.py\<close>: a service must not import the code of another. The file system and
  \<open>ast\<close> are parameters: a tree of services with their directories, and for every Python file the
  nodes of its syntax tree in the order of \<open>ast.walk\<close>.
\<close>

definition SKIPPED_DIRS :: "string list" where
  "SKIPPED_DIRS = [''.venv'', ''mutants'', ''__pycache__'', ''node_modules'']"

text \<open>The nodes that matter; the first component is the line.\<close>

datatype import_node =
  Import int "string list"
| ImportFrom int "string option" int
| OtherNode

record source_file =
  sf_parts :: "string list"
  sf_nodes :: "import_node list"

record service_dir =
  sd_name :: string
  sd_src_dirs :: "string list"
  sd_files :: "source_file list"

record violation =
  vi_path :: "string list"
  vi_line :: int
  vi_imported :: string
  vi_owner :: string

definition owned_packages :: "service_dir \<Rightarrow> string list" where
  "owned_packages d = sd_src_dirs d"

text \<open>The directories of the root, sorted by their path.\<close>

definition service_dirs :: "service_dir list \<Rightarrow> service_dir list" where
  "service_dirs root = sort_key sd_name root"

definition package_owners :: "service_dir list \<Rightarrow> (string \<times> string) list" where
  "package_owners root =
     dict_of (concat (map (\<lambda>d. map (\<lambda>package. (package, sd_name d)) (owned_packages d)) (service_dirs root)))"

definition python_files :: "service_dir list \<Rightarrow> (string \<times> source_file) list" where
  "python_files root =
     concat (map (\<lambda>d. map (\<lambda>f. (sd_name d, f))
        (filter (\<lambda>f. \<not> list_ex (\<lambda>part. part \<in> set SKIPPED_DIRS) (sf_parts f)) (sort_key sf_parts (sd_files d))))
       (service_dirs root))"

text \<open>\<open>name.split('.')[0]\<close>.\<close>

definition root_module :: "string \<Rightarrow> string" where
  "root_module name = hd (split_on CHR ''.'' name)"

fun node_roots :: "import_node \<Rightarrow> (int \<times> string) list" where
  "node_roots (Import line names) = map (\<lambda>name. (line, root_module name)) names"
| "node_roots (ImportFrom line module level) =
     (case module of
        None \<Rightarrow> []
      | Some m \<Rightarrow> if level = 0 \<and> m \<noteq> [] then [(line, root_module m)] else [])"
| "node_roots OtherNode = []"

definition imported_roots :: "import_node list \<Rightarrow> (int \<times> string) list" where
  "imported_roots nodes = concat (map node_roots nodes)"

definition file_violations :: "(string \<times> string) list \<Rightarrow> string \<times> source_file \<Rightarrow> violation list" where
  "file_violations owners entry =
     (case entry of (service, f) \<Rightarrow>
        concat (map (\<lambda>(line, root).
            (case map_of owners root of
               None \<Rightarrow> []
             | Some owner \<Rightarrow>
                 if owner \<noteq> service
                 then [\<lparr>vi_path = service # sf_parts f, vi_line = line, vi_imported = root, vi_owner = owner\<rparr>]
                 else []))
          (imported_roots (sf_nodes f))))"

definition find_violations :: "service_dir list \<Rightarrow> violation list" where
  "find_violations root = concat (map (file_violations (package_owners root)) (python_files root))"

definition describe_violation :: "string \<Rightarrow> violation \<Rightarrow> string" where
  "describe_violation services v =
     join ''/'' (services # vi_path v) @ '':'' @ show_int (vi_line v) @ '': imports '' @ [CHR 0x27] @ vi_imported v
     @ [CHR 0x27] @ '' of service '' @ vi_owner v"

text \<open>\<open>main\<close>: the exit code and the printed lines; \<open>trees\<close> gives the tree under a path.\<close>

definition imports_main ::
  "(string \<Rightarrow> string \<times> service_dir list) \<Rightarrow> string \<Rightarrow> string list \<Rightarrow> int \<times> string list" where
  "imports_main trees default_root argv =
     (if length argv > 1 then (2, [''usage: import_boundaries.py [SERVICES_DIR]''])
      else
        (case trees (case argv of [] \<Rightarrow> default_root | p # _ \<Rightarrow> p) of (name, root) \<Rightarrow>
           (let violations = find_violations root in
            if violations \<noteq> []
            then (1, [''--- import boundaries: services import each other (ADR-0002)'']
                     @ map (\<lambda>v. ''    '' @ describe_violation name v) violations
                     @ [''    services share no code: describe the contract and call it over HTTP or publish an event''])
            else (0, [''--- import boundaries: '' @ show_nat (length (python_files root))
                     @ '' files, no service imports another'']))))"

section \<open>What a green run means\<close>

lemma python_files_iff:
  "(s, f) \<in> set (python_files root) \<longleftrightarrow>
     (\<exists>d \<in> set root. sd_name d = s \<and> f \<in> set (sd_files d) \<and> set (sf_parts f) \<inter> set SKIPPED_DIRS = {})"
  by (auto simp: python_files_def service_dirs_def list_ex_iff)

lemma python_files_all:
  "(\<forall>(s, f) \<in> set (python_files root). Q s f) \<longleftrightarrow>
     (\<forall>d \<in> set root. \<forall>f \<in> set (sd_files d). set (sf_parts f) \<inter> set SKIPPED_DIRS = {} \<longrightarrow> Q (sd_name d) f)"
  unfolding Ball_def split_paired_All case_prod_conv python_files_iff by blast

lemma node_roots_iff:
  "(line, r) \<in> set (imported_roots nodes) \<longleftrightarrow>
     (\<exists>names name. Import line names \<in> set nodes \<and> name \<in> set names \<and> r = root_module name)
     \<or> (\<exists>m. ImportFrom line (Some m) 0 \<in> set nodes \<and> m \<noteq> [] \<and> r = root_module m)"
proof -
  have "(line, r) \<in> set (node_roots n) \<longleftrightarrow>
      (\<exists>names name. n = Import line names \<and> name \<in> set names \<and> r = root_module name)
      \<or> (\<exists>m. n = ImportFrom line (Some m) 0 \<and> m \<noteq> [] \<and> r = root_module m)" for n
    by (cases n) (auto split: option.splits)
  then show ?thesis unfolding imported_roots_def by auto
qed

text \<open>A package that only one service owns is looked up to that service.\<close>

lemma package_owners_map: "map_of (package_owners root) = map_of (rev (concat (map (\<lambda>d. map (\<lambda>package.
    (package, sd_name d)) (owned_packages d)) (service_dirs root))))"
  by (simp add: package_owners_def map_of_dict_of)

lemma owner_owns:
  assumes "map_of (package_owners root) p = Some s"
  shows "\<exists>d \<in> set root. sd_name d = s \<and> p \<in> set (sd_src_dirs d)"
  using map_of_SomeD [OF assms [unfolded package_owners_map]]
  by (auto simp: owned_packages_def service_dirs_def)

lemma package_owner:
  assumes "d \<in> set root" "p \<in> set (sd_src_dirs d)"
    and one: "\<And>d'. d' \<in> set root \<Longrightarrow> p \<in> set (sd_src_dirs d') \<Longrightarrow> sd_name d' = sd_name d"
  shows "map_of (package_owners root) p = Some (sd_name d)"
proof -
  have "map_of (package_owners root) p \<noteq> None"
    unfolding package_owners_map map_of_eq_None_iff using assms(1,2)
    by (force simp: owned_packages_def service_dirs_def)
  then obtain s where "map_of (package_owners root) p = Some s" by blast
  with owner_owns [OF this] one show ?thesis by auto
qed

lemma file_violations_nil:
  "file_violations owners (s, f) = [] \<longleftrightarrow>
     (\<forall>(line, p) \<in> set (imported_roots (sf_nodes f)). \<forall>owner. map_of owners p = Some owner \<longrightarrow> owner = s)"
  by (auto simp: file_violations_def split: option.splits if_splits)

text \<open>
  The gate is green exactly when no service imports another: where no two services own packages
  of one name, there is no violation if and only if no Python file of a service outside the skipped
  directories has an absolute import whose first component is a package of another service.
\<close>

lemma import_gate_exact:
  assumes "\<forall>d \<in> set root. \<forall>d' \<in> set root. \<forall>p \<in> set (sd_src_dirs d) \<inter> set (sd_src_dirs d'). sd_name d = sd_name d'"
  shows "find_violations root = [] \<longleftrightarrow>
    (\<forall>d \<in> set root. \<forall>f \<in> set (sd_files d). set (sf_parts f) \<inter> set SKIPPED_DIRS = {} \<longrightarrow>
       (\<forall>(line, p) \<in> set (imported_roots (sf_nodes f)). \<forall>d' \<in> set root.
          p \<in> set (sd_src_dirs d') \<longrightarrow> sd_name d' = sd_name d))"
proof -
  have owner: "(\<forall>owner. map_of (package_owners root) p = Some owner \<longrightarrow> owner = s) \<longleftrightarrow>
      (\<forall>d' \<in> set root. p \<in> set (sd_src_dirs d') \<longrightarrow> sd_name d' = s)" for p s
  proof
    assume l: "\<forall>owner. map_of (package_owners root) p = Some owner \<longrightarrow> owner = s"
    show "\<forall>d' \<in> set root. p \<in> set (sd_src_dirs d') \<longrightarrow> sd_name d' = s"
    proof (intro ballI impI)
      fix d' assume d': "d' \<in> set root" "p \<in> set (sd_src_dirs d')"
      then have "map_of (package_owners root) p = Some (sd_name d')"
        by (rule package_owner) (use assms d' in blast)
      with l show "sd_name d' = s" by blast
    qed
  next
    assume "\<forall>d' \<in> set root. p \<in> set (sd_src_dirs d') \<longrightarrow> sd_name d' = s"
    then show "\<forall>owner. map_of (package_owners root) p = Some owner \<longrightarrow> owner = s"
      using owner_owns by blast
  qed
  have "find_violations root = [] \<longleftrightarrow>
    (\<forall>(s, f) \<in> set (python_files root). file_violations (package_owners root) (s, f) = [])"
    by (auto simp: find_violations_def)
  also have "\<dots> \<longleftrightarrow> (\<forall>(s, f) \<in> set (python_files root). \<forall>(line, p) \<in> set (imported_roots (sf_nodes f)).
      \<forall>d' \<in> set root. p \<in> set (sd_src_dirs d') \<longrightarrow> sd_name d' = s)"
    by (simp only: file_violations_nil owner)
  finally show ?thesis unfolding python_files_all .
qed

end
