(* ===== verification/Tools_Mutation.thy ===== *)
theory Tools_Mutation
  imports Pyjson_Roundtrip
begin

text \<open>
  \<open>services/*/tools/mutation_gate.py\<close>: the gate on the mutation score, one copy per service. The statistics file is a text or
  missing. \<open>float_zero\<close> and \<open>float_below\<close> say what Python answers when a count is no integer: whether a float is zero,
  and whether a quotient is below the threshold or raises. What the gate prints is left out.
\<close>

text \<open>
  \<open>killed / total < 1.0\<close> for integers. The quotient is rounded to the nearest double, ties to even, so it is below 1 when it lies
  below \<open>1 - 2 ^ -54\<close>; what rounds beyond the largest double raises.
\<close>

definition too_large :: "int \<Rightarrow> int \<Rightarrow> bool" where
  "too_large k t \<longleftrightarrow> \<bar>t\<bar> * (2 ^ 1024 - 2 ^ 970) \<le> \<bar>k\<bar>"

definition below_one :: "int \<Rightarrow> int \<Rightarrow> bool" where
  "below_one k t = (if 0 < t then k * 2 ^ 54 < t * (2 ^ 54 - 1) else - k * 2 ^ 54 < - t * (2 ^ 54 - 1))"

record float_answers =
  float_zero :: "string \<Rightarrow> bool"
  float_below :: "json \<Rightarrow> json \<Rightarrow> py_error + bool"

text \<open>A bool is an int.\<close>

fun as_int :: "json \<Rightarrow> int option" where
  "as_int (JInt i) = Some i"
| "as_int (JBool b) = Some (if b then 1 else 0)"
| "as_int v = None"

definition is_zero :: "float_answers \<Rightarrow> json \<Rightarrow> bool" where
  "is_zero fa v = (case v of JFloat x \<Rightarrow> float_zero fa x | _ \<Rightarrow> as_int v = Some 0)"

definition score_below :: "float_answers \<Rightarrow> json \<Rightarrow> json \<Rightarrow> py_error + bool" where
  "score_below fa killed count =
     (case (as_int killed, as_int count) of
        (Some k, Some t) \<Rightarrow> if too_large k t then Inl OverflowError else Inr (below_one k t)
      | _ \<Rightarrow>
          if \<forall>v \<in> {killed, count}. as_int v \<noteq> None \<or> (\<exists>x. v = JFloat x) then float_below fa killed count
          else Inl TypeError)"

text \<open>\<open>stats[key]\<close>.\<close>

definition subscript :: "json \<Rightarrow> string \<Rightarrow> py_error + json" where
  "subscript v key =
     (case v of
        JObj kvs \<Rightarrow> (case map_of kvs key of None \<Rightarrow> Inl KeyError | Some x \<Rightarrow> Inr x)
      | _ \<Rightarrow> Inl TypeError)"

definition gate :: "float_answers \<Rightarrow> (nat \<Rightarrow> string) \<Rightarrow> (string \<Rightarrow> string) \<Rightarrow> string option \<Rightarrow> py_error + int" where
  "gate fa wide fr file =
     (case file of
        None \<Rightarrow> Inr 1
      | Some text \<Rightarrow>
          (case json_loads wide fr text of
             None \<Rightarrow> Inl ValueError
           | Some stats \<Rightarrow>
               try_bind (subscript stats ''total'') (\<lambda>count.
               try_bind (subscript stats ''killed'') (\<lambda>killed.
               if is_zero fa count then Inr 1
               else try_bind (score_below fa killed count) (\<lambda>below. Inr (if below then 1 else 0))))))"

text \<open>The five copies.\<close>

definition booking_gate :: "float_answers \<Rightarrow> (nat \<Rightarrow> string) \<Rightarrow> (string \<Rightarrow> string) \<Rightarrow> string option \<Rightarrow> py_error + int" where
  "booking_gate = gate"

definition payments_gate :: "float_answers \<Rightarrow> (nat \<Rightarrow> string) \<Rightarrow> (string \<Rightarrow> string) \<Rightarrow> string option \<Rightarrow> py_error + int" where
  "payments_gate = gate"

definition notifier_gate :: "float_answers \<Rightarrow> (nat \<Rightarrow> string) \<Rightarrow> (string \<Rightarrow> string) \<Rightarrow> string option \<Rightarrow> py_error + int" where
  "notifier_gate = gate"

definition web_gate :: "float_answers \<Rightarrow> (nat \<Rightarrow> string) \<Rightarrow> (string \<Rightarrow> string) \<Rightarrow> string option \<Rightarrow> py_error + int" where
  "web_gate = gate"

definition quality_hub_gate :: "float_answers \<Rightarrow> (nat \<Rightarrow> string) \<Rightarrow> (string \<Rightarrow> string) \<Rightarrow> string option \<Rightarrow> py_error + int" where
  "quality_hub_gate = gate"

section \<open>What passes\<close>

lemma below_one_exact:
  assumes "0 < t" "t < 2 ^ 53"
  shows "below_one k t \<longleftrightarrow> k < t"
proof
  assume "k < t"
  then have "k \<le> t - 1" by simp
  then have "k * 2 ^ 54 \<le> (t - 1) * 2 ^ 54" by simp
  also have "\<dots> < t * (2 ^ 54 - 1)" using assms(2) by (simp add: algebra_simps)
  finally show "below_one k t" using assms(1) by (simp add: below_one_def)
next
  assume "below_one k t"
  then have less: "k * 2 ^ 54 < t * (2 ^ 54 - 1)" using assms(1) by (simp add: below_one_def)
  also have "\<dots> < t * 2 ^ 54" using assms(1) by (simp add: algebra_simps)
  finally show "k < t" by simp
qed

lemma not_too_large: "0 \<le> k \<Longrightarrow> k \<le> t \<Longrightarrow> 0 < t \<Longrightarrow> \<not> too_large k t"
proof -
  assume k: "0 \<le> k" "k \<le> t" "0 < t"
  have "t * 1 < t * (2 ^ 1024 - 2 ^ 970)" using k(3) by (intro mult_strict_left_mono) simp_all
  with k show "\<not> too_large k t" by (simp add: too_large_def)
qed

text \<open>
  No mutant survives unnoticed. The gate of each service lets a build pass exactly when the statistics are there, readable
  and count at least one mutant, all of them killed: for counts as mutmut writes them, below 2 ^ 53, where the quotient
  of the score cannot be rounded up to the threshold. In every other case the exit code is 1, by the
  gate's own answer or by an exception.
\<close>

theorem gate_passes_only_full_score:
  assumes "main \<in> {booking_gate, payments_gate, notifier_gate, web_gate, quality_hub_gate}"
    and "\<And>text kvs. file = Some text \<Longrightarrow> json_loads wide fr text = Some (JObj kvs) \<Longrightarrow> map_of kvs ''total'' \<noteq> None
      \<Longrightarrow> map_of kvs ''killed'' \<noteq> None
      \<Longrightarrow> \<exists>t k. map_of kvs ''total'' = Some (JInt t) \<and> map_of kvs ''killed'' = Some (JInt k) \<and> 0 \<le> k \<and> k \<le> t \<and> t < 2 ^ 53"
  shows "(main fa wide fr file = Inr 0 \<longleftrightarrow>
      (\<exists>text kvs n. file = Some text \<and> json_loads wide fr text = Some (JObj kvs) \<and> 0 < n
         \<and> map_of kvs ''total'' = Some (JInt n) \<and> map_of kvs ''killed'' = Some (JInt n)))
    \<and> (main fa wide fr file \<in> {Inr 0, Inr 1} \<union> range Inl)"
proof -
  have main: "main = gate"
    using assms(1) by (auto simp: booking_gate_def payments_gate_def notifier_gate_def web_gate_def quality_hub_gate_def)
  show ?thesis
  proof (cases "\<exists>text kvs t k. file = Some text \<and> json_loads wide fr text = Some (JObj kvs)
      \<and> map_of kvs ''total'' = Some t \<and> map_of kvs ''killed'' = Some k")
    case True
    then obtain body kvs t k where read: "file = Some body" "json_loads wide fr body = Some (JObj kvs)"
      "map_of kvs ''total'' = Some (JInt t)" "map_of kvs ''killed'' = Some (JInt k)" and range: "0 \<le> k" "k \<le> t" "t < 2 ^ 53"
      using assms(2) by fastforce
    have "gate fa wide fr file = (if t = 0 then Inr 1 else if k < t then Inr 1 else Inr 0)"
      using range not_too_large [of k t] below_one_exact [of t k]
      by (simp add: gate_def read subscript_def is_zero_def score_below_def)
    with read range show ?thesis by (auto simp: main)
  next
    case False
    then have "gate fa wide fr file \<in> insert (Inr 1) (range Inl)"
      by (auto simp: gate_def subscript_def try_bind_def split: option.splits json.splits sum.splits)
    with False show ?thesis by (auto simp: main)
  qed
qed

theorem gate_passes_only_full_score_witness:
  "web_gate \<lparr>float_zero = (\<lambda>_. False), float_below = (\<lambda>_ _. Inl TypeError)\<rparr> (\<lambda>_. []) (\<lambda>s. s)
     (Some (json_dumps (JObj [(''killed'', JInt 7), (''total'', JInt 7)]))) = Inr 0"
proof -
  let ?v = "JObj [(''killed'', JInt 7), (''total'', JInt 7)]" and ?wide = "\<lambda>_. []" and ?fr = "\<lambda>s. s"
  have "plain_json ?v" by code_simp
  then have load: "json_loads ?wide ?fr (json_dumps ?v) = Some ?v" by (rule loads_dumps)
  have "web_gate \<in> {booking_gate, payments_gate, notifier_gate, web_gate, quality_hub_gate}" by simp
  then have "web_gate \<lparr>float_zero = (\<lambda>_. False), float_below = (\<lambda>_ _. Inl TypeError)\<rparr> ?wide ?fr (Some (json_dumps ?v)) = Inr 0
      \<longleftrightarrow> (\<exists>body kvs n. Some (json_dumps ?v) = Some body \<and> json_loads ?wide ?fr body = Some (JObj kvs) \<and> 0 < n
         \<and> map_of kvs ''total'' = Some (JInt n) \<and> map_of kvs ''killed'' = Some (JInt n))"
    by (rule gate_passes_only_full_score [THEN conjunct1]) (use load in auto)
  with load show ?thesis by simp
qed

end
