(* ===== verification/Tools_Export.thy ===== *)
theory Tools_Export
  imports Pyjson_Roundtrip Services_Settings
begin

text \<open>
  The schema exports (\<open>tools/export_openapi.py\<close> of the four services and \<open>tools/export_events.py\<close> of booking):
  \<open>json.dump(schema, sys.stdout, indent=2, sort_keys=True, ensure_ascii=False)\<close> and a line feed. The committed
  copies are compared with this text byte by byte. What \<open>FastAPI.openapi()\<close> and \<open>model_json_schema()\<close> build is a
  parameter.
\<close>

section \<open>The printer\<close>







section \<open>The exports\<close>












section \<open>Reading an export\<close>











section \<open>Properties\<close>



end
