(* ===== verification/Quality_Junit.thy ===== *)
theory Quality_Junit
  imports Pyvalue
begin

text \<open>
  \<open>services/quality-hub/src/quality_hub/junit.py\<close>: reading a JUnit report. The XML parser is a
  parameter; it gives an element tree or the text of its error. A duration is the text Python prints
  for the float, and \<open>float()\<close> on a text is a parameter too.
\<close>

datatype case_status = Passed | Failed | Skipped | Errored

fun case_status_value :: "case_status \<Rightarrow> string" where
  "case_status_value Passed = ''passed''"
| "case_status_value Failed = ''failed''"
| "case_status_value Skipped = ''skipped''"
| "case_status_value Errored = ''error''"

datatype element = Element string "(string \<times> string) list" "element list"

definition STATUS_BY_TAG :: "(string \<times> case_status) list" where
  "STATUS_BY_TAG = [(''failure'', Failed), (''error'', Errored), (''skipped'', Skipped)]"

definition SOURCE_SUFFIX :: string where
  "SOURCE_SUFFIX = ''.py''"

text \<open>\<open>JUnitParseError\<close>, with its text.\<close>

datatype junit_error = JUnitParseError string

record case_result =
  cr_classname :: string
  cr_name :: string
  cr_file :: string
  cr_status :: case_status
  cr_duration :: string

definition test_id :: "case_result \<Rightarrow> string" where
  "test_id c = cr_classname c @ ''::'' @ cr_name c"

record suite_result =
  su_name :: string
  su_cases :: "case_result list"
  su_duration :: string

text \<open>\<open>str.isupper\<close> of one code point below 256.\<close>

definition is_upper :: "char \<Rightarrow> bool" where
  "is_upper c \<longleftrightarrow>
     (let n = of_char c :: nat in 65 \<le> n \<and> n \<le> 90 \<or> 192 \<le> n \<and> n \<le> 222 \<and> n \<noteq> 215)"

definition ends_path :: "string \<Rightarrow> bool" where
  "ends_path part \<longleftrightarrow> (case part of [] \<Rightarrow> True | c # cs \<Rightarrow> is_upper c)"

definition file_from_classname :: "string \<Rightarrow> string" where
  "file_from_classname classname =
     (let path = takeWhile (\<lambda>part. \<not> ends_path part) (split_on CHR ''.'' classname)
      in if path = [] then [] else join ''/'' path @ SOURCE_SUFFIX)"

fun tag_of :: "element \<Rightarrow> string" where
  "tag_of (Element tag attrs children) = tag"

fun children_of :: "element \<Rightarrow> element list" where
  "children_of (Element tag attrs children) = children"

fun attr :: "element \<Rightarrow> string \<Rightarrow> string option" where
  "attr (Element tag attrs children) key = map_of attrs key"

definition attr_or :: "element \<Rightarrow> string \<Rightarrow> string \<Rightarrow> string" where
  "attr_or e key otherwise = (case attr e key of None \<Rightarrow> otherwise | Some v \<Rightarrow> v)"

text \<open>\<open>element.iter(tag)\<close>: the element itself and all its descendants, in document order.\<close>

fun iter :: "string \<Rightarrow> element \<Rightarrow> element list" where
  "iter wanted (Element tag attrs children) =
     (if tag = wanted then [Element tag attrs children] else []) @ concat (map (iter wanted) children)"

definition status_of :: "element \<Rightarrow> case_status" where
  "status_of e =
     (case filter (\<lambda>(tag, status). list_ex (\<lambda>c. tag_of c = tag) (children_of e)) STATUS_BY_TAG of
        [] \<Rightarrow> Passed
      | (tag, status) # others \<Rightarrow> status)"

definition seconds_text :: "(string \<Rightarrow> string option) \<Rightarrow> string option \<Rightarrow> string" where
  "seconds_text to_float raw =
     (case raw of
        None \<Rightarrow> ''0.0''
      | Some t \<Rightarrow> (case to_float t of None \<Rightarrow> ''0.0'' | Some d \<Rightarrow> d))"

definition parse_case :: "(string \<Rightarrow> string option) \<Rightarrow> element \<Rightarrow> junit_error + case_result" where
  "parse_case to_float e =
     (let name = attr_or e ''name'' []; classname = attr_or e ''classname'' [] in
      if name = [] then Inl (JUnitParseError ''a testcase without a name cannot be tracked'')
      else Inr \<lparr>cr_classname = classname, cr_name = name,
                cr_file = (let f = attr_or e ''file'' [] in if f \<noteq> [] then f else file_from_classname classname),
                cr_status = status_of e, cr_duration = seconds_text to_float (attr e ''time'')\<rparr>)"

fun each :: "('a \<Rightarrow> 'e + 'b) \<Rightarrow> 'a list \<Rightarrow> 'e + 'b list" where
  "each f [] = Inr []"
| "each f (x # xs) = try_bind (f x) (\<lambda>y. try_bind (each f xs) (\<lambda>ys. Inr (y # ys)))"

definition parse_suite :: "(string \<Rightarrow> string option) \<Rightarrow> element \<Rightarrow> junit_error + suite_result" where
  "parse_suite to_float e =
     try_bind (each (parse_case to_float) (iter ''testcase'' e)) (\<lambda>found.
       Inr \<lparr>su_name = attr_or e ''name'' [], su_cases = found, su_duration = seconds_text to_float (attr e ''time'')\<rparr>)"

definition parse_report ::
  "(string \<Rightarrow> string + element) \<Rightarrow> (string \<Rightarrow> string option) \<Rightarrow> string \<Rightarrow> junit_error + suite_result list" where
  "parse_report fromstring to_float xml =
     (case fromstring xml of
        Inl error \<Rightarrow> Inl (JUnitParseError (''report is not valid XML: '' @ error))
      | Inr root \<Rightarrow>
          if tag_of root = ''testsuite'' then try_bind (parse_suite to_float root) (\<lambda>s. Inr [s])
          else if tag_of root = ''testsuites'' then each (parse_suite to_float) (iter ''testsuite'' root)
          else Inl (JUnitParseError (''root element is '' @ repr_str (tag_of root) @ '', not a JUnit report'')))"

definition parse_report_file ::
  "(string \<Rightarrow> string + element) \<Rightarrow> (string \<Rightarrow> string option) \<Rightarrow> (string \<Rightarrow> string) \<Rightarrow> string
   \<Rightarrow> junit_error + suite_result list" where
  "parse_report_file fromstring to_float read_text path = parse_report fromstring to_float (read_text path)"

definition cases_of :: "suite_result list \<Rightarrow> case_result list" where
  "cases_of suites = concat (map su_cases suites)"

section \<open>Facts\<close>

lemma iter_tag: "e \<in> set (iter wanted root) \<Longrightarrow> tag_of e = wanted"
  by (induction wanted root rule: iter.induct) (auto split: if_splits)

lemma status_of_cases:
  "status_of e =
     (if list_ex (\<lambda>c. tag_of c = ''failure'') (children_of e) then Failed
      else if list_ex (\<lambda>c. tag_of c = ''error'') (children_of e) then Errored
      else if list_ex (\<lambda>c. tag_of c = ''skipped'') (children_of e) then Skipped else Passed)"
  by (simp add: status_of_def STATUS_BY_TAG_def)

lemma each_Inr: "each f xs = Inr ys \<longleftrightarrow> list_all2 (\<lambda>x y. f x = Inr y) xs ys"
  by (induction xs arbitrary: ys) (auto simp: try_bind_Inr_iff list_all2_Cons1)

text \<open>Every test case of the report is in the result, in document order, once for every suite around it.\<close>

lemma parse_suite_cases:
  assumes "parse_suite to_float e = Inr s"
  shows "list_all2 (\<lambda>x c. parse_case to_float x = Inr c) (iter ''testcase'' e) (su_cases s)"
  using assms by (auto simp: parse_suite_def try_bind_Inr_iff each_Inr)

lemma parse_case_name: "parse_case to_float e = Inr c \<Longrightarrow> cr_name c \<noteq> [] \<and> attr e ''name'' = Some (cr_name c)"
  by (auto simp: parse_case_def attr_or_def Let_def split: if_splits option.splits)

text \<open>A suite inside a suite: its cases are counted for both.\<close>

definition nested_suites :: element where
  "nested_suites =
     Element ''testsuites'' [] [Element ''testsuite'' [(''name'', ''outer'')]
       [Element ''testsuite'' [(''name'', ''inner'')] [Element ''testcase'' [(''name'', ''test_a'')] []]]]"

lemma nested_suite_counted_twice:
  "map_option (length \<circ> cases_of) (case parse_report (\<lambda>_. Inr nested_suites) (\<lambda>_. None) [] of Inr ss \<Rightarrow> Some ss | _ \<Rightarrow> None)
     = Some 2"
  by code_simp

end
