(* ===== verification/Quality_Flakiness.thy ===== *)
theory Quality_Flakiness
  imports Complex_Main Quality_Junit Pytime Pyjson
begin

text \<open>
  \<open>services/quality-hub/src/quality_hub/flakiness.py\<close>: is a test flaky, and what becomes of its
  quarantine. Rates are rationals: \<open>flips / (n - 1)\<close> is a correctly rounded quotient of small
  integers, so its comparison with a decimal threshold is the comparison of the exact numbers.
\<close>

definition CONCLUSIVE_STATUSES :: "case_status list" where
  "CONCLUSIVE_STATUSES = [Passed, Failed, Errored]"

datatype flaky_verdict = NotEnoughData | Stable | Broken | Flaky

fun flaky_verdict_value :: "flaky_verdict \<Rightarrow> string" where
  "flaky_verdict_value NotEnoughData = ''not_enough_data''"
| "flaky_verdict_value Stable = ''stable''"
| "flaky_verdict_value Broken = ''broken''"
| "flaky_verdict_value Flaky = ''flaky''"

datatype quarantine_state_value = Active | Released | QExpired

fun quarantine_state_text :: "quarantine_state_value \<Rightarrow> string" where
  "quarantine_state_text Active = ''active''"
| "quarantine_state_text Released = ''released''"
| "quarantine_state_text QExpired = ''expired''"

record flakiness_policy =
  fp_window :: int
  fp_min_runs :: int
  fp_flip_rate_threshold :: rat
  fp_quarantine_ttl :: int
  fp_stable_runs_to_release :: int

definition DEFAULT_POLICY :: flakiness_policy where
  "DEFAULT_POLICY =
     \<lparr>fp_window = 20, fp_min_runs = 5, fp_flip_rate_threshold = 15 / 100, fp_quarantine_ttl = days 14,
      fp_stable_runs_to_release = 20\<rparr>"

record case_run =
  run_test_id :: string
  run_commit :: string
  run_branch :: string
  run_attempt :: int
  run_status :: case_status
  run_duration :: string

record quarantine_entry =
  qe_test_id :: string
  qe_owner :: string
  qe_opened_at :: moment
  qe_reason :: flaky_verdict

definition runs_from_report :: "suite_result list \<Rightarrow> string \<Rightarrow> string \<Rightarrow> int \<Rightarrow> case_run list" where
  "runs_from_report suites commit branch attempt =
     map (\<lambda>c. \<lparr>run_test_id = test_id c, run_commit = commit, run_branch = branch, run_attempt = attempt,
               run_status = cr_status c, run_duration = cr_duration c\<rparr>) (cases_of suites)"

definition conclusive :: "case_run list \<Rightarrow> case_run list" where
  "conclusive runs = filter (\<lambda>r. run_status r \<in> set CONCLUSIVE_STATUSES) runs"

definition failed :: "case_run \<Rightarrow> bool" where
  "failed r \<longleftrightarrow> run_status r \<noteq> Passed"

text \<open>The dict of sets: for every commit the outcomes seen, each once.\<close>

definition outcomes :: "case_run list \<Rightarrow> (string \<times> bool list) list" where
  "outcomes runs =
     fold (\<lambda>r seen. dict_put (run_commit r)
             (List.insert (failed r) (case map_of seen (run_commit r) of None \<Rightarrow> [] | Some s \<Rightarrow> s)) seen) runs []"

definition flipped_on_same_commit :: "case_run list \<Rightarrow> bool" where
  "flipped_on_same_commit runs \<longleftrightarrow> list_ex (\<lambda>(commit, seen). length seen > 1) (outcomes (conclusive runs))"

text \<open>\<open>xs[-n:]\<close>.\<close>

definition last_slice :: "int \<Rightarrow> 'a list \<Rightarrow> 'a list" where
  "last_slice n xs = (if n \<le> 0 then drop (nat (- n)) xs else drop (length xs - nat n) xs)"

definition window_of :: "flakiness_policy \<Rightarrow> case_run list \<Rightarrow> case_run list" where
  "window_of policy runs = last_slice (fp_window policy) (conclusive runs)"

fun flips :: "case_run list \<Rightarrow> nat" where
  "flips (before # after # runs) = (if failed before \<noteq> failed after then 1 else 0) + flips (after # runs)"
| "flips runs = 0"

definition flip_rate :: "flakiness_policy \<Rightarrow> case_run list \<Rightarrow> rat" where
  "flip_rate policy runs =
     (let recent = window_of policy runs in
      if length recent < 2 then 0 else of_nat (flips recent) / of_nat (length recent - 1))"

definition classify :: "flakiness_policy \<Rightarrow> case_run list \<Rightarrow> flaky_verdict" where
  "classify policy runs =
     (let recent = window_of policy runs in
      if flipped_on_same_commit recent then Flaky
      else if int (length recent) < fp_min_runs policy then NotEnoughData
      else if list_all failed recent then Broken
      else if flip_rate policy recent \<ge> fp_flip_rate_threshold policy then Flaky
      else Stable)"

definition should_quarantine :: "flakiness_policy \<Rightarrow> case_run list \<Rightarrow> bool" where
  "should_quarantine policy runs \<longleftrightarrow> classify policy runs = Flaky"

definition expires_at :: "flakiness_policy \<Rightarrow> quarantine_entry \<Rightarrow> moment" where
  "expires_at policy entry = qe_opened_at entry + fp_quarantine_ttl policy"

definition is_expired :: "flakiness_policy \<Rightarrow> quarantine_entry \<Rightarrow> moment \<Rightarrow> bool" where
  "is_expired policy entry now \<longleftrightarrow> now \<ge> expires_at policy entry"

definition earned_release :: "flakiness_policy \<Rightarrow> case_run list \<Rightarrow> bool" where
  "earned_release policy runs_since \<longleftrightarrow>
     (let recent = conclusive runs_since in
      int (length recent) \<ge> fp_stable_runs_to_release policy
      \<and> \<not> list_ex failed (last_slice (fp_stable_runs_to_release policy) recent))"

definition quarantine_state ::
  "flakiness_policy \<Rightarrow> quarantine_entry \<Rightarrow> case_run list \<Rightarrow> moment \<Rightarrow> quarantine_state_value" where
  "quarantine_state policy entry runs_since now =
     (if earned_release policy runs_since then Released
      else if is_expired policy entry now then QExpired else Active)"

definition quarantined_ids ::
  "quarantine_entry list \<Rightarrow> (string \<rightharpoonup> quarantine_state_value) \<Rightarrow> string list" where
  "quarantined_ids entries states =
     sort (map qe_test_id (filter (\<lambda>e. states (qe_test_id e) = Some Active) entries))"

section \<open>The window\<close>

lemma conclusive_idem [simp]: "conclusive (conclusive runs) = conclusive runs"
  by (simp add: conclusive_def)

lemma conclusive_append [simp]: "conclusive (xs @ ys) = conclusive xs @ conclusive ys"
  by (simp add: conclusive_def)

lemma conclusive_last_slice [simp]: "conclusive (last_slice n (conclusive runs)) = last_slice n (conclusive runs)"
  unfolding conclusive_def last_slice_def by (auto simp: filter_id_conv dest: in_set_dropD)

lemma conclusive_window [simp]: "conclusive (window_of policy runs) = window_of policy runs"
  by (simp add: window_of_def)

lemma last_slice_again: "0 < n \<Longrightarrow> last_slice n (last_slice n xs) = last_slice n xs"
  by (simp add: last_slice_def)

lemma window_again: "0 < fp_window policy \<Longrightarrow> window_of policy (window_of policy runs) = window_of policy runs"
  by (simp add: window_of_def last_slice_again)

lemma last_slice_append: "0 < n \<Longrightarrow> n \<le> int (length ys) \<Longrightarrow> last_slice n (xs @ ys) = last_slice n ys"
  by (simp add: last_slice_def)

lemma window_append:
  "0 < fp_window policy \<Longrightarrow> fp_window policy \<le> int (length (conclusive recent)) \<Longrightarrow>
     window_of policy (older @ recent) = window_of policy recent"
  by (simp add: window_of_def last_slice_append)

section \<open>The proof of flakiness\<close>

text \<open>What the dict of sets holds.\<close>

definition outcomes_ok :: "case_run list \<Rightarrow> (string \<times> bool list) list \<Rightarrow> bool" where
  "outcomes_ok runs seen \<longleftrightarrow>
     distinct (map fst seen)
     \<and> (\<forall>c. (case map_of seen c of None \<Rightarrow> {} | Some s \<Rightarrow> set s) = failed ` {r \<in> set runs. run_commit r = c})
     \<and> (\<forall>(c, s) \<in> set seen. distinct s)"

lemma outcomes_step:
  assumes "outcomes_ok runs seen"
  shows "outcomes_ok (runs @ [r]) (dict_put (run_commit r)
     (List.insert (failed r) (case map_of seen (run_commit r) of None \<Rightarrow> [] | Some s \<Rightarrow> s)) seen)"
proof -
  let ?old = "case map_of seen (run_commit r) of None \<Rightarrow> [] | Some s \<Rightarrow> s"
  from assms have d: "distinct (map fst seen)"
    and s: "\<And>c. (case map_of seen c of None \<Rightarrow> {} | Some s \<Rightarrow> set s) = failed ` {r \<in> set runs. run_commit r = c}"
    and dd: "\<And>c s. map_of seen c = Some s \<Longrightarrow> distinct s"
    unfolding outcomes_ok_def by (auto dest!: map_of_SomeD)
  have old: "set ?old = failed ` {q \<in> set runs. run_commit q = run_commit r}" "distinct ?old"
    using s [of "run_commit r"] dd by (auto split: option.splits)
  have d': "distinct (map fst (dict_put (run_commit r) (List.insert (failed r) ?old) seen))"
    using d by (rule distinct_dict_put)
  moreover have "distinct t" if "(c, t) \<in> set (dict_put (run_commit r) (List.insert (failed r) ?old) seen)" for c t
  proof -
    from that d' have "map_of (dict_put (run_commit r) (List.insert (failed r) ?old) seen) c = Some t"
      by (intro map_of_is_SomeI)
    with old(2) dd show ?thesis by (auto split: if_splits)
  qed
  moreover have "(case map_of (dict_put (run_commit r) (List.insert (failed r) ?old) seen) c of None \<Rightarrow> {} | Some s \<Rightarrow> set s)
      = failed ` {q \<in> set (runs @ [r]). run_commit q = c}" for c
  proof (cases "c = run_commit r")
    case True
    then show ?thesis using old(1) by auto
  next
    case False
    have "failed ` {q \<in> set (runs @ [r]). run_commit q = c} = failed ` {q \<in> set runs. run_commit q = c}"
      using False by auto
    with s [of c] False show ?thesis by simp
  qed
  ultimately show ?thesis unfolding outcomes_ok_def by blast
qed

lemma outcomes_ok_fold: "outcomes_ok runs (outcomes runs)"
proof (induction runs rule: rev_induct)
  case Nil
  show ?case by (simp add: outcomes_def outcomes_ok_def)
next
  case (snoc r runs)
  then show ?case using outcomes_step [of runs "outcomes runs" r] by (simp add: outcomes_def)
qed

lemma two_bools: "distinct s \<Longrightarrow> length s > 1 \<longleftrightarrow> set s = {True, False}"
proof
  assume d: "distinct s" and "length s > 1"
  then have "2 \<le> card (set s)" by (simp add: distinct_card)
  moreover have "card (set s) \<le> card (UNIV :: bool set)" by (rule card_mono) simp_all
  ultimately have "card (set s) = card (UNIV :: bool set)" by (simp add: card_UNIV_bool)
  then have "set s = UNIV" by (metis card_subset_eq finite subset_UNIV)
  then show "set s = {True, False}" by auto
next
  assume "distinct s" "set s = {True, False}"
  then have "length s = card {True, False}" by (metis distinct_card)
  then show "length s > 1" by simp
qed

lemma both_bools: "S = {True, False} \<longleftrightarrow> True \<in> S \<and> False \<in> S"
proof
  assume "True \<in> S \<and> False \<in> S"
  then have "b \<in> S" for b by (cases b) simp_all
  then show "S = {True, False}" by auto
qed simp

lemma flipped_iff:
  "flipped_on_same_commit runs \<longleftrightarrow>
     (\<exists>a \<in> set (conclusive runs). \<exists>b \<in> set (conclusive runs).
        run_commit a = run_commit b \<and> failed a \<and> \<not> failed b)"
proof -
  let ?runs = "conclusive runs"
  have ok: "outcomes_ok ?runs (outcomes ?runs)" by (rule outcomes_ok_fold)
  have dist: "\<forall>(c, s) \<in> set (outcomes ?runs). distinct s" using ok unfolding outcomes_ok_def by blast
  have len: "1 < length s \<longleftrightarrow> set s = {True, False}" if "(c, s) \<in> set (outcomes ?runs)" for c s
    using dist that by (intro two_bools) blast
  have "flipped_on_same_commit runs \<longleftrightarrow> (\<exists>(c, s) \<in> set (outcomes ?runs). 1 < length s)"
    by (simp add: flipped_on_same_commit_def list_ex_iff)
  also have "\<dots> \<longleftrightarrow> (\<exists>(c, s) \<in> set (outcomes ?runs). set s = {True, False})"
    using len by blast
  also have "\<dots> \<longleftrightarrow> (\<exists>c. failed ` {r \<in> set ?runs. run_commit r = c} = {True, False})"
  proof
    assume "\<exists>(c, s) \<in> set (outcomes ?runs). set s = {True, False}"
    then obtain c s where "(c, s) \<in> set (outcomes ?runs)" "set s = {True, False}" by blast
    then have "map_of (outcomes ?runs) c = Some s" using ok by (simp add: outcomes_ok_def)
    with ok \<open>set s = {True, False}\<close> show "\<exists>c. failed ` {r \<in> set ?runs. run_commit r = c} = {True, False}"
      unfolding outcomes_ok_def by (metis option.simps(5))
  next
    assume "\<exists>c. failed ` {r \<in> set ?runs. run_commit r = c} = {True, False}"
    then obtain c where c: "failed ` {r \<in> set ?runs. run_commit r = c} = {True, False}" by blast
    with ok have "(case map_of (outcomes ?runs) c of None \<Rightarrow> {} | Some s \<Rightarrow> set s) = {True, False}"
      by (simp add: outcomes_ok_def)
    then obtain s where "map_of (outcomes ?runs) c = Some s" "set s = {True, False}"
      by (cases "map_of (outcomes ?runs) c") auto
    then show "\<exists>(c, s) \<in> set (outcomes ?runs). set s = {True, False}" by (blast dest: map_of_SomeD)
  qed
  also have "\<dots> \<longleftrightarrow> (\<exists>c. True \<in> failed ` {r \<in> set ?runs. run_commit r = c} \<and> False \<in> failed ` {r \<in> set ?runs. run_commit r = c})"
    by (simp only: both_bools)
  also have "\<dots> \<longleftrightarrow> (\<exists>a \<in> set ?runs. \<exists>b \<in> set ?runs. run_commit a = run_commit b \<and> failed a \<and> \<not> failed b)"
  proof
    assume "\<exists>c. True \<in> failed ` {r \<in> set ?runs. run_commit r = c} \<and> False \<in> failed ` {r \<in> set ?runs. run_commit r = c}"
    then obtain c a b where "a \<in> set ?runs" "run_commit a = c" "failed a" "b \<in> set ?runs" "run_commit b = c" "\<not> failed b"
      by (auto simp: image_iff)
    then show "\<exists>a \<in> set ?runs. \<exists>b \<in> set ?runs. run_commit a = run_commit b \<and> failed a \<and> \<not> failed b" by metis
  next
    assume "\<exists>a \<in> set ?runs. \<exists>b \<in> set ?runs. run_commit a = run_commit b \<and> failed a \<and> \<not> failed b"
    then obtain a b where ab: "a \<in> set ?runs" "b \<in> set ?runs" "run_commit a = run_commit b" "failed a" "\<not> failed b"
      by blast
    show "\<exists>c. True \<in> failed ` {r \<in> set ?runs. run_commit r = c} \<and> False \<in> failed ` {r \<in> set ?runs. run_commit r = c}"
      by (intro exI [of _ "run_commit a"] conjI image_eqI [of _ _ a] image_eqI [of _ _ b]) (use ab in simp_all)
  qed
  finally show ?thesis .
qed

section \<open>The verdict\<close>

lemma flipped_window:
  "flipped_on_same_commit (window_of policy runs) \<longleftrightarrow>
     (\<exists>a \<in> set (window_of policy runs). \<exists>b \<in> set (window_of policy runs).
        run_commit a = run_commit b \<and> failed a \<and> \<not> failed b)"
  by (simp add: flipped_iff)

lemma verdict_cases:
  "(if p then Flaky else if q then NotEnoughData else if r then Broken else if t then Flaky else Stable) = Flaky
     \<longleftrightarrow> p \<or> (\<not> q \<and> \<not> r \<and> t)"
  by simp

lemma flip_rate_window:
  assumes "0 < fp_window policy" "0 < fp_flip_rate_threshold policy"
  shows "fp_flip_rate_threshold policy \<le> flip_rate policy (window_of policy runs) \<longleftrightarrow>
    2 \<le> length (window_of policy runs)
    \<and> fp_flip_rate_threshold policy \<le> of_nat (flips (window_of policy runs)) / of_nat (length (window_of policy runs) - 1)"
  using assms by (auto simp: flip_rate_def window_again Let_def)

text \<open>
  C39. The verdict rests on the last \<open>window\<close> conclusive runs and on nothing else. A test is flaky exactly
  when two of them on one commit disagree, or when there are enough of them, not all failed, and the
  share of neighbours that disagree reaches the threshold. A test whose window only fails is never
  quarantined. Skipped runs and everything before the window change nothing, so a pass and a failure
  on the same commit stop being proof once they have left it.
\<close>

theorem verdict_rests_on_window:
  assumes "0 < fp_window policy" and "0 < fp_flip_rate_threshold policy"
  shows "(classify policy runs = Flaky \<longleftrightarrow>
      (\<exists>a \<in> set (window_of policy runs). \<exists>b \<in> set (window_of policy runs).
         run_commit a = run_commit b \<and> failed a \<and> \<not> failed b)
      \<or> (fp_min_runs policy \<le> int (length (window_of policy runs)) \<and> \<not> list_all failed (window_of policy runs)
         \<and> 2 \<le> length (window_of policy runs)
         \<and> fp_flip_rate_threshold policy
             \<le> of_nat (flips (window_of policy runs)) / of_nat (length (window_of policy runs) - 1)))
    \<and> (list_all failed (window_of policy runs) \<longrightarrow>
         \<not> should_quarantine policy runs \<and> classify policy runs \<in> {Broken, NotEnoughData})
    \<and> classify policy (conclusive runs) = classify policy runs
    \<and> (\<forall>older. fp_window policy \<le> int (length (conclusive runs)) \<longrightarrow>
         classify policy (older @ runs) = classify policy runs)"
proof (intro conjI allI impI)
  let ?w = "window_of policy runs"
  show "classify policy runs = Flaky \<longleftrightarrow> (\<exists>a \<in> set ?w. \<exists>b \<in> set ?w. run_commit a = run_commit b \<and> failed a \<and> \<not> failed b)
      \<or> (fp_min_runs policy \<le> int (length ?w) \<and> \<not> list_all failed ?w \<and> 2 \<le> length ?w
         \<and> fp_flip_rate_threshold policy \<le> of_nat (flips ?w) / of_nat (length ?w - 1))"
    unfolding classify_def Let_def flipped_window flip_rate_window [OF assms] verdict_cases not_less ..
  show "classify policy runs \<in> {Broken, NotEnoughData}" if "list_all failed ?w"
    using that unfolding classify_def Let_def flipped_window by (auto simp: list_all_iff)
  then show "\<not> should_quarantine policy runs" if "list_all failed ?w"
    using that by (auto simp: should_quarantine_def)
  show "classify policy (conclusive runs) = classify policy runs"
    by (simp add: classify_def window_of_def)
  show "classify policy (older @ runs) = classify policy runs"
    if "fp_window policy \<le> int (length (conclusive runs))" for older
    using that by (simp add: classify_def window_append [OF assms(1)])
qed

definition sample_run :: "string \<Rightarrow> case_status \<Rightarrow> case_run" where
  "sample_run commit status =
     \<lparr>run_test_id = ''t::a'', run_commit = commit, run_branch = ''main'', run_attempt = 1, run_status = status,
      run_duration = ''0.1''\<rparr>"

theorem verdict_rests_on_window_witness:
  "classify DEFAULT_POLICY [sample_run ''c1'' Failed, sample_run ''c1'' Passed] = Flaky
   \<and> classify DEFAULT_POLICY ([sample_run ''c1'' Failed, sample_run ''c1'' Passed] @ replicate 20 (sample_run ''c2'' Passed))
     = classify DEFAULT_POLICY (replicate 20 (sample_run ''c2'' Passed))"
proof -
  have policy: "0 < fp_window DEFAULT_POLICY" "0 < fp_flip_rate_threshold DEFAULT_POLICY"
    by (simp_all add: DEFAULT_POLICY_def)
  have w: "window_of DEFAULT_POLICY [sample_run ''c1'' Failed, sample_run ''c1'' Passed]
      = [sample_run ''c1'' Failed, sample_run ''c1'' Passed]"
    by (simp add: window_of_def DEFAULT_POLICY_def last_slice_def conclusive_def CONCLUSIVE_STATUSES_def sample_run_def)
  have "classify DEFAULT_POLICY [sample_run ''c1'' Failed, sample_run ''c1'' Passed] = Flaky"
    using verdict_rests_on_window [OF policy, of "[sample_run ''c1'' Failed, sample_run ''c1'' Passed]"] w
    by (simp add: sample_run_def failed_def)
  moreover have "length (conclusive (replicate 20 (sample_run ''c2'' Passed))) = 20"
    by (simp add: conclusive_def filter_replicate CONCLUSIVE_STATUSES_def sample_run_def)
  then have "classify DEFAULT_POLICY (older @ replicate 20 (sample_run ''c2'' Passed))
      = classify DEFAULT_POLICY (replicate 20 (sample_run ''c2'' Passed))" for older
    using verdict_rests_on_window [OF policy, of "replicate 20 (sample_run ''c2'' Passed)"]
    by (simp add: DEFAULT_POLICY_def)
  ultimately show ?thesis by blast
qed

text \<open>Leaving quarantine: proven stability comes before the deadline, and the deadline itself is past.\<close>

lemma quarantine_outcome:
  assumes "0 < fp_stable_runs_to_release policy"
  shows "quarantine_state policy entry runs now = Released \<longleftrightarrow>
      (\<exists>older recent. conclusive runs = older @ recent \<and> int (length recent) = fp_stable_runs_to_release policy
         \<and> list_all (\<lambda>r. run_status r = Passed) recent)"
    and "quarantine_state policy entry runs now \<noteq> Released \<Longrightarrow>
      quarantine_state policy entry runs now = QExpired \<longleftrightarrow> qe_opened_at entry + fp_quarantine_ttl policy \<le> now"
proof -
  let ?n = "fp_stable_runs_to_release policy" and ?c = "conclusive runs"
  have "earned_release policy runs \<longleftrightarrow> (\<exists>older recent. ?c = older @ recent \<and> int (length recent) = ?n
      \<and> list_all (\<lambda>r. run_status r = Passed) recent)"
  proof
    assume e: "earned_release policy runs"
    have "?c = take (length ?c - nat ?n) ?c @ drop (length ?c - nat ?n) ?c" by simp
    moreover have "int (length (drop (length ?c - nat ?n) ?c)) = ?n"
      using e assms by (simp add: earned_release_def Let_def of_nat_diff nat_le_iff)
    moreover have "list_all (\<lambda>r. run_status r = Passed) (drop (length ?c - nat ?n) ?c)"
      using e assms by (simp add: earned_release_def Let_def last_slice_def list_all_iff list_ex_iff failed_def)
    ultimately show "\<exists>older recent. ?c = older @ recent \<and> int (length recent) = ?n
      \<and> list_all (\<lambda>r. run_status r = Passed) recent" by (intro exI conjI)
  next
    assume "\<exists>older recent. ?c = older @ recent \<and> int (length recent) = ?n \<and> list_all (\<lambda>r. run_status r = Passed) recent"
    then obtain older recent where r: "?c = older @ recent" "int (length recent) = ?n"
      "list_all (\<lambda>r. run_status r = Passed) recent" by blast
    have "last_slice ?n ?c = recent" using assms r(1,2) by (simp add: last_slice_def)
    with r show "earned_release policy runs"
      by (auto simp: earned_release_def list_all_iff list_ex_iff failed_def)
  qed
  then show "quarantine_state policy entry runs now = Released \<longleftrightarrow>
      (\<exists>older recent. ?c = older @ recent \<and> int (length recent) = ?n \<and> list_all (\<lambda>r. run_status r = Passed) recent)"
    by (simp add: quarantine_state_def)
  show "quarantine_state policy entry runs now \<noteq> Released \<Longrightarrow>
      quarantine_state policy entry runs now = QExpired \<longleftrightarrow> qe_opened_at entry + fp_quarantine_ttl policy \<le> now"
    by (simp add: quarantine_state_def is_expired_def expires_at_def split: if_splits)
qed

end
