(* ===== verification/Spec2Isabelle.thy ===== *)
theory Spec2Isabelle
  imports Booking_Delivery Booking_Api System_Payment System_Journey System_Contract Db_Migrate Services_Clients Http_Errors
    Payments_Settlement Payments_Api Notifier_Retries Web_Cookies Web_Pages Web_Messages
    Tools_Changes Tools_Schema Tools_Audit_Properties Tools_Imports Tools_Mutation Tools_Export Quality_Flakiness
begin

text \<open>
  A verification library for the booking system Slot: four services and the tools that guard their changes.

  \<^bold>\<open>The program.\<close> A master publishes slots, a client books one, pays for it and is told. \<open>booking\<close> owns slots and
  bookings; a booking is pending for fifteen minutes and is confirmed when its payment arrives. \<open>payments\<close> owns
  payments; it asks the provider PayStub for a charge, learns the outcome from a signed webhook, and tells booking. Both
  write what a neighbour must hear into an outbox in the transaction of the change, and a relay delivers it later:
  booking's to a Redis stream, those of payments over HTTP. \<open>notifier\<close> consumes the stream and sends one message per event through
  NotifyGate. \<open>web\<close> has the pages; it owns no data, signs a token at login and calls booking with it. The quality hub reads
  test reports and decides which tests are flaky; \<open>tools/\<close> holds the checks of the repository's pipeline.

  \<^bold>\<open>Theories and sources.\<close> Paths are below \<open>src/\<close>; a service \<open>x\<close> lives in \<open>services/x/src/x/\<close>.

  \<^item> \<open>Prelude\<close>: Python exceptions as values (\<open>py_error\<close>, \<open>exn\<close>), \<open>try_bind\<close>, SELECT and UPDATE on lists of rows, reachable
    states, and the locales \<open>invariant_system\<close>, \<open>status_machine\<close> and \<open>codec\<close>
    (a text form that reads back, interpreted on UUIDs, timestamps, JSON and base64). \<open>Worker\<close>: a process that repeats a turn
    for ever, as a possibly infinite run over a stream of inputs, and the locale \<open>worker\<close> of those whose turns are steps of a system. \<open>Pyvalue\<close>, \<open>Pytime\<close>, \<open>Pyiso\<close>, \<open>Pyjson\<close>,
    \<open>Pyjson_Roundtrip\<close>, \<open>Pybase64\<close>, \<open>Pyhash\<close>: the parts of Python's library the services rest on (text, UUIDs, datetimes, ISO dates,
    JSON, base64, SHA-256 and HMAC), written out, with their round trips. \<open>Http\<close>: a call over HTTP as a function of a request and
    the state of the world behind it.
  \<^item> booking: \<open>Booking_Domain\<close> (\<open>domain.py\<close>), \<open>Booking_Events\<close> (\<open>events.py\<close>), \<open>Booking_Auth\<close> and \<open>Booking_Token\<close> (\<open>auth.py\<close>),
    \<open>Booking_Service\<close> (\<open>models.py\<close>, \<open>service.py\<close>), \<open>Booking_Outbox\<close> (\<open>outbox.py\<close>, over the interface \<open>Relay_Loop\<close>),
    \<open>Booking_Worker\<close> (its \<open>run_forever\<close>), \<open>Booking_App\<close> (\<open>app.py\<close>, \<open>payments_client.py\<close>, \<open>schemas.py\<close>). \<open>Booking_Invariant\<close>, \<open>Booking_Changes\<close> and \<open>Booking_Usecases\<close> prove
    what the use cases keep and do branch by branch; \<open>Booking_System\<close> interleaves requests and relays;
    \<open>Booking_Properties\<close>, \<open>Booking_Delivery\<close> and \<open>Booking_Api\<close> hold the properties.
  \<^item> payments: \<open>Payments_Domain\<close> (\<open>domain.py\<close>), \<open>Payments_Clients\<close> (\<open>paystub.py\<close>, \<open>booking_client.py\<close>), \<open>Payments_Service\<close> (\<open>models.py\<close>,
    \<open>service.py\<close>), \<open>Payments_Relay\<close> (\<open>relay.py\<close>, the second instance of \<open>Relay_Loop\<close>) with \<open>Payments_Worker\<close>, \<open>Payments_App\<close> (\<open>app.py\<close>, \<open>schemas.py\<close>);
    \<open>Payments_Invariant\<close> and \<open>Payments_Steps\<close> prove the ledger invariant, \<open>Payments_System\<close> interleaves;
    \<open>Payments_Properties\<close>, \<open>Payments_Settlement\<close> and \<open>Payments_Api\<close> hold the properties.
  \<^item> notifier: \<open>Notifier_Domain\<close>, \<open>Notifier_Gateway\<close>, \<open>Notifier_Consumer\<close> (\<open>domain.py\<close>, \<open>gateway.py\<close>, \<open>consumer.py\<close> with \<open>models.py\<close> and
    \<open>service.py\<close>); \<open>Notifier_System\<close> interleaves consumers that may crash anywhere, \<open>Notifier_Ledger\<close> is the abstract ledger of
    ADR-0010 they refine; \<open>Notifier_Worker\<close> is the process of a consumer as a part of that system; \<open>Notifier_Events\<close>, \<open>Notifier_Properties\<close> and \<open>Notifier_Retries\<close>.
  \<^item> web: \<open>Web_Domain\<close> and \<open>Web_Messages\<close> (\<open>domain.py\<close>), \<open>Web_Client\<close> (\<open>booking_client.py\<close>), \<open>Web_App\<close> (\<open>app.py\<close>);
    \<open>Web_Sessions\<close>, \<open>Web_Cookies\<close> (a browser around the pages) and \<open>Web_Pages\<close>.
  \<^item> All services: \<open>Services_Settings\<close> (\<open>Settings.from_env\<close>, \<open>health\<close>), \<open>Services_Workers\<close> (\<open>main\<close> of the two relays and the consumer,
    their heartbeats), \<open>Services_Clients\<close> (the HTTP clients, \<open>create_app\<close> and the processes put together from the settings), \<open>Http_Errors\<close> (\<open>http_error\<close>, \<open>invalid_request\<close>, the routes, the
    endpoint of notifier), \<open>Db_Schema\<close> and \<open>Db_Migrations\<close> (\<open>migrations/versions/\<close> next to the tables of \<open>models.py\<close>),
    \<open>Db_Migrate\<close> (\<open>migrate.py\<close>, \<open>migrations/env.py\<close>).
  \<^item> Across services: \<open>System_Payment\<close> (booking's client against the endpoint of payments), \<open>System_Confirm\<close> (the relay of
    payments against booking's endpoint), \<open>System_Journey\<close> (webhook, both relays and the notifier), \<open>System_Contract\<close>
    (\<open>schemas.py\<close> of booking: the published event, and the notifier as its reader).
  \<^item> Tools and quality hub: \<open>Tools_Changes\<close>, \<open>Tools_Risks\<close>, \<open>Tools_Audit\<close> with \<open>Tools_Audit_Properties\<close>, \<open>Tools_Imports\<close>, \<open>Tools_Schema\<close>
    (\<open>tools/changed_services.py\<close>, \<open>accepted_risks.py\<close>, \<open>dependency_audit.py\<close>, \<open>import_boundaries.py\<close>, \<open>event_schema_diff.py\<close>);
    \<open>Tools_Mutation\<close> and \<open>Tools_Export\<close> (\<open>mutation_gate.py\<close>, \<open>export_openapi.py\<close>, \<open>export_events.py\<close> in the \<open>tools/\<close> of a service); \<open>Quality_Junit\<close>
    and \<open>Quality_Flakiness\<close> (\<open>services/quality-hub/src/quality_hub/\<close>).

  \<^bold>\<open>How state and operations correspond.\<close> A database is a record of tables, a table a list of records in the order of
  insertion, and a counter stands for \<open>uuid7\<close>, whose values grow. The constraints the database enforces are checked where
  the code commits (\<open>violated_constraint\<close>, \<open>pay_violated_constraint\<close>, \<open>fits_columns\<close>, \<open>fits_charge\<close>). An operation takes the
  committed tables and returns them with a sum: \<open>Inl\<close> an error of the domain, of Python or of a constraint, \<open>Inr\<close> the result. Moments
  are microseconds since 1970 as integers, datetimes are records with an optional offset. Endpoints return a status and a
  body, or the exception nobody caught, which the framework turns into a 500.
\<close>

text \<open>
  \<^bold>\<open>What the lemmas show.\<close>

  \<^item> Booking: the outcome of every use case, no double booking and an outbox that tells the history of each booking under
    every interleaving, a listing that agrees with what booking would do, one winner of a race, ownership; nothing published is
    lost, what a failure repeats, and that the running relay
    publishes every message in turn, however many follow it. Over HTTP: documented statuses only, and changes within the rights of a verified caller.
  \<^item> Payments: idempotent creation, a webhook applied once, a ledger that accounts for the money in every reachable state,
    settlement once the neighbours answer, and the two ways the queue stands still; documented statuses only.
  \<^item> Notifier: acknowledged means settled, one message per event, refinement of the ledger, a process whose turns are steps of the
    system, deliveries that end, and the message that never does.
  \<^item> Web: a token of the web service is the person it was issued to at booking until it expires, and so long do the cookies of a
    browser say so; a page for every answer.
  \<^item> Across services: a payment shown to a client is the one payment of the booking at its price; a confirmation ends confirmed
    or refunded; a charge reaches the client as a message; everything booking can publish keeps the published schema and is understood. A service needs its secret to start. The migrations create the
    tables the models declare; the commands are all or nothing, can be repeated and taken back, and keep any URL. The two ends of the stream
    agree on it, a heartbeat shows the last turn, and the key of a provider goes to nobody else.
  \<^item> Tools: accepted risks are bounded in time, a green audit satisfies the policy, a verdict rests on its window, an export loses nothing and is
    canonical, the mutation gate passes a full score only; further
    lemmas on selection of services, import boundaries and event schemas.

  \<^bold>\<open>Parameters and hypotheses.\<close> PayStub, NotifyGate, Redis, the network between services, git, uv, the XML parser, \<open>float()\<close>, the
  schemas FastAPI and Pydantic build and Alembic's comparison of schemas are arguments of the definitions. What other processes do between two
  turns of a loop is an input of the turn. Where a property needs them to behave, it says so: a broker or gateway that
  accepts, neighbours that answer, a renderer whose JSON shows a payment's id, status and URL. Invariants (\<open>wf_db\<close>,
  \<open>booking_inv\<close>, \<open>pay_wf\<close>, \<open>pay_inv\<close>) hold of the empty tables and are kept by every step; properties about one request assume
  them. Ids are taken from 128 bits; the tables are only described until these run out.

  \<^bold>\<open>Bounds and fuel.\<close> Fuel is used in \<open>history\<close>, which follows at most as many revisions as there are, and in the JSON scanner, where the
  length of the text is enough; options are interpolated ten levels deep, as in Python. The relays take batches of
  100, so k turns empty an outbox of 100 k messages; a message is given up after \<open>max_deliveries\<close> deliveries, by default 5.
  A token's expiry is a float in Python: it is exact because \<open>timestamp()\<close> stays below 2 ^ 34 seconds. A displayed price is exact below 2 ^ 52
  kopecks, the schemas stop at 10 ^ 9. Strings are characters up to 255; where a wider one can enter (JSON escapes, bytes that are not ASCII) its
  reading is a parameter.

  \<^bold>\<open>Not modelled.\<close> Database engines and sessions, routing and parsing of requests by FastAPI and Pydantic beyond the validations
  written out, the HTML of the Jinja templates and the sentences of \<open>InvalidInputError\<close>: they are the framework's or
  text for people. A turn shows that the loop sleeps, not how long; logging and what the tools print around their verdicts are left out. Of
  Alembic's revision arguments only \<open>head\<close>, \<open>base\<close> and whole ids are known. Heartbeat files can always be written. A start
  past the year 9999 in UTC, which an offset can make, is stored and listed like any other, where the driver could not read it back. PostgreSQL refuses NUL characters in text; no definition here does. \<open>update\<close>, \<open>commit\<close> and
  \<open>rollback\<close> are atomic: failures of the database itself are not described, except where a relay or a consumer may crash.
\<close>

end
